(* ===== verification/Prelude.thy ===== *)
theory Prelude
  imports Main "HOL-Library.Product_Lexorder" "HOL-Library.Option_ord"
    "HOL-Library.List_Lexorder" "HOL-Library.Char_ord"
begin

text \<open>
  What every component of the development shares: the fact collections, Go's
  instants and 64-bit durations, the pieces of Go's \<^verbatim>\<open>strings\<close> package the
  source uses, and the operations of a sequential computation that may fail.

  A Go function \<^verbatim>\<open>f(ctx, x) (T, error)\<close> with side effects is a value of type
  \<open>('s, 't) sm\<close>: from a state it gives an error or a result, and the state after
  it.  \<^verbatim>\<open>if err != nil { return err }\<close> is \<open>andThen\<close>; an error that the code looks
  at is \<open>handle\<close>.  Wrapping by \<^verbatim>\<open>fmt.Errorf("...: %w", err)\<close> keeps the cause that
  \<^verbatim>\<open>errors.Is\<close> finds, so a model error is that cause and the added text is left out.
\<close>

subsection \<open>Fact collections\<close>

named_theorems sm_simps \<open>evaluation of the computations\<close>
named_theorems row_simps \<open>what the row updates keep\<close>

subsection \<open>Instants and durations\<close>

text \<open>
  An instant is a number of nanoseconds since Go's zero time, a duration a number of
  nanoseconds.  \<^verbatim>\<open>time.Duration\<close> is an \<^verbatim>\<open>int64\<close>: where a product or a sum can leave
  its range the model wraps around with \<open>wrap64\<close>.
\<close>

type_synonym time = int
type_synonym duration = int

definition second :: duration where
  "second = 1000000000"

definition wrap64 :: "int \<Rightarrow> int" where
  "wrap64 x = (x + 2 ^ 63) mod 2 ^ 64 - 2 ^ 63"

lemma wrap64_id: "- (2 ^ 63) \<le> x \<Longrightarrow> x < 2 ^ 63 \<Longrightarrow> wrap64 x = x"
  by (simp add: wrap64_def)

lemma wrap64_bounds: "- (2 ^ 63) \<le> wrap64 x" "wrap64 x < 2 ^ 63"
proof -
  have "0 \<le> (x + 2 ^ 63) mod 2 ^ 64" "(x + 2 ^ 63) mod 2 ^ 64 < (2 :: int) ^ 64"
    by simp_all
  then show "- (2 ^ 63) \<le> wrap64 x" "wrap64 x < 2 ^ 63"
    by (simp_all add: wrap64_def)
qed

subsection \<open>Strings\<close>

text \<open>
  A Go string is the list of its bytes.  \<^verbatim>\<open>strings.TrimSpace\<close> also strips the
  multi-byte spaces of Unicode; the model strips the ASCII ones, and every other byte
  is not a space to it.
\<close>

definition is_space :: "char \<Rightarrow> bool" where
  "is_space c = (c \<in> {CHR '' '', CHR 0x09, CHR 0x0A, CHR 0x0B, CHR 0x0C, CHR 0x0D})"

definition trim_space :: "string \<Rightarrow> string" where
  "trim_space s = rev (dropWhile is_space (rev (dropWhile is_space s)))"

definition has_prefix :: "string \<Rightarrow> string \<Rightarrow> bool" where
  "has_prefix s p = (take (length p) s = p)"

definition trim_prefix :: "string \<Rightarrow> string \<Rightarrow> string" where
  "trim_prefix s p = (if has_prefix s p then drop (length p) s else s)"

lemma trim_space_Nil [simp]: "trim_space [] = []"
  by (simp add: trim_space_def)

lemma dropWhile_rev_hd:
  "xs = [] \<or> \<not> P (hd xs) \<Longrightarrow> rev (dropWhile P (rev xs)) = [] \<or> \<not> P (hd (rev (dropWhile P (rev xs))))"
proof (cases xs)
  case (Cons y ys)
  assume "xs = [] \<or> \<not> P (hd xs)"
  with Cons have "\<not> P y" by simp
  with Cons show ?thesis by (simp add: dropWhile_append)
qed simp

lemma trim_space_idem [simp]: "trim_space (trim_space s) = trim_space s"
proof -
  let ?t = "rev (dropWhile is_space (rev (dropWhile is_space s)))"
  have "?t = [] \<or> \<not> is_space (hd ?t)"
    by (rule dropWhile_rev_hd) (metis hd_dropWhile)
  then have "dropWhile is_space ?t = ?t"
    by (metis dropWhile_eq_self_iff)
  moreover have "dropWhile is_space (rev ?t) = rev ?t"
    by simp
  ultimately show ?thesis by (simp add: trim_space_def)
qed

subsection \<open>Computations\<close>

datatype err =
    ErrNotFound
  | ErrConflict
  | ErrAttemptAlreadyFinalized
  | ErrAttemptAlreadyProcessing
  | ErrInvalidStateTransition
  | SqlNoRows
  | SqlUniqueViolation
  | SqlForeignKeyViolation
  | SqlCheckViolation
  | SqlNotNullViolation
  | SqlScanArity
  | ConnError
  | JsonError
  | ErrText string

type_synonym ('s, 'a) sm = "'s \<Rightarrow> (err + 'a) \<times> 's"

definition return :: "'a \<Rightarrow> ('s, 'a) sm" where
  "return x s = (Inr x, s)"

definition fail :: "err \<Rightarrow> ('s, 'a) sm" where
  "fail e s = (Inl e, s)"

definition handle :: "('s, 'a) sm \<Rightarrow> (err \<Rightarrow> ('s, 'b) sm) \<Rightarrow> ('a \<Rightarrow> ('s, 'b) sm) \<Rightarrow> ('s, 'b) sm" where
  "handle m h k s = (case m s of (Inl e, s') \<Rightarrow> h e s' | (Inr x, s') \<Rightarrow> k x s')"

definition andThen :: "('s, 'a) sm \<Rightarrow> ('a \<Rightarrow> ('s, 'b) sm) \<Rightarrow> ('s, 'b) sm" where
  "andThen m k = handle m fail k"

text \<open>\<^verbatim>\<open>_ = f(...)\<close>: the error is dropped.\<close>

definition ignore :: "('s, 'a) sm \<Rightarrow> ('s, unit) sm" where
  "ignore m = handle m (\<lambda>_. return ()) (\<lambda>_. return ())"

text \<open>\<^verbatim>\<open>for _, x := range xs { ...; if err != nil { return err } }\<close>, collecting results.\<close>

fun forEach :: "'a list \<Rightarrow> ('a \<Rightarrow> ('s, 'b) sm) \<Rightarrow> ('s, 'b list) sm" where
  "forEach [] f = return []"
| "forEach (x # xs) f = andThen (f x) (\<lambda>y. andThen (forEach xs f) (\<lambda>ys. return (y # ys)))"

lemma return_eq [sm_simps]: "return x s = (Inr x, s)"
  by (simp add: return_def)

lemma fail_eq [sm_simps]: "fail e s = (Inl e, s)"
  by (simp add: fail_def)

lemma handle_eq [sm_simps]:
  "m s = (Inl e, s') \<Longrightarrow> handle m h k s = h e s'"
  "m s = (Inr x, s') \<Longrightarrow> handle m h k s = k x s'"
  by (simp_all add: handle_def)

lemma andThen_eq [sm_simps]:
  "m s = (Inl e, s') \<Longrightarrow> andThen m k s = (Inl e, s')"
  "m s = (Inr x, s') \<Longrightarrow> andThen m k s = k x s'"
  by (simp_all add: andThen_def handle_def fail_def)

lemma andThen_Inr:
  "andThen m k s = (Inr y, s'') \<longleftrightarrow> (\<exists>x s'. m s = (Inr x, s') \<and> k x s' = (Inr y, s''))"
  by (auto simp: andThen_def handle_def fail_def split: prod.splits sum.splits)

text \<open>
  Relations between the states before and after a computation.  A relation that is
  reflexive and transitive on an observation of the state is kept by every composition
  of computations that keep it: the rules below are all a component needs.
\<close>

definition obeys :: "('o \<Rightarrow> 'o \<Rightarrow> bool) \<Rightarrow> ('s \<Rightarrow> 'o) \<Rightarrow> ('s, 'a) sm \<Rightarrow> bool" where
  "obeys R obs m \<longleftrightarrow> (\<forall>s. R (obs s) (obs (snd (m s))))"

lemma obeysD: "obeys R obs m \<Longrightarrow> m s = (r, s') \<Longrightarrow> R (obs s) (obs s')"
  by (metis obeys_def snd_conv)

locale history =
  fixes R :: "'o \<Rightarrow> 'o \<Rightarrow> bool"
  assumes refl: "R x x"
    and trans: "R x y \<Longrightarrow> R y z \<Longrightarrow> R x z"
begin

lemma return: "obeys R obs (return x)"
  by (simp add: obeys_def return_def refl)

lemma fail: "obeys R obs (fail e)"
  by (simp add: obeys_def fail_def refl)

lemma handle:
  assumes "obeys R obs m" "\<And>e. obeys R obs (h e)" "\<And>x. obeys R obs (k x)"
  shows "obeys R obs (handle m h k)"
  unfolding obeys_def
proof
  fix s
  obtain r s' where m: "m s = (r, s')" by (cases "m s")
  with assms(1) have 1: "R (obs s) (obs s')" by (rule obeysD)
  have 2: "R (obs s') (obs (snd (handle m h k s)))"
    using assms(2,3) m by (cases r) (simp_all add: handle_def obeys_def)
  from 1 2 show "R (obs s) (obs (snd (handle m h k s)))" by (rule trans)
qed

lemma andThen:
  assumes "obeys R obs m" "\<And>x. obeys R obs (k x)"
  shows "obeys R obs (andThen m k)"
  unfolding andThen_def by (rule handle) (use assms fail in auto)

lemma ignore: "obeys R obs m \<Longrightarrow> obeys R obs (ignore m)"
  unfolding ignore_def by (rule handle) (auto intro: return)

lemma forEach: "(\<And>x. x \<in> set xs \<Longrightarrow> obeys R obs (f x)) \<Longrightarrow> obeys R obs (forEach xs f)"
  by (induction xs) (auto intro!: andThen return)

lemma If: "(b \<Longrightarrow> obeys R obs m) \<Longrightarrow> (\<not> b \<Longrightarrow> obeys R obs n) \<Longrightarrow> obeys R obs (if b then m else n)"
  by simp

lemma case_option:
  "(x = None \<Longrightarrow> obeys R obs m) \<Longrightarrow> (\<And>y. x = Some y \<Longrightarrow> obeys R obs (k y)) \<Longrightarrow>
     obeys R obs (case x of None \<Rightarrow> m | Some y \<Rightarrow> k y)"
  by (cases x) simp_all

lemmas compose = return fail andThen handle ignore forEach If case_option

end

end
