(* ===== verification/Store_Model.thy ===== *)
theory Store_Model
  imports Prelude
begin

text \<open>
  The durable data of the service and the database it lives in: the structs of
  \<^verbatim>\<open>internal/store/postgres.go\<close>, the tables of \<^verbatim>\<open>migrations/\<close> and \<^verbatim>\<open>db/schema.sql\<close>
  with their constraints, and the statements the store methods are made of.

  A table is the list of its rows in insertion order.  \<^verbatim>\<open>ORDER BY\<close> is a stable sort, so
  rows the query does not order stay in insertion order.  A text column compares bytewise.
  A status or state column is a datatype of the values its \<^verbatim>\<open>CHECK\<close> or \<^verbatim>\<open>ENUM\<close> admits.
\<close>

subsection \<open>Values and rows\<close>

datatype json = JNull | JBool bool | JNumber int | JString string | JArray "json list"
  | JObject "(string \<times> json) list"

datatype attempt_status = Pending | InProgress | Sent | Delivered | Failed | RetryScheduled
  | DeadLettered

datatype notification_status = NAccepted | NScheduled | NProcessing | NPartiallyDelivered
  | NDelivered | NFailed | NDeadLettered | NCancelled

datatype intent_status = IPending | IPublishing | IPublished

record tenant =
  ten_ID :: string
  ten_Name :: string
  ten_Status :: string
  ten_DailyQuota :: int
  ten_CreatedAt :: time

record template =
  tpl_ID :: string
  tpl_TenantID :: string
  tpl_Name :: string
  tpl_Channel :: string
  tpl_Version :: int
  tpl_Body :: string
  tpl_CreatedAt :: time

record notification =
  ntf_ID :: string
  ntf_TenantID :: string
  ntf_TemplateID :: string
  ntf_IdempotencyKey :: "string option"
  ntf_Status :: notification_status
  ntf_RecipientEmail :: "string option"
  ntf_RecipientWebhookURL :: "string option"
  ntf_SecondaryWebhookURL :: "string option"
  ntf_Variables :: json
  ntf_ScheduledFor :: "time option"
  ntf_PromotedAt :: "time option"
  ntf_CancelledAt :: "time option"
  ntf_SubmittedAt :: time
  ntf_UpdatedAt :: time

text \<open>
  \<open>att_DeadLetterID\<close> and \<open>att_ReplayOfDeadLetter\<close> are fields of the Go struct that no
  column backs: the stored rows have them \<open>None\<close>, and only the listing query fills them.
\<close>

record attempt =
  att_ID :: string
  att_NotificationID :: string
  att_Channel :: string
  att_AttemptNumber :: int
  att_Status :: attempt_status
  att_ErrorCode :: "string option"
  att_ErrorMessage :: "string option"
  att_ProviderMessageID :: "string option"
  att_LastError :: "string option"
  att_NextRetryAt :: "time option"
  att_StartedAt :: "time option"
  att_CompletedAt :: "time option"
  att_SentAt :: "time option"
  att_FailedAt :: "time option"
  att_DispatchEnqueuedAt :: "time option"
  att_EnqueueKind :: string
  att_ProviderUsed :: "string option"
  att_FailoverUsed :: bool
  att_DeadLetterID :: "string option"
  att_ReplayOfDeadLetter :: "string option"
  att_CreatedAt :: time
  att_UpdatedAt :: time

record intent =
  int_ID :: string
  int_NotificationID :: string
  int_AttemptID :: string
  int_TenantID :: string
  int_Channel :: string
  int_Source :: string
  int_Status :: intent_status
  int_LastError :: "string option"
  int_CreatedAt :: time
  int_ClaimedAt :: "time option"
  int_PublishedAt :: "time option"

record audit_event =
  aud_ID :: string
  aud_TenantID :: string
  aud_Actor :: string
  aud_Action :: string
  aud_ResourceType :: string
  aud_ResourceID :: string
  aud_Metadata :: json
  aud_CreatedAt :: time

record policy =
  pol_ID :: string
  pol_TenantID :: "string option"
  pol_Channel :: "string option"
  pol_Paused :: "bool option"
  pol_FailoverEnabled :: "bool option"
  pol_SchedulingEnabled :: "bool option"
  pol_ReplayAllowed :: "bool option"
  pol_MaxAttemptsOverride :: "int option"
  pol_RetryBaseDelaySeconds :: "int option"
  pol_RetryMaxDelaySeconds :: "int option"
  pol_CreatedAt :: time
  pol_UpdatedAt :: time

record dead_letter =
  dl_ID :: string
  dl_NotificationID :: string
  dl_Channel :: string
  dl_FinalError :: string
  dl_DeadLetteredAt :: time
  dl_ReplayedAt :: "time option"
  dl_ReplayAttemptID :: "string option"

subsection \<open>The database\<close>

text \<open>
  The repository has two definitions of the tables, and they differ: the migrations,
  which \<^verbatim>\<open>make migrate-up\<close> applies, and the snapshot \<^verbatim>\<open>db/schema.sql\<close>.  The
  differences the store methods can see are: \<^verbatim>\<open>dead_letters.tenant_id\<close> (migrations only,
  \<^verbatim>\<open>NOT NULL\<close> without a default), \<^verbatim>\<open>notifications.idempotency_key\<close> (\<^verbatim>\<open>NOT NULL\<close> in the
  snapshot only), the recipient \<^verbatim>\<open>CHECK\<close> of notifications (migrations only), and the
  unique key of templates (with the version in the migrations, without in the snapshot).
\<close>

datatype schema = Migrations | Snapshot

record db =
  db_schema :: schema
  db_tenants :: "tenant list"
  db_templates :: "template list"
  db_notifications :: "notification list"
  db_attempts :: "attempt list"
  db_outbox :: "intent list"
  db_policies :: "policy list"
  db_dead_letters :: "dead_letter list"
  db_audits :: "audit_event list"

definition empty_db :: "schema \<Rightarrow> db" where
  "empty_db sch = \<lparr>db_schema = sch, db_tenants = [], db_templates = [], db_notifications = [],
     db_attempts = [], db_outbox = [], db_policies = [], db_dead_letters = [], db_audits = []\<rparr>"

text \<open>
  The world of a process that uses the store: the database, the clock that \<^verbatim>\<open>time.Now\<close>
  and \<^verbatim>\<open>NOW()\<close> read (one clock for all machines), the start of the open transaction (the
  value of \<^verbatim>\<open>NOW()\<close> inside it), and what the environment does at the next steps.  Each
  statement and each reading of the clock takes one step: time passes, and the
  connection may fail before the request arrives or after it was executed.  When the
  list is used up nothing fails and no time passes.
\<close>

datatype fault = Fine | LostRequest | LostReply

record world =
  w_db :: db
  w_clock :: time
  w_tx :: "time option"
  w_env :: "(fault \<times> nat) list"

definition step :: "'x world_scheme \<Rightarrow> fault \<times> 'x world_scheme" where
  "step w = (case w_env w of
     [] \<Rightarrow> (Fine, w)
   | (flt, dt) # es \<Rightarrow> (flt, w\<lparr>w_clock := w_clock w + int dt, w_env := es\<rparr>))"

definition time_Now :: "('x world_scheme, time) sm" where
  "time_Now w = (case step w of (_, w') \<Rightarrow> (Inr (w_clock w'), w'))"

definition sql_NOW :: "'x world_scheme \<Rightarrow> time" where
  "sql_NOW w = (case w_tx w of None \<Rightarrow> w_clock w | Some t \<Rightarrow> t)"

text \<open>One statement: it sees \<^verbatim>\<open>NOW()\<close> and the tables; a rejected one changes nothing.\<close>

definition stmt :: "(time \<Rightarrow> db \<Rightarrow> err + 'a \<times> db) \<Rightarrow> ('x world_scheme, 'a) sm" where
  "stmt f w = (case step w of (flt, w1) \<Rightarrow>
     (case flt of
        LostRequest \<Rightarrow> (Inl ConnError, w1)
      | _ \<Rightarrow> (case f (sql_NOW w1) (w_db w1) of
               Inl e \<Rightarrow> (Inl (if flt = LostReply then ConnError else e), w1)
             | Inr (x, d) \<Rightarrow> (if flt = LostReply then Inl ConnError else Inr x, w1\<lparr>w_db := d\<rparr>))))"

definition query :: "(time \<Rightarrow> db \<Rightarrow> 'a) \<Rightarrow> ('x world_scheme, 'a) sm" where
  "query g = stmt (\<lambda>t d. Inr (g t d, d))"

text \<open>\<^verbatim>\<open>QueryRow(...).Scan(...)\<close>: the first row, or \<^verbatim>\<open>sql.ErrNoRows\<close>.\<close>

definition query_row :: "(time \<Rightarrow> db \<Rightarrow> 'a list) \<Rightarrow> ('x world_scheme, 'a) sm" where
  "query_row g = stmt (\<lambda>t d. case g t d of [] \<Rightarrow> Inl SqlNoRows | r # _ \<Rightarrow> Inr (r, d))"

text \<open>
  \<^verbatim>\<open>BeginTx ... defer tx.Rollback() ... tx.Commit()\<close>.  The body says whether the code
  reaches \<^verbatim>\<open>Commit\<close>; an error or a return before it rolls back.  A commit whose reply is
  lost is an error to the caller, but the transaction has happened.
\<close>

definition transaction :: "('x world_scheme, bool \<times> 'a) sm \<Rightarrow> ('x world_scheme, 'a) sm" where
  "transaction body w = (case step w of
     (Fine, w1) \<Rightarrow> (case body (w1\<lparr>w_tx := Some (w_clock w1)\<rparr>) of
         (Inl e, w2) \<Rightarrow> (Inl e, w2\<lparr>w_db := w_db w1, w_tx := None\<rparr>)
       | (Inr (False, x), w2) \<Rightarrow> (Inr x, w2\<lparr>w_db := w_db w1, w_tx := None\<rparr>)
       | (Inr (True, x), w2) \<Rightarrow> (case step w2 of
             (Fine, w3) \<Rightarrow> (Inr x, w3\<lparr>w_tx := None\<rparr>)
           | (LostReply, w3) \<Rightarrow> (Inl ConnError, w3\<lparr>w_tx := None\<rparr>)
           | (LostRequest, w3) \<Rightarrow> (Inl ConnError, w3\<lparr>w_db := w_db w1, w_tx := None\<rparr>)))
   | (_, w1) \<Rightarrow> (Inl ConnError, w1))"

definition commit_with :: "'a \<Rightarrow> ('x world_scheme, bool \<times> 'a) sm" where
  "commit_with x = return (True, x)"

definition leave_with :: "'a \<Rightarrow> ('x world_scheme, bool \<times> 'a) sm" where
  "leave_with x = return (False, x)"

text \<open>\<^verbatim>\<open>if errors.Is(err, sql.ErrNoRows) { return ErrNotFound }\<close>\<close>

definition or_not_found :: "('x world_scheme, 'a) sm \<Rightarrow> ('x world_scheme, 'a) sm" where
  "or_not_found m = handle m (\<lambda>e. fail (if e = SqlNoRows then ErrNotFound else e)) return"

definition isUniqueViolation :: "err \<Rightarrow> bool" where
  "isUniqueViolation e = (e = SqlUniqueViolation)"

definition wrapStoreError :: "err \<Rightarrow> err" where
  "wrapStoreError e = (if isUniqueViolation e then ErrConflict else e)"

definition or_wrapped :: "('x world_scheme, 'a) sm \<Rightarrow> ('x world_scheme, 'a) sm" where
  "or_wrapped m = handle m (\<lambda>e. fail (wrapStoreError e)) return"

definition IsConflict :: "err \<Rightarrow> bool" where
  "IsConflict e = (e = ErrConflict)"

definition IsAttemptAlreadyFinalized :: "err \<Rightarrow> bool" where
  "IsAttemptAlreadyFinalized e = (e = ErrAttemptAlreadyFinalized)"

definition IsAttemptAlreadyProcessing :: "err \<Rightarrow> bool" where
  "IsAttemptAlreadyProcessing e = (e = ErrAttemptAlreadyProcessing)"

definition IsInvalidStateTransition :: "err \<Rightarrow> bool" where
  "IsInvalidStateTransition e = (e = ErrInvalidStateTransition)"

end
