(* ===== verification/Store_Schema.thy ===== *)
theory Store_Schema
  imports Store_Model
begin

text \<open>
  The constraints of the tables, the inserts that obey them, and what the store keeps:
  \<open>wf_db\<close>, the integrity of the database (keys, references, checks), and \<open>evolves\<close>, what
  may happen to a row between two moments (an attempt moves forward through its life
  cycle, a cancellation and a promotion are final, a dead letter is replayed once).
\<close>

subsection \<open>Constraints and inserts\<close>

text \<open>Postgres tests \<^verbatim>\<open>NOT NULL\<close>, then \<^verbatim>\<open>CHECK\<close>, then the unique keys, then references.\<close>

definition constrained :: "bool \<Rightarrow> bool \<Rightarrow> bool \<Rightarrow> bool \<Rightarrow> 'a \<Rightarrow> err + 'a" where
  "constrained not_null check unique refs x =
     (if \<not> not_null then Inl SqlNotNullViolation
      else if \<not> check then Inl SqlCheckViolation
      else if \<not> unique then Inl SqlUniqueViolation
      else if \<not> refs then Inl SqlForeignKeyViolation
      else Inr x)"

definition channel_ok :: "string \<Rightarrow> bool" where
  "channel_ok c = (c = ''email'' \<or> c = ''webhook'')"

definition tenant_exists :: "db \<Rightarrow> string \<Rightarrow> bool" where
  "tenant_exists d i = (i \<in> ten_ID ` set (db_tenants d))"

definition template_exists :: "db \<Rightarrow> string \<Rightarrow> bool" where
  "template_exists d i = (i \<in> tpl_ID ` set (db_templates d))"

definition notification_exists :: "db \<Rightarrow> string \<Rightarrow> bool" where
  "notification_exists d i = (i \<in> ntf_ID ` set (db_notifications d))"

definition attempt_exists :: "db \<Rightarrow> string \<Rightarrow> bool" where
  "attempt_exists d i = (i \<in> att_ID ` set (db_attempts d))"

definition template_key :: "schema \<Rightarrow> template \<Rightarrow> string \<times> string \<times> string \<times> int" where
  "template_key sch t = (tpl_TenantID t, tpl_Name t, tpl_Channel t,
     (case sch of Migrations \<Rightarrow> tpl_Version t | Snapshot \<Rightarrow> 0))"

definition idem_key :: "notification \<Rightarrow> (string \<times> string) option" where
  "idem_key n = map_option (Pair (ntf_TenantID n)) (ntf_IdempotencyKey n)"

definition attempt_key :: "attempt \<Rightarrow> string \<times> string \<times> int" where
  "attempt_key a = (att_NotificationID a, att_Channel a, att_AttemptNumber a)"

definition notification_check :: "schema \<Rightarrow> notification \<Rightarrow> bool" where
  "notification_check sch n = (case sch of
     Migrations \<Rightarrow> ntf_RecipientEmail n \<noteq> None \<or> ntf_RecipientWebhookURL n \<noteq> None
   | Snapshot \<Rightarrow> True)"

definition positive_or_null :: "int option \<Rightarrow> bool" where
  "positive_or_null v = (case v of None \<Rightarrow> True | Some n \<Rightarrow> n > 0)"

definition policy_check :: "policy \<Rightarrow> bool" where
  "policy_check p = ((case pol_Channel p of None \<Rightarrow> True | Some c \<Rightarrow> channel_ok c)
     \<and> positive_or_null (pol_MaxAttemptsOverride p)
     \<and> positive_or_null (pol_RetryBaseDelaySeconds p)
     \<and> positive_or_null (pol_RetryMaxDelaySeconds p))"

definition policy_refs :: "db \<Rightarrow> policy \<Rightarrow> bool" where
  "policy_refs d p = (case pol_TenantID p of None \<Rightarrow> True | Some t \<Rightarrow> tenant_exists d t)"

definition insert_tenant :: "tenant \<Rightarrow> db \<Rightarrow> err + db" where
  "insert_tenant r d = constrained True (ten_DailyQuota r > 0)
     (ten_ID r \<notin> ten_ID ` set (db_tenants d)) True
     (d\<lparr>db_tenants := db_tenants d @ [r]\<rparr>)"

definition insert_template :: "template \<Rightarrow> db \<Rightarrow> err + db" where
  "insert_template r d = constrained True (tpl_Version r > 0 \<and> channel_ok (tpl_Channel r))
     (tpl_ID r \<notin> tpl_ID ` set (db_templates d)
       \<and> template_key (db_schema d) r \<notin> template_key (db_schema d) ` set (db_templates d))
     (tenant_exists d (tpl_TenantID r))
     (d\<lparr>db_templates := db_templates d @ [r]\<rparr>)"

definition insert_notification :: "notification \<Rightarrow> db \<Rightarrow> err + db" where
  "insert_notification r d = constrained
     (case db_schema d of Migrations \<Rightarrow> True | Snapshot \<Rightarrow> ntf_IdempotencyKey r \<noteq> None)
     (notification_check (db_schema d) r)
     (ntf_ID r \<notin> ntf_ID ` set (db_notifications d)
       \<and> (idem_key r = None \<or> idem_key r \<notin> idem_key ` set (db_notifications d)))
     (tenant_exists d (ntf_TenantID r) \<and> template_exists d (ntf_TemplateID r))
     (d\<lparr>db_notifications := db_notifications d @ [r]\<rparr>)"

definition insert_attempt :: "attempt \<Rightarrow> db \<Rightarrow> err + db" where
  "insert_attempt r d = constrained True
     (att_AttemptNumber r > 0 \<and> channel_ok (att_Channel r))
     (att_ID r \<notin> att_ID ` set (db_attempts d)
       \<and> attempt_key r \<notin> attempt_key ` set (db_attempts d))
     (notification_exists d (att_NotificationID r))
     (d\<lparr>db_attempts := db_attempts d @ [r]\<rparr>)"

definition insert_intent :: "intent \<Rightarrow> db \<Rightarrow> err + db" where
  "insert_intent r d = constrained True (channel_ok (int_Channel r))
     (int_ID r \<notin> int_ID ` set (db_outbox d)
       \<and> int_AttemptID r \<notin> int_AttemptID ` set (db_outbox d))
     (notification_exists d (int_NotificationID r) \<and> attempt_exists d (int_AttemptID r)
       \<and> tenant_exists d (int_TenantID r))
     (d\<lparr>db_outbox := db_outbox d @ [r]\<rparr>)"

text \<open>
  The insert into \<^verbatim>\<open>dead_letters\<close> names the columns id, notification, channel and error:
  under the migrations the \<^verbatim>\<open>NOT NULL\<close> column \<^verbatim>\<open>tenant_id\<close> then has no value.
\<close>

definition insert_dead_letter :: "dead_letter \<Rightarrow> db \<Rightarrow> err + db" where
  "insert_dead_letter r d = constrained (db_schema d = Snapshot) (channel_ok (dl_Channel r))
     (dl_ID r \<notin> dl_ID ` set (db_dead_letters d)
       \<and> (dl_ReplayAttemptID r = None \<or> dl_ReplayAttemptID r \<notin> dl_ReplayAttemptID ` set (db_dead_letters d)))
     (notification_exists d (dl_NotificationID r))
     (d\<lparr>db_dead_letters := db_dead_letters d @ [r]\<rparr>)"

definition insert_audit :: "audit_event \<Rightarrow> db \<Rightarrow> err + db" where
  "insert_audit r d = constrained True True
     (aud_ID r \<notin> aud_ID ` set (db_audits d))
     (tenant_exists d (aud_TenantID r))
     (d\<lparr>db_audits := db_audits d @ [r]\<rparr>)"

text \<open>\<^verbatim>\<open>UPDATE ... WHERE\<close>: the new table and the number of rows it touched.\<close>

definition update_where :: "('r \<Rightarrow> bool) \<Rightarrow> ('r \<Rightarrow> 'r) \<Rightarrow> 'r list \<Rightarrow> 'r list" where
  "update_where P f rs = map (\<lambda>r. if P r then f r else r) rs"

definition rows_where :: "('r \<Rightarrow> bool) \<Rightarrow> 'r list \<Rightarrow> nat" where
  "rows_where P rs = length (filter P rs)"

lemma update_where_key:
  "(\<And>r. P r \<Longrightarrow> key (f r) = key r) \<Longrightarrow> map key (update_where P f rs) = map key rs"
  by (induction rs) (simp_all add: update_where_def)

lemma update_where_image:
  "(\<And>r. P r \<Longrightarrow> key (f r) = key r) \<Longrightarrow> key ` set (update_where P f rs) = key ` set rs"
  using update_where_key [of P key f rs] by (metis set_map)

lemma update_where_ball:
  "(\<And>r. r \<in> set rs \<Longrightarrow> P r \<Longrightarrow> Q r \<Longrightarrow> Q (f r)) \<Longrightarrow> \<forall>r \<in> set rs. Q r \<Longrightarrow>
     \<forall>r \<in> set (update_where P f rs). Q r"
  by (auto simp: update_where_def)

lemma update_where_bex:
  assumes "\<And>r. P r \<Longrightarrow> M r (f r)" "\<And>r. M r r" "r \<in> set rs"
  shows "\<exists>r' \<in> set (update_where P f rs). M r r'"
  using assms by (cases "P r") (auto simp: update_where_def intro: bexI)

lemma rows_where_0: "rows_where P rs = 0 \<longleftrightarrow> (\<forall>r \<in> set rs. \<not> P r)"
  by (simp add: rows_where_def filter_empty_conv)

subsection \<open>Integrity\<close>

text \<open>The values of a unique column that may be null: nulls do not conflict.\<close>

definition keys_of :: "('r \<Rightarrow> 'k option) \<Rightarrow> 'r list \<Rightarrow> 'k option list" where
  "keys_of key rs = filter (\<lambda>k. k \<noteq> None) (map key rs)"

lemma set_keys_of: "set (keys_of key rs) = key ` set rs - {None}"
  by (auto simp: keys_of_def)

lemma keys_of_simps [simp]:
  "keys_of key [] = []"
  "keys_of key (rs @ [r]) = keys_of key rs @ (if key r = None then [] else [key r])"
  by (simp_all add: keys_of_def)

lemma keys_of_cong: "map key rs = map key rs' \<Longrightarrow> keys_of key rs = keys_of key rs'"
  by (simp add: keys_of_def)

lemma distinct_keys_of_filter: "distinct (keys_of key rs) \<Longrightarrow> distinct (keys_of key (filter P rs))"
  by (induction rs) (fastforce simp: keys_of_def image_iff)+

lemma distinct_keys_of_update:
  assumes "distinct (keys_of key rs)" "distinct (map ident rs)" "Some a \<notin> key ` set rs"
    and "\<And>r. P r \<Longrightarrow> ident r = i \<and> key (f r) = Some a"
  shows "distinct (keys_of key (update_where P f rs))"
proof -
  have *: "key ` set (update_where P f rs) \<subseteq> insert (Some a) (key ` set rs)" for rs
    using assms(4) by (auto simp: update_where_def)
  have same: "update_where P f rs = rs" if "i \<notin> ident ` set rs" for rs
    using that assms(4) by (induction rs) (auto simp: update_where_def)
  show ?thesis using assms(1-3)
  proof (induction rs)
    case (Cons r rs)
    have split: "update_where P f (r # rs) = (if P r then f r else r) # update_where P f rs"
      by (simp add: update_where_def)
    show ?case
    proof (cases "P r")
      case True
      then have "update_where P f rs = rs" using Cons.prems(2) assms(4) same by fastforce
      then show ?thesis using True Cons.prems assms(4)
        by (auto simp: split keys_of_def split: if_splits)
    next
      case False
      have "distinct (keys_of key (update_where P f rs))"
        using Cons by (auto simp: keys_of_def split: if_splits)
      moreover have "key r = None \<or> key r \<notin> key ` set (update_where P f rs)"
      proof -
        have "key r = None \<or> key r \<notin> key ` set rs"
          using Cons.prems(1) by (cases "key r") (auto simp: keys_of_def)
        moreover have "key r \<noteq> Some a" using Cons.prems(3) by auto
        ultimately show ?thesis using * [of rs] by blast
      qed
      ultimately show ?thesis using False by (auto simp: split keys_of_def)
    qed
  qed (simp add: update_where_def)
qed

definition keys_ok :: "db \<Rightarrow> bool" where
  "keys_ok d \<longleftrightarrow>
     distinct (map ten_ID (db_tenants d)) \<and> distinct (map tpl_ID (db_templates d))
   \<and> distinct (map ntf_ID (db_notifications d)) \<and> distinct (map att_ID (db_attempts d))
   \<and> distinct (map attempt_key (db_attempts d)) \<and> distinct (map int_ID (db_outbox d))
   \<and> distinct (map int_AttemptID (db_outbox d)) \<and> distinct (map dl_ID (db_dead_letters d))
   \<and> distinct (map pol_ID (db_policies d)) \<and> distinct (map aud_ID (db_audits d))
   \<and> distinct (map (template_key (db_schema d)) (db_templates d))
   \<and> distinct (keys_of idem_key (db_notifications d))
   \<and> distinct (keys_of dl_ReplayAttemptID (db_dead_letters d))"

definition refs_ok :: "db \<Rightarrow> bool" where
  "refs_ok d \<longleftrightarrow>
     (\<forall>r \<in> set (db_templates d). tenant_exists d (tpl_TenantID r))
   \<and> (\<forall>r \<in> set (db_notifications d).
        tenant_exists d (ntf_TenantID r) \<and> template_exists d (ntf_TemplateID r))
   \<and> (\<forall>r \<in> set (db_attempts d). notification_exists d (att_NotificationID r))
   \<and> (\<forall>r \<in> set (db_outbox d). notification_exists d (int_NotificationID r)
        \<and> attempt_exists d (int_AttemptID r) \<and> tenant_exists d (int_TenantID r))
   \<and> (\<forall>r \<in> set (db_policies d). policy_refs d r)
   \<and> (\<forall>r \<in> set (db_dead_letters d). notification_exists d (dl_NotificationID r))
   \<and> (\<forall>r \<in> set (db_audits d). tenant_exists d (aud_TenantID r))"

definition checks_ok :: "db \<Rightarrow> bool" where
  "checks_ok d \<longleftrightarrow>
     (\<forall>r \<in> set (db_tenants d). ten_DailyQuota r > 0)
   \<and> (\<forall>r \<in> set (db_templates d). tpl_Version r > 0 \<and> channel_ok (tpl_Channel r))
   \<and> (\<forall>r \<in> set (db_attempts d). att_AttemptNumber r > 0 \<and> channel_ok (att_Channel r))
   \<and> (\<forall>r \<in> set (db_outbox d). channel_ok (int_Channel r))
   \<and> (\<forall>r \<in> set (db_policies d). policy_check r)
   \<and> (\<forall>r \<in> set (db_dead_letters d). channel_ok (dl_Channel r))"

text \<open>
  What no constraint of the database says but the statements of the store keep: the state
  of a row agrees with its time columns, and a notification is not both cancelled and
  promoted.
\<close>

definition attempt_ok :: "attempt \<Rightarrow> bool" where
  "attempt_ok a = ((att_Status a = Sent \<longrightarrow> att_SentAt a \<noteq> None)
     \<and> (att_Status a \<in> {Sent, Failed, RetryScheduled, DeadLettered} \<longrightarrow> att_CompletedAt a \<noteq> None)
     \<and> (att_Status a = RetryScheduled \<longrightarrow> att_NextRetryAt a \<noteq> None)
     \<and> (att_Status a = InProgress \<longrightarrow> att_StartedAt a \<noteq> None)
     \<and> att_Status a \<noteq> Delivered)"

definition intent_ok :: "intent \<Rightarrow> bool" where
  "intent_ok i = ((int_Status i = IPublishing \<longleftrightarrow> int_ClaimedAt i \<noteq> None)
     \<and> (int_Status i = IPublished \<longrightarrow> int_PublishedAt i \<noteq> None))"

definition notification_ok :: "notification \<Rightarrow> bool" where
  "notification_ok n = ((ntf_CancelledAt n = None \<or> ntf_PromotedAt n = None)
     \<and> (ntf_CancelledAt n \<noteq> None \<longrightarrow> ntf_ScheduledFor n \<noteq> None))"

definition rows_ok :: "db \<Rightarrow> bool" where
  "rows_ok d \<longleftrightarrow> (\<forall>a \<in> set (db_attempts d). attempt_ok a)
     \<and> (\<forall>i \<in> set (db_outbox d). intent_ok i)
     \<and> (\<forall>n \<in> set (db_notifications d). notification_ok n)"

definition wf_db :: "db \<Rightarrow> bool" where
  "wf_db d \<longleftrightarrow> keys_ok d \<and> refs_ok d \<and> checks_ok d \<and> rows_ok d"

lemmas wf_db_defs = wf_db_def keys_ok_def refs_ok_def checks_ok_def rows_ok_def
lemmas exists_defs = tenant_exists_def template_exists_def notification_exists_def
  attempt_exists_def

lemma wf_empty_db: "wf_db (empty_db sch)"
  by (simp add: wf_db_defs empty_db_def)

subsection \<open>The life cycle of a row\<close>

inductive attempt_step :: "attempt_status \<Rightarrow> attempt_status \<Rightarrow> bool" where
  activate: "attempt_step Pending InProgress"
| sent: "attempt_step InProgress Sent"
| failed: "attempt_step InProgress Failed"
| schedule: "attempt_step InProgress RetryScheduled"
| dead_letter: "attempt_step InProgress DeadLettered"
| retried: "attempt_step RetryScheduled Failed"

inductive_cases attempt_step_fromE [elim!]:
  "attempt_step Pending s" "attempt_step InProgress s" "attempt_step RetryScheduled s"
  "attempt_step Sent s" "attempt_step Failed s" "attempt_step DeadLettered s"
  "attempt_step Delivered s"

fun reaches :: "attempt_status \<Rightarrow> attempt_status \<Rightarrow> bool" where
  "reaches Pending s = (s \<noteq> Delivered)"
| "reaches InProgress s = (s \<notin> {Pending, Delivered})"
| "reaches RetryScheduled s = (s \<in> {RetryScheduled, Failed})"
| "reaches r s = (r = s)"

lemma reaches_refl [simp]: "reaches s s"
  by (cases s) simp_all

lemma reaches_trans: "reaches r s \<Longrightarrow> reaches s t \<Longrightarrow> reaches r t"
  by (cases r; cases s; cases t) simp_all

lemma attempt_step_reaches: "attempt_step r s \<Longrightarrow> reaches r s"
  by (cases r) auto

lemma reaches_pending: "reaches s Pending \<longleftrightarrow> s = Pending"
  by (cases s) auto

lemma reaches_iff: "reaches r s \<longleftrightarrow> attempt_step\<^sup>*\<^sup>* r s"
proof
  assume "attempt_step\<^sup>*\<^sup>* r s"
  then show "reaches r s"
    by (induction rule: rtranclp_induct) (auto dest: attempt_step_reaches intro: reaches_trans)
next
  have ip: "attempt_step\<^sup>*\<^sup>* InProgress s" if "s \<notin> {Pending, Delivered}" for s
    using that by (cases s) (auto intro: attempt_step.intros)
  assume "reaches r s"
  then show "attempt_step\<^sup>*\<^sup>* r s"
    by (cases r; cases s) (auto intro: attempt_step.intros
      converse_rtranclp_into_rtranclp [OF attempt_step.activate ip] ip)
qed

text \<open>A time column that, once set, keeps its value.\<close>

definition set_once :: "'a option \<Rightarrow> 'a option \<Rightarrow> bool" where
  "set_once x y = (x = None \<or> y = x)"

lemma set_once_refl [simp]: "set_once x x"
  by (simp add: set_once_def)

lemma set_once_trans: "set_once x y \<Longrightarrow> set_once y z \<Longrightarrow> set_once x z"
  by (auto simp: set_once_def)

definition coalesce :: "'a option \<Rightarrow> 'a \<Rightarrow> 'a" where
  "coalesce x y = (case x of None \<Rightarrow> y | Some v \<Rightarrow> v)"

lemma set_once_coalesce [simp]: "set_once x (Some (coalesce x y))"
  by (cases x) (simp_all add: set_once_def coalesce_def)

definition attempt_move :: "attempt \<Rightarrow> attempt \<Rightarrow> bool" where
  "attempt_move a b = (att_ID b = att_ID a \<and> attempt_key b = attempt_key a
     \<and> att_EnqueueKind b = att_EnqueueKind a \<and> att_CreatedAt b = att_CreatedAt a
     \<and> reaches (att_Status a) (att_Status b)
     \<and> set_once (att_StartedAt a) (att_StartedAt b)
     \<and> set_once (att_DispatchEnqueuedAt a) (att_DispatchEnqueuedAt b))"

definition notification_move :: "notification \<Rightarrow> notification \<Rightarrow> bool" where
  "notification_move m n = (ntf_ID n = ntf_ID m \<and> idem_key n = idem_key m
     \<and> ntf_TenantID n = ntf_TenantID m \<and> ntf_TemplateID n = ntf_TemplateID m
     \<and> ntf_ScheduledFor n = ntf_ScheduledFor m \<and> ntf_Variables n = ntf_Variables m
     \<and> ntf_RecipientEmail n = ntf_RecipientEmail m
     \<and> ntf_RecipientWebhookURL n = ntf_RecipientWebhookURL m
     \<and> set_once (ntf_PromotedAt m) (ntf_PromotedAt n)
     \<and> set_once (ntf_CancelledAt m) (ntf_CancelledAt n))"

lemmas move_defs = attempt_move_def notification_move_def

definition evolves :: "db \<Rightarrow> db \<Rightarrow> bool" where
  "evolves d d' \<longleftrightarrow> db_schema d' = db_schema d
     \<and> (\<forall>a \<in> set (db_attempts d). \<exists>b \<in> set (db_attempts d'). attempt_move a b)
     \<and> (\<forall>m \<in> set (db_notifications d). \<exists>n \<in> set (db_notifications d'). notification_move m n)"

lemma attempt_move_refl [simp]: "attempt_move a a"
  by (simp add: attempt_move_def)

lemma attempt_move_trans: "attempt_move a b \<Longrightarrow> attempt_move b c \<Longrightarrow> attempt_move a c"
  by (auto simp: attempt_move_def intro: reaches_trans set_once_trans)

lemma notification_move_refl [simp]: "notification_move n n"
  by (simp add: notification_move_def)

lemma notification_move_trans:
  "notification_move a b \<Longrightarrow> notification_move b c \<Longrightarrow> notification_move a c"
  by (auto simp: notification_move_def intro: set_once_trans)

lemma evolves_refl: "evolves d d"
  unfolding evolves_def using attempt_move_refl notification_move_refl by blast

lemma evolves_trans: "evolves d e \<Longrightarrow> evolves e f \<Longrightarrow> evolves d f"
  unfolding evolves_def by (metis attempt_move_trans notification_move_trans)

text \<open>One step of the store: on a sound database the rows evolve, and it stays sound.\<close>

definition moves :: "db \<Rightarrow> db \<Rightarrow> bool" where
  "moves d d' \<longleftrightarrow> (wf_db d \<longrightarrow> evolves d d' \<and> wf_db d')"

locale db_history = history R for R :: "db \<Rightarrow> db \<Rightarrow> bool"
begin

lemma step_db: "w_db (snd (step w)) = w_db w"
  by (auto simp: step_def split: list.splits)

lemma time_Now: "obeys R w_db time_Now"
  unfolding obeys_def
proof
  fix w :: "'x world_scheme"
  have "w_db (snd (time_Now w)) = w_db w"
    using step_db [of w] by (auto simp: time_Now_def split: prod.splits)
  then show "R (w_db w) (w_db (snd (time_Now w)))" by (simp add: refl)
qed

lemma stmt:
  fixes f :: "time \<Rightarrow> db \<Rightarrow> err + 'a \<times> db"
  assumes "\<And>t d x d'. f t d = Inr (x, d') \<Longrightarrow> R d d'"
  shows "obeys R w_db (stmt f)"
  unfolding obeys_def
proof
  fix w :: "'x world_scheme"
  obtain flt w1 where s: "step w = (flt, w1)" by (cases "step w")
  then have db: "w_db w = w_db w1" using step_db [of w] by simp
  show "R (w_db w) (w_db (snd (stmt f w)))"
    unfolding db using assms [of "sql_NOW w1" "w_db w1"]
    by (auto simp: stmt_def s refl split: fault.splits sum.splits prod.splits)
qed

lemma query: "obeys R w_db (query g)"
  unfolding query_def by (rule stmt) (auto intro: refl)

lemma query_row: "obeys R w_db (query_row g)"
  unfolding query_row_def by (rule stmt) (auto intro: refl split: list.splits)

lemma commit_with: "obeys R w_db (commit_with x)"
  unfolding commit_with_def by (rule return)

lemma leave_with: "obeys R w_db (leave_with x)"
  unfolding leave_with_def by (rule return)

lemma or_not_found: "obeys R w_db m \<Longrightarrow> obeys R w_db (or_not_found m)"
  unfolding or_not_found_def by (rule handle) (auto intro: return fail)

lemma or_wrapped: "obeys R w_db m \<Longrightarrow> obeys R w_db (or_wrapped m)"
  unfolding or_wrapped_def by (rule handle) (auto intro: return fail)

lemma transaction:
  fixes body :: "('x world_scheme, bool \<times> 'a) sm"
  assumes "obeys R w_db body"
  shows "obeys R w_db (transaction body)"
  unfolding obeys_def
proof
  fix w :: "'x world_scheme"
  obtain flt w1 where s: "step w = (flt, w1)" by (cases "step w")
  then have db: "w_db w = w_db w1" using step_db [of w] by simp
  obtain r w2 where b: "body (w1\<lparr>w_tx := Some (w_clock w1)\<rparr>) = (r, w2)"
    by (cases "body (w1\<lparr>w_tx := Some (w_clock w1)\<rparr>)")
  have R: "R (w_db w1) (w_db w2)"
    using obeysD [OF assms b] by simp
  obtain flt3 w3 where s3: "step w2 = (flt3, w3)" by (cases "step w2")
  then have db3: "w_db w3 = w_db w2" using step_db [of w2] by simp
  show "R (w_db w) (w_db (snd (transaction body w)))"
    unfolding db using R
    by (auto simp: transaction_def s b s3 db3 refl split: fault.splits sum.splits bool.splits)
qed

lemmas db_compose = compose time_Now query query_row commit_with leave_with or_not_found
  or_wrapped transaction

end

interpretation mv: db_history moves
proof unfold_locales
  show "moves x x" for x
    by (simp add: moves_def evolves_refl)
  show "moves x y \<Longrightarrow> moves y z \<Longrightarrow> moves x z" for x y z
    by (auto simp: moves_def intro: evolves_trans)
qed

end
