(* ===== verification/Store_Statements.thy ===== *)
theory Store_Statements
  imports Store_Schema
begin

text \<open>
  The statements the store methods issue, one constructor per table and kind, each with
  the fact that it moves the database forward (\<open>moves\<close>).  The collection \<open>moves_intros\<close>
  is what the methods' own proofs apply.
\<close>

named_theorems moves_intros \<open>computations that move the database forward\<close>

declare mv.db_compose [moves_intros]

lemma moves_case_prod [moves_intros]:
  "(\<And>x y. p = (x, y) \<Longrightarrow> obeys R obs (f x y)) \<Longrightarrow> obeys R obs (case p of (x, y) \<Rightarrow> f x y)"
  by (cases p) simp

lemma moves_Let [moves_intros]: "(\<And>y. y = x \<Longrightarrow> obeys R obs (f y)) \<Longrightarrow> obeys R obs (Let x f)"
  by simp

subsection \<open>Inserts\<close>

lemma constrained_Inr:
  "constrained nn ck uq fk x = Inr y \<longleftrightarrow> nn \<and> ck \<and> uq \<and> fk \<and> x = y"
  by (simp add: constrained_def)

lemma evolves_grow:
  assumes "db_schema d' = db_schema d"
    and "set (db_attempts d) \<subseteq> set (db_attempts d')"
    and "set (db_notifications d) \<subseteq> set (db_notifications d')"
  shows "evolves d d'"
  unfolding evolves_def using assms attempt_move_refl notification_move_refl by (metis subsetD)

lemmas insert_defs = insert_tenant_def insert_template_def insert_notification_def
  insert_attempt_def insert_intent_def insert_dead_letter_def insert_audit_def constrained_Inr

lemma movesI: "(wf_db d \<Longrightarrow> evolves d d') \<Longrightarrow> (wf_db d \<Longrightarrow> wf_db d') \<Longrightarrow> moves d d'"
  by (simp add: moves_def)

lemmas wf_unfold = wf_db_defs exists_defs policy_refs_def

lemma moves_inserts:
  "insert_tenant tn d = Inr d' \<Longrightarrow> moves d d'"
  "insert_template tp d = Inr d' \<Longrightarrow> moves d d'"
  "insert_notification n d = Inr d' \<Longrightarrow> notification_ok n \<Longrightarrow> moves d d'"
  "insert_attempt a d = Inr d' \<Longrightarrow> attempt_ok a \<Longrightarrow> moves d d'"
  "insert_intent i d = Inr d' \<Longrightarrow> intent_ok i \<Longrightarrow> moves d d'"
  "insert_dead_letter l d = Inr d' \<Longrightarrow> moves d d'"
  "insert_audit e d = Inr d' \<Longrightarrow> moves d d'"
  by (unfold insert_defs, safe, (rule movesI, rule evolves_grow,
    auto simp: wf_unfold set_keys_of split: option.splits)+)

subsection \<open>Updates and deletes\<close>

text \<open>
  The condition of an update may look at \<^verbatim>\<open>NOW()\<close> and at other tables; the result is the
  number of rows it matched (\<^verbatim>\<open>RowsAffected\<close>).
\<close>

definition update_attempts ::
  "(time \<Rightarrow> db \<Rightarrow> attempt \<Rightarrow> bool) \<Rightarrow> (time \<Rightarrow> attempt \<Rightarrow> attempt) \<Rightarrow> ('x world_scheme, nat) sm" where
  "update_attempts P f = stmt (\<lambda>t d. Inr (rows_where (P t d) (db_attempts d),
     d\<lparr>db_attempts := update_where (P t d) (f t) (db_attempts d)\<rparr>))"

definition update_notifications ::
  "(time \<Rightarrow> db \<Rightarrow> notification \<Rightarrow> bool) \<Rightarrow> (time \<Rightarrow> notification \<Rightarrow> notification) \<Rightarrow>
     ('x world_scheme, nat) sm" where
  "update_notifications P f = stmt (\<lambda>t d. Inr (rows_where (P t d) (db_notifications d),
     d\<lparr>db_notifications := update_where (P t d) (f t) (db_notifications d)\<rparr>))"

definition update_outbox ::
  "(time \<Rightarrow> db \<Rightarrow> intent \<Rightarrow> bool) \<Rightarrow> (time \<Rightarrow> intent \<Rightarrow> intent) \<Rightarrow> ('x world_scheme, nat) sm" where
  "update_outbox P f = stmt (\<lambda>t d. Inr (rows_where (P t d) (db_outbox d),
     d\<lparr>db_outbox := update_where (P t d) (f t) (db_outbox d)\<rparr>))"

definition update_dead_letters ::
  "(time \<Rightarrow> db \<Rightarrow> dead_letter \<Rightarrow> bool) \<Rightarrow> (time \<Rightarrow> dead_letter \<Rightarrow> dead_letter) \<Rightarrow>
     ('x world_scheme, nat) sm" where
  "update_dead_letters P f = stmt (\<lambda>t d. Inr (rows_where (P t d) (db_dead_letters d),
     d\<lparr>db_dead_letters := update_where (P t d) (f t) (db_dead_letters d)\<rparr>))"

definition update_policies ::
  "(time \<Rightarrow> db \<Rightarrow> policy \<Rightarrow> bool) \<Rightarrow> (time \<Rightarrow> policy \<Rightarrow> policy) \<Rightarrow> ('x world_scheme, nat) sm" where
  "update_policies P f = stmt (\<lambda>t d. Inr (rows_where (P t d) (db_policies d),
     d\<lparr>db_policies := update_where (P t d) (f t) (db_policies d)\<rparr>))"

definition delete_audits :: "(audit_event \<Rightarrow> bool) \<Rightarrow> ('x world_scheme, nat) sm" where
  "delete_audits P = stmt (\<lambda>t d. Inr (rows_where P (db_audits d),
     d\<lparr>db_audits := filter (\<lambda>r. \<not> P r) (db_audits d)\<rparr>))"

definition delete_outbox :: "(intent \<Rightarrow> bool) \<Rightarrow> ('x world_scheme, nat) sm" where
  "delete_outbox P = stmt (\<lambda>t d. Inr (rows_where P (db_outbox d),
     d\<lparr>db_outbox := filter (\<lambda>r. \<not> P r) (db_outbox d)\<rparr>))"

definition delete_dead_letters :: "(dead_letter \<Rightarrow> bool) \<Rightarrow> ('x world_scheme, nat) sm" where
  "delete_dead_letters P = stmt (\<lambda>t d. Inr (rows_where P (db_dead_letters d),
     d\<lparr>db_dead_letters := filter (\<lambda>r. \<not> P r) (db_dead_letters d)\<rparr>))"

text \<open>
  \<^verbatim>\<open>UPDATE dead_letters SET replay_attempt_id = $2 WHERE id = $1 AND replay_attempt_id IS NULL\<close>;
  both schemas have a unique index on the column.
\<close>

definition link_replay :: "string \<Rightarrow> string \<Rightarrow> ('x world_scheme, nat) sm" where
  "link_replay i a = stmt (\<lambda>_ d. let P = (\<lambda>l. dl_ID l = i \<and> dl_ReplayAttemptID l = None) in
     if rows_where P (db_dead_letters d) > 0 \<and> Some a \<in> dl_ReplayAttemptID ` set (db_dead_letters d)
     then Inl SqlUniqueViolation
     else Inr (rows_where P (db_dead_letters d), d\<lparr>db_dead_letters :=
       update_where P (\<lambda>l. l\<lparr>dl_ReplayAttemptID := Some a\<rparr>) (db_dead_letters d)\<rparr>))"

lemmas statement_defs = update_attempts_def update_notifications_def update_outbox_def
  update_dead_letters_def update_policies_def delete_audits_def delete_outbox_def
  delete_dead_letters_def

text \<open>A row update that keeps the fields keys, references and checks look at.\<close>

definition intent_frame :: "intent \<Rightarrow> intent \<Rightarrow> bool" where
  "intent_frame i j = (int_ID j = int_ID i \<and> int_AttemptID j = int_AttemptID i
     \<and> int_NotificationID j = int_NotificationID i \<and> int_TenantID j = int_TenantID i
     \<and> int_Channel j = int_Channel i)"

definition dead_letter_frame :: "dead_letter \<Rightarrow> dead_letter \<Rightarrow> bool" where
  "dead_letter_frame a b = (dl_ID b = dl_ID a \<and> dl_NotificationID b = dl_NotificationID a
     \<and> dl_Channel b = dl_Channel a \<and> dl_ReplayAttemptID b = dl_ReplayAttemptID a)"

lemma exists_frame [simp]:
  "tenant_exists (d\<lparr>db_notifications := ns\<rparr>) = tenant_exists d"
  "tenant_exists (d\<lparr>db_attempts := as\<rparr>) = tenant_exists d"
  "tenant_exists (d\<lparr>db_outbox := os\<rparr>) = tenant_exists d"
  "tenant_exists (d\<lparr>db_policies := ps\<rparr>) = tenant_exists d"
  "tenant_exists (d\<lparr>db_dead_letters := ls\<rparr>) = tenant_exists d"
  "tenant_exists (d\<lparr>db_audits := es\<rparr>) = tenant_exists d"
  "template_exists (d\<lparr>db_notifications := ns\<rparr>) = template_exists d"
  "template_exists (d\<lparr>db_attempts := as\<rparr>) = template_exists d"
  "template_exists (d\<lparr>db_outbox := os\<rparr>) = template_exists d"
  "template_exists (d\<lparr>db_policies := ps\<rparr>) = template_exists d"
  "template_exists (d\<lparr>db_dead_letters := ls\<rparr>) = template_exists d"
  "template_exists (d\<lparr>db_audits := es\<rparr>) = template_exists d"
  "notification_exists (d\<lparr>db_attempts := as\<rparr>) = notification_exists d"
  "notification_exists (d\<lparr>db_outbox := os\<rparr>) = notification_exists d"
  "notification_exists (d\<lparr>db_policies := ps\<rparr>) = notification_exists d"
  "notification_exists (d\<lparr>db_dead_letters := ls\<rparr>) = notification_exists d"
  "notification_exists (d\<lparr>db_audits := es\<rparr>) = notification_exists d"
  "attempt_exists (d\<lparr>db_notifications := ns\<rparr>) = attempt_exists d"
  "attempt_exists (d\<lparr>db_outbox := os\<rparr>) = attempt_exists d"
  "attempt_exists (d\<lparr>db_policies := ps\<rparr>) = attempt_exists d"
  "attempt_exists (d\<lparr>db_dead_letters := ls\<rparr>) = attempt_exists d"
  "attempt_exists (d\<lparr>db_audits := es\<rparr>) = attempt_exists d"
  by (simp_all add: exists_defs fun_eq_iff)

lemma policy_refs_frame [simp]:
  "policy_refs (d\<lparr>db_notifications := ns\<rparr>) = policy_refs d"
  "policy_refs (d\<lparr>db_attempts := as\<rparr>) = policy_refs d"
  "policy_refs (d\<lparr>db_outbox := os\<rparr>) = policy_refs d"
  "policy_refs (d\<lparr>db_policies := ps\<rparr>) = policy_refs d"
  "policy_refs (d\<lparr>db_dead_letters := ls\<rparr>) = policy_refs d"
  "policy_refs (d\<lparr>db_audits := es\<rparr>) = policy_refs d"
  by (auto simp: policy_refs_def fun_eq_iff split: option.splits)

lemma all_update_where:
  "(\<forall>r \<in> set (update_where P f rs). Q r) \<longleftrightarrow> (\<forall>r \<in> set rs. if P r then Q (f r) else Q r)"
  by (auto simp: update_where_def)

lemma moves_update_attempts_db:
  assumes mv: "\<And>a. P a \<Longrightarrow> attempt_move a (f a)"
    and ok: "\<And>a. P a \<Longrightarrow> attempt_ok a \<Longrightarrow> attempt_ok (f a)"
  shows "moves d (d\<lparr>db_attempts := update_where P f (db_attempts d)\<rparr>)"
proof (rule movesI)
  let ?as = "update_where P f (db_attempts d)"
  show "evolves d (d\<lparr>db_attempts := ?as\<rparr>)"
    unfolding evolves_def using mv
    by (auto intro!: update_where_bex) (use notification_move_refl in blast)
  have same: "P a \<Longrightarrow> att_ID (f a) = att_ID a" "P a \<Longrightarrow> attempt_key (f a) = attempt_key a" for a
    using mv [of a] by (simp_all add: attempt_move_def)
  have cols: "P a \<Longrightarrow> att_NotificationID (f a) = att_NotificationID a
      \<and> att_Channel (f a) = att_Channel a \<and> att_AttemptNumber (f a) = att_AttemptNumber a" for a
    using same(2) [of a] by (simp add: attempt_key_def)
  have ex: "attempt_exists (d\<lparr>db_attempts := ?as\<rparr>) = attempt_exists d"
    using update_where_image [of P att_ID f, OF same(1)] by (simp add: attempt_exists_def fun_eq_iff)
  assume wf: "wf_db d"
  have "map att_ID ?as = map att_ID (db_attempts d)"
    "map attempt_key ?as = map attempt_key (db_attempts d)"
    using same by (auto intro!: update_where_key)
  with wf show "wf_db (d\<lparr>db_attempts := ?as\<rparr>)"
    using cols ok by (simp add: wf_db_defs ex all_update_where)
qed

lemma moves_update_notifications_db:
  assumes mv: "\<And>a. P a \<Longrightarrow> notification_move a (f a)"
    and ok: "\<And>a. P a \<Longrightarrow> notification_ok a \<Longrightarrow> notification_ok (f a)"
  shows "moves d (d\<lparr>db_notifications := update_where P f (db_notifications d)\<rparr>)"
proof (rule movesI)
  let ?ns = "update_where P f (db_notifications d)"
  show "evolves d (d\<lparr>db_notifications := ?ns\<rparr>)"
    unfolding evolves_def using mv
    by (auto intro!: update_where_bex) (use attempt_move_refl in blast)
  have cols: "P a \<Longrightarrow> ntf_ID (f a) = ntf_ID a \<and> ntf_TenantID (f a) = ntf_TenantID a
      \<and> ntf_TemplateID (f a) = ntf_TemplateID a" for a
    using mv [of a] by (simp add: notification_move_def)
  have ex: "notification_exists (d\<lparr>db_notifications := ?ns\<rparr>) = notification_exists d"
    using update_where_image [of P ntf_ID f] cols by (simp add: notification_exists_def fun_eq_iff)
  assume wf: "wf_db d"
  have "map ntf_ID ?ns = map ntf_ID (db_notifications d)"
    using cols by (auto intro!: update_where_key)
  moreover have "keys_of idem_key ?ns = keys_of idem_key (db_notifications d)"
    using mv by (auto intro!: keys_of_cong update_where_key simp: notification_move_def)
  ultimately show "wf_db (d\<lparr>db_notifications := ?ns\<rparr>)" using wf
    using cols ok by (simp add: wf_db_defs ex all_update_where)
qed

lemma moves_update_outbox_db:
  assumes mv: "\<And>i. P i \<Longrightarrow> intent_frame i (f i)"
    and ok: "\<And>i. P i \<Longrightarrow> intent_ok i \<Longrightarrow> intent_ok (f i)"
  shows "moves d (d\<lparr>db_outbox := update_where P f (db_outbox d)\<rparr>)"
proof (rule movesI)
  let ?os = "update_where P f (db_outbox d)"
  show "evolves d (d\<lparr>db_outbox := ?os\<rparr>)" by (rule evolves_grow) simp_all
  assume wf: "wf_db d"
  have "map int_ID ?os = map int_ID (db_outbox d)"
    "map int_AttemptID ?os = map int_AttemptID (db_outbox d)"
    using mv by (auto intro!: update_where_key simp: intent_frame_def)
  with wf show "wf_db (d\<lparr>db_outbox := ?os\<rparr>)"
    using mv ok by (simp add: wf_db_defs all_update_where intent_frame_def)
qed

lemma moves_update_dead_letters_db:
  assumes mv: "\<And>l. P l \<Longrightarrow> dead_letter_frame l (f l)"
  shows "moves d (d\<lparr>db_dead_letters := update_where P f (db_dead_letters d)\<rparr>)"
proof (rule movesI)
  let ?ls = "update_where P f (db_dead_letters d)"
  show "evolves d (d\<lparr>db_dead_letters := ?ls\<rparr>)" by (rule evolves_grow) simp_all
  assume wf: "wf_db d"
  have "map dl_ID ?ls = map dl_ID (db_dead_letters d)"
    "keys_of dl_ReplayAttemptID ?ls = keys_of dl_ReplayAttemptID (db_dead_letters d)"
    using mv by (auto intro!: keys_of_cong update_where_key simp: dead_letter_frame_def)
  with wf show "wf_db (d\<lparr>db_dead_letters := ?ls\<rparr>)"
    using mv by (simp add: wf_db_defs all_update_where dead_letter_frame_def)
qed

lemma moves_delete_db:
  "moves d (d\<lparr>db_audits := filter R (db_audits d)\<rparr>)"
  "moves d (d\<lparr>db_outbox := filter Q (db_outbox d)\<rparr>)"
  "moves d (d\<lparr>db_dead_letters := filter S (db_dead_letters d)\<rparr>)"
  by (rule movesI, rule evolves_grow, simp_all,
      (auto simp: wf_db_defs distinct_map inj_on_def intro: distinct_keys_of_filter)[1])+

subsection \<open>The statements as computations\<close>

lemma moves_update_attempts:
  assumes "\<And>t d a. P t d a \<Longrightarrow> attempt_move a (f t a)"
    and "\<And>t d a. P t d a \<Longrightarrow> attempt_ok a \<Longrightarrow> attempt_ok (f t a)"
  shows "obeys moves w_db (update_attempts P f)"
  unfolding update_attempts_def
  by (rule mv.stmt) (use assms in \<open>auto intro!: moves_update_attempts_db\<close>)

lemma moves_update_notifications:
  assumes "\<And>t d n. P t d n \<Longrightarrow> notification_move n (f t n)"
    and "\<And>t d n. P t d n \<Longrightarrow> notification_ok n \<Longrightarrow> notification_ok (f t n)"
  shows "obeys moves w_db (update_notifications P f)"
  unfolding update_notifications_def
  by (rule mv.stmt) (use assms in \<open>auto intro!: moves_update_notifications_db\<close>)

lemma moves_update_outbox:
  assumes "\<And>t d i. P t d i \<Longrightarrow> intent_frame i (f t i)"
    and "\<And>t d i. P t d i \<Longrightarrow> intent_ok i \<Longrightarrow> intent_ok (f t i)"
  shows "obeys moves w_db (update_outbox P f)"
  unfolding update_outbox_def
  by (rule mv.stmt) (use assms in \<open>auto intro!: moves_update_outbox_db\<close>)

lemma moves_update_dead_letters:
  assumes "\<And>t d l. P t d l \<Longrightarrow> dead_letter_frame l (f t l)"
  shows "obeys moves w_db (update_dead_letters P f)"
  unfolding update_dead_letters_def
  by (rule mv.stmt) (use assms in \<open>auto intro!: moves_update_dead_letters_db\<close>)

lemma moves_link_replay [moves_intros]: "obeys moves w_db (link_replay i a)"
  unfolding link_replay_def
proof (rule mv.stmt)
  fix t :: time and d :: db and x :: nat and d'
  let ?P = "\<lambda>l. dl_ID l = i \<and> dl_ReplayAttemptID l = None"
  let ?f = "\<lambda>l. l\<lparr>dl_ReplayAttemptID := Some a\<rparr>"
  let ?ls = "update_where ?P ?f (db_dead_letters d)"
  assume *: "(let P = ?P in
     if rows_where P (db_dead_letters d) > 0 \<and> Some a \<in> dl_ReplayAttemptID ` set (db_dead_letters d)
     then Inl SqlUniqueViolation
     else Inr (rows_where P (db_dead_letters d), d\<lparr>db_dead_letters := update_where P ?f (db_dead_letters d)\<rparr>))
     = Inr (x, d')"
  then have d': "d' = d\<lparr>db_dead_letters := ?ls\<rparr>" by (auto simp: Let_def split: if_splits)
  show "moves d d'"
  proof (rule movesI)
    show "evolves d d'" unfolding d' by (rule evolves_grow) simp_all
    assume wf: "wf_db d"
    have "map dl_ID ?ls = map dl_ID (db_dead_letters d)" by (rule update_where_key) simp
    moreover have "distinct (keys_of dl_ReplayAttemptID ?ls)"
    proof (cases "rows_where ?P (db_dead_letters d) = 0")
      case True
      then have "?ls = db_dead_letters d" by (auto simp: rows_where_0 update_where_def intro: map_idI)
      with wf show ?thesis by (simp add: wf_db_defs)
    next
      case False
      with * have "Some a \<notin> dl_ReplayAttemptID ` set (db_dead_letters d)"
        by (auto simp: Let_def split: if_splits)
      then show ?thesis
        using wf by (intro distinct_keys_of_update [where ident = dl_ID and i = i and a = a])
          (auto simp: wf_db_defs)
    qed
    ultimately show "wf_db d'" using wf by (simp add: d' wf_db_defs all_update_where)
  qed
qed

lemma moves_deletes [moves_intros]:
  "obeys moves w_db (delete_audits R)"
  "obeys moves w_db (delete_outbox Q)"
  "obeys moves w_db (delete_dead_letters S)"
  unfolding statement_defs by (rule mv.stmt, auto intro: moves_delete_db)+

subsection \<open>Inserts as computations\<close>

text \<open>\<^verbatim>\<open>INSERT ... RETURNING\<close>; the row may use \<^verbatim>\<open>NOW()\<close>, the default of the time columns.\<close>

definition insert_returning ::
  "(time \<Rightarrow> 'r) \<Rightarrow> ('r \<Rightarrow> db \<Rightarrow> err + db) \<Rightarrow> ('x world_scheme, 'r) sm" where
  "insert_returning row ins = stmt (\<lambda>t d. case ins (row t) d of
     Inl e \<Rightarrow> Inl e | Inr d' \<Rightarrow> Inr (row t, d'))"

text \<open>
  \<^verbatim>\<open>INSERT ... ON CONFLICT (key) DO NOTHING\<close>: the row inserted, or nothing.  A check on the
  values comes before the look at the key, another unique key after it.
\<close>

definition insert_unless ::
  "(db \<Rightarrow> 'r \<Rightarrow> bool) \<Rightarrow> ('r \<Rightarrow> bool) \<Rightarrow> (time \<Rightarrow> 'r) \<Rightarrow> ('r \<Rightarrow> db \<Rightarrow> err + db) \<Rightarrow>
     ('x world_scheme, 'r option) sm" where
  "insert_unless conflict check row ins = stmt (\<lambda>t d.
     if \<not> check (row t) then Inl SqlCheckViolation
     else if conflict d (row t) then Inr (None, d)
     else (case ins (row t) d of Inl e \<Rightarrow> Inl e | Inr d' \<Rightarrow> Inr (Some (row t), d')))"

lemma moves_insert_returning:
  "(\<And>t d d'. ins (row t) d = Inr d' \<Longrightarrow> moves d d') \<Longrightarrow> obeys moves w_db (insert_returning row ins)"
  unfolding insert_returning_def by (rule mv.stmt) (auto split: sum.splits)

lemma moves_insert_unless:
  "(\<And>t d d'. ins (row t) d = Inr d' \<Longrightarrow> moves d d') \<Longrightarrow>
     obeys moves w_db (insert_unless conflict check row ins)"
  unfolding insert_unless_def by (rule mv.stmt) (auto split: sum.splits if_splits intro: mv.refl)

lemma moves_inserting [moves_intros]:
  "obeys moves w_db (insert_returning tn insert_tenant)"
  "obeys moves w_db (insert_returning tp insert_template)"
  "(\<And>t. notification_ok (n t)) \<Longrightarrow> obeys moves w_db (insert_returning n insert_notification)"
  "(\<And>t. attempt_ok (a t)) \<Longrightarrow> obeys moves w_db (insert_returning a insert_attempt)"
  "(\<And>t. attempt_ok (a t)) \<Longrightarrow> obeys moves w_db (insert_unless ca ka a insert_attempt)"
  "(\<And>t. intent_ok (i t)) \<Longrightarrow> obeys moves w_db (insert_unless ci ki i insert_intent)"
  "obeys moves w_db (insert_returning l insert_dead_letter)"
  "obeys moves w_db (insert_returning e insert_audit)"
  by (rule moves_insert_returning moves_insert_unless, erule moves_inserts, simp?)+

end
