(* ===== verification/Store_Logic.thy ===== *)
theory Store_Logic
  imports Store_Statements
begin

text \<open>
  Reasoning about what a method returns.  \<open>run ok m d E Q\<close> says that \<open>m\<close>, started on the
  tables \<open>d\<close>, ends in an error and tables that satisfy \<open>E\<close> or in a result and tables that
  satisfy \<open>Q\<close>, whatever the clock does; with \<open>ok\<close> only for executions in which the connection
  does not fail, without it for all.  One rule per construct; the collection \<open>run_intros\<close>
  turns a method into conditions on its tables.
\<close>

named_theorems run_intros \<open>verification conditions of the computations\<close>

definition calm :: "'x world_scheme \<Rightarrow> bool" where
  "calm w = (\<forall>e \<in> set (w_env w). fst e = Fine)"

definition run ::
  "bool \<Rightarrow> ('x world_scheme, 'a) sm \<Rightarrow> db \<Rightarrow> (err \<Rightarrow> db \<Rightarrow> bool) \<Rightarrow> ('a \<Rightarrow> db \<Rightarrow> bool) \<Rightarrow> bool" where
  "run ok m d E Q \<longleftrightarrow> (\<forall>w. (ok \<longrightarrow> calm w) \<and> w_db w = d \<longrightarrow>
     (ok \<longrightarrow> calm (snd (m w))) \<and> (case fst (m w) of
        Inl e \<Rightarrow> E e (w_db (snd (m w))) | Inr x \<Rightarrow> Q x (w_db (snd (m w)))))"

lemma runI:
  "(\<And>w. (ok \<Longrightarrow> calm w) \<Longrightarrow> w_db w = d \<Longrightarrow> (ok \<longrightarrow> calm (snd (m w))) \<and> (case fst (m w) of
        Inl e \<Rightarrow> E e (w_db (snd (m w))) | Inr x \<Rightarrow> Q x (w_db (snd (m w))))) \<Longrightarrow> run ok m d E Q"
  by (simp add: run_def)

lemma run_ends:
  "run ok m (w_db w) E Q \<Longrightarrow> (ok \<Longrightarrow> calm w) \<Longrightarrow> m w = (r, w') \<Longrightarrow>
     (ok \<longrightarrow> calm w') \<and> (case r of Inl e \<Rightarrow> E e (w_db w') | Inr x \<Rightarrow> Q x (w_db w'))"
  unfolding run_def by (drule spec [of _ w]) (cases r; auto)

lemma run_Inr: "run ok m (w_db w) E Q \<Longrightarrow> (ok \<Longrightarrow> calm w) \<Longrightarrow> m w = (Inr x, w') \<Longrightarrow> Q x (w_db w')"
  by (drule run_ends) auto

lemma run_Inl: "run ok m (w_db w) E Q \<Longrightarrow> (ok \<Longrightarrow> calm w) \<Longrightarrow> m w = (Inl e, w') \<Longrightarrow> E e (w_db w')"
  by (drule run_ends) auto

lemma run_mono:
  "run ok m d E Q \<Longrightarrow> (\<And>e d'. E e d' \<Longrightarrow> E' e d') \<Longrightarrow> (\<And>x d'. Q x d' \<Longrightarrow> Q' x d') \<Longrightarrow> run ok m d E' Q'"
  by (auto simp: run_def split: sum.splits)

lemma calm_cong [simp]:
  "calm (w\<lparr>w_db := d\<rparr>) = calm w" "calm (w\<lparr>w_tx := t\<rparr>) = calm w" "calm (w\<lparr>w_clock := c\<rparr>) = calm w"
  by (simp_all add: calm_def)

lemma step_cases:
  obtains flt w1 where "step w = (flt, w1)" "w_db w1 = w_db w" "calm w \<longrightarrow> calm w1 \<and> flt = Fine"
  by (cases "step w") (auto simp: step_def calm_def split: list.splits prod.splits)

lemma run_return [run_intros]: "Q x d \<Longrightarrow> run ok (return x) d E Q"
  by (simp add: run_def return_def)

lemma run_fail [run_intros]: "E e d \<Longrightarrow> run ok (fail e) d E Q"
  by (simp add: run_def fail_def)

lemma run_handle [run_intros]:
  fixes m :: "('x world_scheme, 'a) sm"
  assumes "run ok m d (\<lambda>e d'. run ok (h e) d' E Q) (\<lambda>x d'. run ok (k x) d' E Q)"
  shows "run ok (handle m h k) d E Q"
proof (rule runI)
  fix w :: "'x world_scheme"
  assume w: "ok \<Longrightarrow> calm w" "w_db w = d"
  obtain r w' where m: "m w = (r, w')" by (cases "m w")
  have 1: "ok \<longrightarrow> calm w'"
    and 2: "case r of Inl e \<Rightarrow> run ok (h e) (w_db w') E Q | Inr x \<Rightarrow> run ok (k x) (w_db w') E Q"
    using run_ends [OF assms [folded w(2)] w(1) m] by auto
  show "(ok \<longrightarrow> calm (snd (handle m h k w))) \<and> (case fst (handle m h k w) of
      Inl e \<Rightarrow> E e (w_db (snd (handle m h k w))) | Inr x \<Rightarrow> Q x (w_db (snd (handle m h k w))))"
    using 1 2 m by (cases r) (auto simp: handle_def run_def split: sum.splits)
qed

lemma run_andThen [run_intros]:
  "run ok m d E (\<lambda>x d'. run ok (k x) d' E Q) \<Longrightarrow> run ok (andThen m k) d E Q"
  unfolding andThen_def
  by (rule run_handle, erule run_mono) (auto intro: run_fail)

lemma run_ignore [run_intros]:
  "run ok m d (\<lambda>_ d'. Q () d') (\<lambda>_ d'. Q () d') \<Longrightarrow> run ok (ignore m) d E Q"
  unfolding ignore_def
  by (rule run_handle, erule run_mono) (auto intro: run_return)

lemma run_time_Now [run_intros]:
  "(\<And>t. Q t d) \<Longrightarrow> run ok (time_Now :: ('x world_scheme, time) sm) d E Q"
proof (rule runI)
  fix w :: "'x world_scheme"
  assume Q: "\<And>t. Q t d" and w: "ok \<Longrightarrow> calm w" "w_db w = d"
  obtain flt w1 where s: "step w = (flt, w1)" "w_db w1 = w_db w" "calm w \<longrightarrow> calm w1 \<and> flt = Fine"
    by (rule step_cases [of w])
  then show "(ok \<longrightarrow> calm (snd (time_Now w))) \<and> (case fst (time_Now w) of
      Inl e \<Rightarrow> E e (w_db (snd (time_Now w))) | Inr x \<Rightarrow> Q x (w_db (snd (time_Now w))))"
    using Q w by (simp add: time_Now_def)
qed

lemma run_stmt:
  assumes "\<And>t. case f t d of Inl e \<Rightarrow> E e d | Inr (x, d') \<Rightarrow> Q x d' \<and> (ok \<or> E ConnError d')"
    and "ok \<or> E ConnError d"
  shows "run ok (stmt f :: ('x world_scheme, 'a) sm) d E Q"
proof (rule runI)
  fix w :: "'x world_scheme"
  assume w: "ok \<Longrightarrow> calm w" "w_db w = d"
  obtain flt w1 where s: "step w = (flt, w1)" "w_db w1 = w_db w" "calm w \<longrightarrow> calm w1 \<and> flt = Fine"
    by (rule step_cases [of w])
  then show "(ok \<longrightarrow> calm (snd (stmt f w))) \<and> (case fst (stmt f w) of
      Inl e \<Rightarrow> E e (w_db (snd (stmt f w))) | Inr x \<Rightarrow> Q x (w_db (snd (stmt f w))))"
    using w assms(1) [of "sql_NOW w1"] assms(2)
    by (cases flt; cases ok; cases "f (sql_NOW w1) d") (auto simp: stmt_def)
qed

lemma run_query [run_intros]:
  "(\<And>t. Q (g t d) d) \<Longrightarrow> ok \<or> E ConnError d \<Longrightarrow> run ok (query g) d E Q"
  unfolding query_def by (rule run_stmt) auto

lemma run_query_row [run_intros]:
  "(\<And>t. case g t d of [] \<Rightarrow> E SqlNoRows d | x # _ \<Rightarrow> Q x d) \<Longrightarrow> ok \<or> E ConnError d \<Longrightarrow>
     run ok (query_row g) d E Q"
  unfolding query_row_def
  apply (rule run_stmt)
  subgoal premises p for t
    using p(1) [of t] p(2) by (auto split: list.splits)
  by simp

lemma run_or_not_found [run_intros]:
  "run ok m d (\<lambda>e. E (if e = SqlNoRows then ErrNotFound else e)) Q \<Longrightarrow> run ok (or_not_found m) d E Q"
  unfolding or_not_found_def
  by (rule run_handle, erule run_mono) (auto intro!: run_intros)

lemma run_or_wrapped [run_intros]:
  "run ok m d (\<lambda>e. E (wrapStoreError e)) Q \<Longrightarrow> run ok (or_wrapped m) d E Q"
  unfolding or_wrapped_def
  by (rule run_handle, erule run_mono) (auto intro!: run_intros)

lemma run_If [run_intros]:
  "(b \<Longrightarrow> run ok m d E Q) \<Longrightarrow> (\<not> b \<Longrightarrow> run ok n d E Q) \<Longrightarrow> run ok (if b then m else n) d E Q"
  by simp

lemma run_case_option [run_intros]:
  "(x = None \<Longrightarrow> run ok m d E Q) \<Longrightarrow> (\<And>y. x = Some y \<Longrightarrow> run ok (k y) d E Q) \<Longrightarrow>
     run ok (case x of None \<Rightarrow> m | Some y \<Rightarrow> k y) d E Q"
  by (cases x) simp_all

lemma run_case_prod [run_intros]:
  "(\<And>x y. p = (x, y) \<Longrightarrow> run ok (f x y) d E Q) \<Longrightarrow> run ok (case p of (x, y) \<Rightarrow> f x y) d E Q"
  by (cases p) simp

lemma run_updates [run_intros]:
  "(\<And>t. Q (rows_where (P t d) (db_attempts d))
        (d\<lparr>db_attempts := update_where (P t d) (f t) (db_attempts d)\<rparr>)
      \<and> (ok \<or> E ConnError (d\<lparr>db_attempts := update_where (P t d) (f t) (db_attempts d)\<rparr>))) \<Longrightarrow>
   ok \<or> E ConnError d \<Longrightarrow> run ok (update_attempts P f) d E Q"
  "(\<And>t. Q (rows_where (P1 t d) (db_notifications d))
        (d\<lparr>db_notifications := update_where (P1 t d) (f1 t) (db_notifications d)\<rparr>)
      \<and> (ok \<or> E ConnError (d\<lparr>db_notifications := update_where (P1 t d) (f1 t) (db_notifications d)\<rparr>))) \<Longrightarrow>
   ok \<or> E ConnError d \<Longrightarrow> run ok (update_notifications P1 f1) d E Q"
  "(\<And>t. Q (rows_where (P2 t d) (db_outbox d))
        (d\<lparr>db_outbox := update_where (P2 t d) (f2 t) (db_outbox d)\<rparr>)
      \<and> (ok \<or> E ConnError (d\<lparr>db_outbox := update_where (P2 t d) (f2 t) (db_outbox d)\<rparr>))) \<Longrightarrow>
   ok \<or> E ConnError d \<Longrightarrow> run ok (update_outbox P2 f2) d E Q"
  "(\<And>t. Q (rows_where (P3 t d) (db_dead_letters d))
        (d\<lparr>db_dead_letters := update_where (P3 t d) (f3 t) (db_dead_letters d)\<rparr>)
      \<and> (ok \<or> E ConnError (d\<lparr>db_dead_letters := update_where (P3 t d) (f3 t) (db_dead_letters d)\<rparr>))) \<Longrightarrow>
   ok \<or> E ConnError d \<Longrightarrow> run ok (update_dead_letters P3 f3) d E Q"
  unfolding statement_defs by (rule run_stmt; auto)+

lemma run_deletes [run_intros]:
  "Q (rows_where P1 (db_audits d)) (d\<lparr>db_audits := filter (\<lambda>r. \<not> P1 r) (db_audits d)\<rparr>)
     \<and> (ok \<or> E ConnError (d\<lparr>db_audits := filter (\<lambda>r. \<not> P1 r) (db_audits d)\<rparr>)) \<Longrightarrow>
   ok \<or> E ConnError d \<Longrightarrow> run ok (delete_audits P1) d E Q"
  "Q (rows_where P2 (db_outbox d)) (d\<lparr>db_outbox := filter (\<lambda>r. \<not> P2 r) (db_outbox d)\<rparr>)
     \<and> (ok \<or> E ConnError (d\<lparr>db_outbox := filter (\<lambda>r. \<not> P2 r) (db_outbox d)\<rparr>)) \<Longrightarrow>
   ok \<or> E ConnError d \<Longrightarrow> run ok (delete_outbox P2) d E Q"
  "Q (rows_where P3 (db_dead_letters d)) (d\<lparr>db_dead_letters := filter (\<lambda>r. \<not> P3 r) (db_dead_letters d)\<rparr>)
     \<and> (ok \<or> E ConnError (d\<lparr>db_dead_letters := filter (\<lambda>r. \<not> P3 r) (db_dead_letters d)\<rparr>)) \<Longrightarrow>
   ok \<or> E ConnError d \<Longrightarrow> run ok (delete_dead_letters P3) d E Q"
  unfolding statement_defs by (rule run_stmt; simp)+

text \<open>A loop, with an invariant of what is done, its results and the tables.\<close>

lemma run_forEach:
  assumes "\<And>pre x post ys d. xs = pre @ x # post \<Longrightarrow> I pre ys d \<Longrightarrow> run ok (f x) d E (\<lambda>y. I (pre @ [x]) (ys @ [y]))"
    and "I [] [] d"
  shows "run ok (forEach xs f) d E (I xs)"
proof -
  have "run ok (forEach post f) d E (\<lambda>zs. I xs (ys @ zs))" if "xs = pre @ post" "I pre ys d" for pre post ys d
    using that
  proof (induction post arbitrary: pre ys d)
    case Nil
    then show ?case by (simp add: run_return)
  next
    case (Cons x post)
    have "run ok (f x) d E (\<lambda>y. I (pre @ [x]) (ys @ [y]))" using Cons.prems by (rule assms(1))
    then have "run ok (f x) d E (\<lambda>y d'. run ok (andThen (forEach post f) (\<lambda>zs. return (y # zs))) d' E
        (\<lambda>zs. I xs (ys @ zs)))"
    proof (rule run_mono)
      fix y d' assume "I (pre @ [x]) (ys @ [y]) d'"
      from Cons.IH [OF _ this] Cons.prems(1)
      have "run ok (forEach post f) d' E (\<lambda>zs. I xs ((ys @ [y]) @ zs))" by simp
      then show "run ok (andThen (forEach post f) (\<lambda>zs. return (y # zs))) d' E (\<lambda>zs. I xs (ys @ zs))"
        by (intro run_andThen) (erule run_mono; simp add: run_return)
    qed simp
    then show ?case unfolding forEach.simps by (rule run_andThen)
  qed
  from this [of "[]" xs "[]" d] assms(2) show ?thesis by simp
qed

lemma run_insert_returning [run_intros]:
  "(\<And>t. case ins (row t) d of Inl e \<Rightarrow> E e d | Inr d' \<Rightarrow> Q (row t) d' \<and> (ok \<or> E ConnError d')) \<Longrightarrow>
   ok \<or> E ConnError d \<Longrightarrow> run ok (insert_returning row ins) d E Q"
  unfolding insert_returning_def
  apply (rule run_stmt)
  subgoal premises p for t
    using p(1) [of t] p(2) by (auto split: sum.splits)
  by simp

lemma run_insert_unless [run_intros]:
  "(\<And>t. if \<not> check (row t) then E SqlCheckViolation d
     else if conflict d (row t) then Q None d \<and> (ok \<or> E ConnError d)
     else case ins (row t) d of Inl e \<Rightarrow> E e d | Inr d' \<Rightarrow> Q (Some (row t)) d' \<and> (ok \<or> E ConnError d')) \<Longrightarrow>
   ok \<or> E ConnError d \<Longrightarrow> run ok (insert_unless conflict check row ins) d E Q"
  unfolding insert_unless_def
  apply (rule run_stmt)
  subgoal premises p for t
    using p(1) [of t] p(2) by (auto split: sum.splits if_splits)
  by simp

text \<open>A transaction: its tables are those of the body if it commits, else the old ones.\<close>

lemma run_transaction [run_intros]:
  fixes body :: "('x world_scheme, bool \<times> 'a) sm"
  assumes body: "run ok body d (\<lambda>e _. E e d)
      (\<lambda>(c, x) d'. if c then Q x d' \<and> (ok \<or> E ConnError d') else Q x d)"
    and lost: "ok \<or> E ConnError d"
  shows "run ok (transaction body) d E Q"
proof (rule runI)
  fix w :: "'x world_scheme"
  assume w: "ok \<Longrightarrow> calm w" "w_db w = d"
  obtain flt w1 where s: "step w = (flt, w1)" "w_db w1 = w_db w" "calm w \<longrightarrow> calm w1 \<and> flt = Fine"
    by (rule step_cases [of w])
  obtain r w2 where b: "body (w1\<lparr>w_tx := Some (w_clock w1)\<rparr>) = (r, w2)"
    by (cases "body (w1\<lparr>w_tx := Some (w_clock w1)\<rparr>)")
  obtain flt3 w3 where s3: "step w2 = (flt3, w3)" "w_db w3 = w_db w2" "calm w2 \<longrightarrow> calm w3 \<and> flt3 = Fine"
    by (rule step_cases [of w2])
  have start: "(ok \<longrightarrow> calm (w1\<lparr>w_tx := Some (w_clock w1)\<rparr>)) \<and> w_db (w1\<lparr>w_tx := Some (w_clock w1)\<rparr>) = d"
    using w s by auto
  then have "d = w_db (w1\<lparr>w_tx := Some (w_clock w1)\<rparr>)" by simp
  from run_ends [OF body [unfolded this] _ b] start
  have c2: "ok \<longrightarrow> calm w2" and post: "case r of Inl e \<Rightarrow> E e d
      | Inr (c, x) \<Rightarrow> if c then Q x (w_db w2) \<and> (ok \<or> E ConnError (w_db w2)) else Q x d"
    by (auto split: sum.splits)
  have fine: "ok \<Longrightarrow> flt = Fine \<and> calm w1 \<and> flt3 = Fine \<and> calm w3" using w s s3 c2 by auto
  show "(ok \<longrightarrow> calm (snd (transaction body w))) \<and> (case fst (transaction body w) of
      Inl e \<Rightarrow> E e (w_db (snd (transaction body w)))
    | Inr x \<Rightarrow> Q x (w_db (snd (transaction body w))))"
  proof (cases r)
    case (Inl e)
    then show ?thesis using s s3 c2 post fine w lost
      by (cases flt; cases ok) (auto simp: transaction_def b)
  next
    case (Inr bx)
    obtain c x where bx: "bx = (c, x)" by (cases bx)
    show ?thesis using Inr bx s s3 c2 post fine w lost
      by (cases flt; cases c; cases flt3; cases ok) (auto simp: transaction_def b)
  qed
qed

lemma run_commit_with [run_intros]: "Q (True, x) d \<Longrightarrow> run ok (commit_with x) d E Q"
  unfolding commit_with_def by (rule run_return)

lemma run_leave_with [run_intros]: "Q (False, x) d \<Longrightarrow> run ok (leave_with x) d E Q"
  unfolding leave_with_def by (rule run_return)

end
