(* ===== verification/Store_Attempts.thy ===== *)
theory Store_Attempts
  imports Store_Logic
begin

text \<open>
  The core of \<^verbatim>\<open>internal/store/postgres.go\<close>: tenants, templates and the lookups, the
  roll-up of a notification's status from its attempts, and the transitions of an attempt.
\<close>

subsection \<open>Tenants and templates\<close>

record tenant_params =
  ctp_ID :: string
  ctp_Name :: string
  ctp_DailyQuota :: int

record template_params =
  ctm_ID :: string
  ctm_TenantID :: string
  ctm_Name :: string
  ctm_Channel :: string
  ctm_Version :: int
  ctm_Body :: string

definition CreateTenant :: "tenant_params \<Rightarrow> ('x world_scheme, tenant) sm" where
  "CreateTenant params = or_wrapped (insert_returning (\<lambda>now.
     \<lparr>ten_ID = ctp_ID params, ten_Name = ctp_Name params, ten_Status = ''active'',
      ten_DailyQuota = ctp_DailyQuota params, ten_CreatedAt = now\<rparr>) insert_tenant)"

definition GetTenantByID :: "string \<Rightarrow> ('x world_scheme, tenant) sm" where
  "GetTenantByID i = or_not_found (query_row (\<lambda>_ d. filter (\<lambda>r. ten_ID r = i) (db_tenants d)))"

definition CreateTemplate :: "template_params \<Rightarrow> ('x world_scheme, template) sm" where
  "CreateTemplate params = or_wrapped (insert_returning (\<lambda>now.
     \<lparr>tpl_ID = ctm_ID params, tpl_TenantID = ctm_TenantID params, tpl_Name = ctm_Name params,
      tpl_Channel = ctm_Channel params, tpl_Version = ctm_Version params,
      tpl_Body = ctm_Body params, tpl_CreatedAt = now\<rparr>) insert_template)"

definition GetTemplateByID :: "string \<Rightarrow> ('x world_scheme, template) sm" where
  "GetTemplateByID i = or_not_found (query_row (\<lambda>_ d. filter (\<lambda>r. tpl_ID r = i) (db_templates d)))"

subsection \<open>Lookups\<close>

text \<open>A nil map of variables is stored as \<^verbatim>\<open>{}\<close>, and an SQL or JSON null reads as \<^verbatim>\<open>{}\<close>.\<close>

definition marshalVariables :: "json \<Rightarrow> json" where
  "marshalVariables v = (if v = JNull then JObject [] else v)"

definition unmarshalVariables :: "json \<Rightarrow> err + json" where
  "unmarshalVariables raw = (case raw of
     JObject _ \<Rightarrow> Inr raw | JNull \<Rightarrow> Inr (JObject []) | _ \<Rightarrow> Inl JsonError)"

definition scanNotification :: "notification \<Rightarrow> ('x world_scheme, notification) sm" where
  "scanNotification n = (case unmarshalVariables (ntf_Variables n) of
     Inl e \<Rightarrow> fail e | Inr v \<Rightarrow> return (n\<lparr>ntf_Variables := v\<rparr>))"

definition GetNotificationByID :: "string \<Rightarrow> ('x world_scheme, notification) sm" where
  "GetNotificationByID i = andThen
     (or_not_found (query_row (\<lambda>_ d. filter (\<lambda>n. ntf_ID n = i) (db_notifications d))))
     scanNotification"

definition GetNotificationByTenantAndIdempotencyKey ::
  "string \<Rightarrow> string \<Rightarrow> ('x world_scheme, notification) sm" where
  "GetNotificationByTenantAndIdempotencyKey t k = andThen
     (or_not_found (query_row (\<lambda>_ d.
        filter (\<lambda>n. ntf_TenantID n = t \<and> ntf_IdempotencyKey n = Some k) (db_notifications d))))
     scanNotification"

text \<open>The eighteen columns that \<open>scanDeliveryAttempt\<close> reads do not include the provider.\<close>

definition scanDeliveryAttempt :: "attempt \<Rightarrow> attempt" where
  "scanDeliveryAttempt a = a\<lparr>att_ProviderUsed := None, att_FailoverUsed := False\<rparr>"

definition GetDeliveryAttemptByID :: "string \<Rightarrow> ('x world_scheme, attempt) sm" where
  "GetDeliveryAttemptByID i =
     or_not_found (query_row (\<lambda>_ d. filter (\<lambda>a. att_ID a = i) (db_attempts d)))"

definition notificationIDForAttempt :: "string \<Rightarrow> ('x world_scheme, string) sm" where
  "notificationIDForAttempt i = or_not_found (query_row (\<lambda>_ d.
     map att_NotificationID (filter (\<lambda>a. att_ID a = i) (db_attempts d))))"

definition GetInitialAttemptByNotificationID :: "string \<Rightarrow> ('x world_scheme, attempt) sm" where
  "GetInitialAttemptByNotificationID n = or_not_found (query_row (\<lambda>_ d.
     take 1 (map scanDeliveryAttempt (sort_key att_AttemptNumber
       (filter (\<lambda>a. att_NotificationID a = n \<and> att_EnqueueKind a = ''initial'') (db_attempts d))))))"

text \<open>
  The listing numbers the dead-lettered attempts and the dead letters of one channel in
  the order they happened and pairs equal numbers; a dead letter whose replay is the
  attempt gives one row each.
\<close>

definition dead_letter_of :: "db \<Rightarrow> attempt \<Rightarrow> string option" where
  "dead_letter_of d a = (if att_Status a = DeadLettered then
     map_of (zip
       (map att_ID (sort_key (\<lambda>b. (att_AttemptNumber b, att_CreatedAt b, att_ID b))
         (filter (\<lambda>b. att_NotificationID b = att_NotificationID a \<and> att_Channel b = att_Channel a
            \<and> att_Status b = DeadLettered) (db_attempts d))))
       (map dl_ID (sort_key (\<lambda>l. (dl_DeadLetteredAt l, dl_ID l))
         (filter (\<lambda>l. dl_NotificationID l = att_NotificationID a \<and> dl_Channel l = att_Channel a)
            (db_dead_letters d)))))
       (att_ID a)
     else None)"

definition replays_of :: "db \<Rightarrow> attempt \<Rightarrow> string option list" where
  "replays_of d a = (case filter (\<lambda>l. dl_ReplayAttemptID l = Some (att_ID a)) (db_dead_letters d) of
     [] \<Rightarrow> [None] | ls \<Rightarrow> map (\<lambda>l. Some (dl_ID l)) ls)"

definition attempts_of :: "string \<Rightarrow> db \<Rightarrow> attempt list" where
  "attempts_of n d = concat (map (\<lambda>a. map (\<lambda>r.
       a\<lparr>att_DeadLetterID := dead_letter_of d a, att_ReplayOfDeadLetter := r\<rparr>) (replays_of d a))
     (sort_key (\<lambda>a. (att_AttemptNumber a, att_CreatedAt a))
       (filter (\<lambda>a. att_NotificationID a = n) (db_attempts d))))"

definition ListDeliveryAttemptsByNotificationID :: "string \<Rightarrow> ('x world_scheme, attempt list) sm" where
  "ListDeliveryAttemptsByNotificationID n = query (\<lambda>_ d. attempts_of n d)"

definition LoadDeliveryJob ::
  "string \<Rightarrow> string \<Rightarrow> ('x world_scheme, notification \<times> template \<times> attempt) sm" where
  "LoadDeliveryJob nid aid =
     andThen (GetNotificationByID nid) (\<lambda>n.
     andThen (GetTemplateByID (ntf_TemplateID n)) (\<lambda>tp.
     andThen (GetDeliveryAttemptByID aid) (\<lambda>a.
     if att_NotificationID a \<noteq> nid then fail (ErrText ''load delivery job'')
     else return (n, tp, a))))"

subsection \<open>The status of a notification\<close>

record flags =
  hasSent :: bool
  hasDeadLettered :: bool
  hasFailed :: bool
  hasActive :: bool

definition scan_status :: "flags \<Rightarrow> attempt \<Rightarrow> flags" where
  "scan_status fl a = (case att_Status a of
     Sent \<Rightarrow> fl\<lparr>hasSent := True\<rparr>
   | DeadLettered \<Rightarrow> fl\<lparr>hasDeadLettered := True\<rparr>
   | Failed \<Rightarrow> fl\<lparr>hasFailed := True\<rparr>
   | Pending \<Rightarrow> fl\<lparr>hasActive := True\<rparr>
   | InProgress \<Rightarrow> fl\<lparr>hasActive := True\<rparr>
   | RetryScheduled \<Rightarrow> fl\<lparr>hasActive := True\<rparr>
   | Delivered \<Rightarrow> fl)"

definition deriveNotificationStatus :: "attempt list \<Rightarrow> notification_status" where
  "deriveNotificationStatus as = (if as = [] then NAccepted else
     let fl = foldl scan_status \<lparr>hasSent = False, hasDeadLettered = False, hasFailed = False,
       hasActive = False\<rparr> as in
     if hasSent fl \<and> (hasDeadLettered fl \<or> hasFailed fl \<or> hasActive fl) then NPartiallyDelivered
     else if hasSent fl then NDelivered
     else if hasActive fl then NProcessing
     else if hasDeadLettered fl then NDeadLettered
     else if hasFailed fl then NFailed
     else NAccepted)"

text \<open>\<^verbatim>\<open>t != nil && t.After(time.Now().UTC())\<close>: the clock is read only when it matters.\<close>

definition is_later :: "time option \<Rightarrow> ('x world_scheme, bool) sm" where
  "is_later t = (case t of None \<Rightarrow> return False
     | Some u \<Rightarrow> andThen time_Now (\<lambda>now. return (now < u)))"

definition RecalculateNotificationStatus :: "string \<Rightarrow> ('x world_scheme, unit) sm" where
  "RecalculateNotificationStatus i =
     andThen (or_not_found (query_row (\<lambda>_ d.
       map (\<lambda>n. (ntf_ScheduledFor n, ntf_PromotedAt n, ntf_CancelledAt n))
         (filter (\<lambda>n. ntf_ID n = i) (db_notifications d))))) (\<lambda>(scheduledFor, promotedAt, cancelledAt).
     andThen (ListDeliveryAttemptsByNotificationID i) (\<lambda>attempts.
     andThen (if cancelledAt \<noteq> None then return NCancelled
        else if scheduledFor \<noteq> None \<and> promotedAt = None then
          andThen (is_later scheduledFor) (\<lambda>later.
            return (if later then NScheduled else deriveNotificationStatus attempts))
        else return (deriveNotificationStatus attempts)) (\<lambda>status.
     andThen (update_notifications (\<lambda>_ _ n. ntf_ID n = i)
       (\<lambda>now n. n\<lparr>ntf_Status := status, ntf_UpdatedAt := now\<rparr>)) (\<lambda>rows.
     if rows = 0 then fail ErrNotFound else return ()))))"

subsection \<open>The transitions of an attempt\<close>

fun isAttemptTerminalState :: "attempt_status \<Rightarrow> bool" where
  "isAttemptTerminalState Sent = True"
| "isAttemptTerminalState Failed = True"
| "isAttemptTerminalState RetryScheduled = True"
| "isAttemptTerminalState DeadLettered = True"
| "isAttemptTerminalState _ = False"

definition active_columns :: "time \<Rightarrow> attempt \<Rightarrow> attempt" where
  "active_columns now a = a\<lparr>att_Status := InProgress,
     att_StartedAt := Some (coalesce (att_StartedAt a) now), att_CompletedAt := None,
     att_UpdatedAt := now\<rparr>"

definition MarkAttemptInProgress :: "string \<Rightarrow> ('x world_scheme, unit) sm" where
  "MarkAttemptInProgress i =
     andThen (update_attempts (\<lambda>_ _ a. att_ID a = i \<and> att_Status a = Pending) active_columns) (\<lambda>rows.
     if rows = 0 then
       andThen (GetDeliveryAttemptByID i) (\<lambda>a. fail
         (if att_Status a = InProgress then ErrAttemptAlreadyProcessing
          else if isAttemptTerminalState (att_Status a) then ErrAttemptAlreadyFinalized
          else ErrInvalidStateTransition))
     else andThen (notificationIDForAttempt i) RecalculateNotificationStatus)"

text \<open>
  The four methods that end an execution differ in the columns they set; the rest of their
  text, a copy in each, is \<open>finish_attempt\<close>.
\<close>

definition finish_attempt ::
  "(time \<Rightarrow> attempt \<Rightarrow> attempt) \<Rightarrow> string \<Rightarrow> ('x world_scheme, unit) sm" where
  "finish_attempt set_columns i =
     andThen (update_attempts (\<lambda>_ _ a. att_ID a = i \<and> att_Status a = InProgress) set_columns) (\<lambda>rows.
     if rows = 0 then
       andThen (GetDeliveryAttemptByID i) (\<lambda>a. fail
         (if isAttemptTerminalState (att_Status a) then ErrAttemptAlreadyFinalized
          else ErrInvalidStateTransition))
     else andThen (notificationIDForAttempt i) RecalculateNotificationStatus)"

definition sent_columns :: "string option \<Rightarrow> time \<Rightarrow> attempt \<Rightarrow> attempt" where
  "sent_columns providerMessageID now a = a\<lparr>att_Status := Sent,
     att_ProviderMessageID := providerMessageID, att_LastError := None, att_ErrorMessage := None,
     att_SentAt := Some now, att_FailedAt := None, att_CompletedAt := Some now,
     att_UpdatedAt := now\<rparr>"

definition failed_columns :: "string \<Rightarrow> time \<Rightarrow> attempt \<Rightarrow> attempt" where
  "failed_columns lastError now a = a\<lparr>att_Status := Failed, att_LastError := Some lastError,
     att_ErrorMessage := Some lastError, att_ProviderMessageID := None, att_FailedAt := Some now,
     att_CompletedAt := Some now, att_UpdatedAt := now\<rparr>"

definition retry_columns :: "string \<Rightarrow> time \<Rightarrow> time \<Rightarrow> attempt \<Rightarrow> attempt" where
  "retry_columns lastError nextRetryAt now a = a\<lparr>att_Status := RetryScheduled,
     att_LastError := Some lastError, att_ErrorMessage := Some lastError,
     att_NextRetryAt := Some nextRetryAt, att_ProviderMessageID := None, att_FailedAt := Some now,
     att_CompletedAt := Some now, att_UpdatedAt := now\<rparr>"

definition dead_columns :: "string \<Rightarrow> time \<Rightarrow> attempt \<Rightarrow> attempt" where
  "dead_columns lastError now a = a\<lparr>att_Status := DeadLettered,
     att_LastError := Some lastError, att_ErrorMessage := Some lastError,
     att_NextRetryAt := None, att_ProviderMessageID := None, att_FailedAt := Some now,
     att_CompletedAt := Some now, att_UpdatedAt := now\<rparr>"

definition MarkAttemptSent :: "string \<Rightarrow> string option \<Rightarrow> ('x world_scheme, unit) sm" where
  "MarkAttemptSent i providerMessageID = finish_attempt (sent_columns providerMessageID) i"

definition MarkAttemptFailed :: "string \<Rightarrow> string \<Rightarrow> ('x world_scheme, unit) sm" where
  "MarkAttemptFailed i lastError = finish_attempt (failed_columns lastError) i"

definition ScheduleRetry :: "string \<Rightarrow> string \<Rightarrow> time \<Rightarrow> ('x world_scheme, unit) sm" where
  "ScheduleRetry i lastError nextRetryAt = finish_attempt (retry_columns lastError nextRetryAt) i"

definition MarkAttemptDeadLettered :: "string \<Rightarrow> string \<Rightarrow> ('x world_scheme, unit) sm" where
  "MarkAttemptDeadLettered i lastError = finish_attempt (dead_columns lastError) i"

definition UpdateAttemptProvider :: "string \<Rightarrow> string \<Rightarrow> bool \<Rightarrow> ('x world_scheme, unit) sm" where
  "UpdateAttemptProvider i provider failoverUsed =
     andThen (update_attempts (\<lambda>_ _ a. att_ID a = i)
       (\<lambda>now a. a\<lparr>att_ProviderUsed := Some provider, att_FailoverUsed := failoverUsed,
          att_UpdatedAt := now\<rparr>)) (\<lambda>rows.
     if rows = 0 then fail ErrNotFound else return ())"

subsection \<open>They move the database forward\<close>

lemma moves_is_later [moves_intros]: "obeys moves w_db (is_later t)"
  unfolding is_later_def by (intro moves_intros)

lemma moves_lookups [moves_intros]:
  "obeys moves w_db (CreateTenant tp)" "obeys moves w_db (GetTenantByID i)"
  "obeys moves w_db (CreateTemplate mp)" "obeys moves w_db (GetTemplateByID i)"
  "obeys moves w_db (GetDeliveryAttemptByID i)" "obeys moves w_db (notificationIDForAttempt i)"
  "obeys moves w_db (GetInitialAttemptByNotificationID i)"
  "obeys moves w_db (ListDeliveryAttemptsByNotificationID i)"
  unfolding CreateTenant_def GetTenantByID_def CreateTemplate_def GetTemplateByID_def
    GetDeliveryAttemptByID_def notificationIDForAttempt_def GetInitialAttemptByNotificationID_def
    ListDeliveryAttemptsByNotificationID_def
  by (intro moves_intros)+

lemma moves_scanNotification [moves_intros]: "obeys moves w_db (scanNotification n)"
  unfolding scanNotification_def by (auto split: sum.split intro: moves_intros)

lemma moves_notification_lookups [moves_intros]:
  "obeys moves w_db (GetNotificationByID i)"
  "obeys moves w_db (GetNotificationByTenantAndIdempotencyKey t k)"
  unfolding GetNotificationByID_def GetNotificationByTenantAndIdempotencyKey_def
  by (intro moves_intros)+

lemma moves_LoadDeliveryJob [moves_intros]: "obeys moves w_db (LoadDeliveryJob nid aid)"
  unfolding LoadDeliveryJob_def by (intro moves_intros)

lemma moves_Recalculate [moves_intros]: "obeys moves w_db (RecalculateNotificationStatus i)"
  unfolding RecalculateNotificationStatus_def
  by (intro moves_intros moves_update_notifications)
    (auto simp: notification_move_def notification_ok_def idem_key_def)

lemma moves_MarkAttemptInProgress [moves_intros]: "obeys moves w_db (MarkAttemptInProgress i)"
  unfolding MarkAttemptInProgress_def
  by (intro moves_intros moves_update_attempts)
    (auto simp: active_columns_def attempt_move_def attempt_ok_def attempt_key_def)

lemmas column_defs = active_columns_def sent_columns_def failed_columns_def retry_columns_def dead_columns_def

lemma moves_finish_attempt:
  assumes "\<And>now a. att_Status a = InProgress \<Longrightarrow> attempt_move a (set_columns now a)"
    and "\<And>now a. attempt_ok (set_columns now a)"
  shows "obeys moves w_db (finish_attempt set_columns i)"
  unfolding finish_attempt_def
  by (intro moves_intros moves_update_attempts) (use assms in auto)

lemma moves_finish [moves_intros]:
  "obeys moves w_db (MarkAttemptSent i pm)" "obeys moves w_db (MarkAttemptFailed i e)"
  "obeys moves w_db (ScheduleRetry i e t)" "obeys moves w_db (MarkAttemptDeadLettered i e)"
  unfolding MarkAttemptSent_def MarkAttemptFailed_def ScheduleRetry_def MarkAttemptDeadLettered_def
  by (rule moves_finish_attempt,
      simp_all add: column_defs attempt_move_def attempt_key_def attempt_ok_def)+

lemma moves_UpdateAttemptProvider [moves_intros]: "obeys moves w_db (UpdateAttemptProvider i p fo)"
  unfolding UpdateAttemptProvider_def
  by (intro moves_intros moves_update_attempts)
    (auto simp: attempt_move_def attempt_ok_def attempt_key_def)

end
