(* ===== verification/Samples.thy ===== *)
theory Samples
  imports Store_Model
begin

text \<open>
  Concrete rows, databases and worlds on which the witnesses evaluate the methods: one
  tenant, one template, one immediate and one scheduled notification and attempts in every
  state the tests need.
\<close>

definition tenant1 :: tenant where
  "tenant1 = \<lparr>ten_ID = ''t'', ten_Name = ''acme'', ten_Status = ''active'', ten_DailyQuota = 10,
     ten_CreatedAt = 0\<rparr>"

definition template1 :: template where
  "template1 = \<lparr>tpl_ID = ''m'', tpl_TenantID = ''t'', tpl_Name = ''hello'', tpl_Channel = ''email'',
     tpl_Version = 1, tpl_Body = ''hi'', tpl_CreatedAt = 0\<rparr>"

definition ntf1 :: notification where
  "ntf1 = \<lparr>ntf_ID = ''n'', ntf_TenantID = ''t'', ntf_TemplateID = ''m'',
     ntf_IdempotencyKey = Some ''k'', ntf_Status = NAccepted, ntf_RecipientEmail = Some ''a@b'',
     ntf_RecipientWebhookURL = None, ntf_SecondaryWebhookURL = None, ntf_Variables = JObject [],
     ntf_ScheduledFor = None, ntf_PromotedAt = None, ntf_CancelledAt = None,
     ntf_SubmittedAt = 0, ntf_UpdatedAt = 0\<rparr>"

definition ntf2 :: notification where
  "ntf2 = ntf1\<lparr>ntf_ID := ''o'', ntf_IdempotencyKey := Some ''l'', ntf_Status := NScheduled,
     ntf_ScheduledFor := Some 50\<rparr>"

definition att_in :: "string \<Rightarrow> string \<Rightarrow> int \<Rightarrow> attempt_status \<Rightarrow> attempt" where
  "att_in i n k st = \<lparr>att_ID = i, att_NotificationID = n, att_Channel = ''email'', att_AttemptNumber = k,
     att_Status = st, att_ErrorCode = None, att_ErrorMessage = None, att_ProviderMessageID = None,
     att_LastError = None, att_NextRetryAt = (if st = RetryScheduled then Some 5 else None),
     att_StartedAt = (if st = Pending then None else Some 1),
     att_CompletedAt = (if st \<in> {Pending, InProgress} then None else Some 2),
     att_SentAt = (if st = Sent then Some 2 else None), att_FailedAt = None,
     att_DispatchEnqueuedAt = None, att_EnqueueKind = ''initial'', att_ProviderUsed = None,
     att_FailoverUsed = False, att_DeadLetterID = None, att_ReplayOfDeadLetter = None,
     att_CreatedAt = 0, att_UpdatedAt = 0\<rparr>"

definition intent_for :: "string \<Rightarrow> attempt \<Rightarrow> intent" where
  "intent_for i a = \<lparr>int_ID = i, int_NotificationID = att_NotificationID a, int_AttemptID = att_ID a,
     int_TenantID = ''t'', int_Channel = att_Channel a, int_Source = ''initial'',
     int_Status = IPending, int_LastError = None, int_CreatedAt = 0, int_ClaimedAt = None,
     int_PublishedAt = None\<rparr>"

definition sample_db :: "schema \<Rightarrow> attempt list \<Rightarrow> intent list \<Rightarrow> db" where
  "sample_db sch as is = (empty_db sch)\<lparr>db_tenants := [tenant1], db_templates := [template1],
     db_notifications := [ntf1, ntf2], db_attempts := as, db_outbox := is\<rparr>"

definition at_time :: "time \<Rightarrow> db \<Rightarrow> world" where
  "at_time t d = \<lparr>w_db = d, w_clock = t, w_tx = None, w_env = []\<rparr>"

lemmas sample_rows = tenant1_def template1_def ntf1_def ntf2_def att_in_def intent_for_def
lemmas sample_defs = sample_rows sample_db_def empty_db_def at_time_def

end
