(* ===== verification/Store_Lifecycle.thy ===== *)
theory Store_Lifecycle
  imports Store_Attempts Samples
begin

text \<open>
  What the transitions of \<open>Store_Attempts\<close> do: the roll-up of a notification's status, the
  guard that lets one caller activate an attempt, and the guards of the calls that end it.
\<close>

subsection \<open>The roll-up\<close>

text \<open>The reference: a notification's status is a function of the set of its attempts' states.\<close>

definition rollup :: "attempt_status set \<Rightarrow> notification_status" where
  "rollup S = (if Sent \<in> S then
       (if S \<inter> {DeadLettered, Failed, Pending, InProgress, RetryScheduled} = {} then NDelivered
        else NPartiallyDelivered)
     else if S \<inter> {Pending, InProgress, RetryScheduled} \<noteq> {} then NProcessing
     else if DeadLettered \<in> S then NDeadLettered
     else if Failed \<in> S then NFailed
     else NAccepted)"

lemma foldl_scan_status:
  "hasSent (foldl scan_status fl as) = (hasSent fl \<or> Sent \<in> att_Status ` set as)"
  "hasDeadLettered (foldl scan_status fl as) = (hasDeadLettered fl \<or> DeadLettered \<in> att_Status ` set as)"
  "hasFailed (foldl scan_status fl as) = (hasFailed fl \<or> Failed \<in> att_Status ` set as)"
  "hasActive (foldl scan_status fl as) = (hasActive fl \<or>
     att_Status ` set as \<inter> {Pending, InProgress, RetryScheduled} \<noteq> {})"
proof (induction as arbitrary: fl)
  case (Cons a as)
  { case 1 show ?case using Cons(1) by (cases "att_Status a") (auto simp: scan_status_def) }
  { case 2 show ?case using Cons(2) by (cases "att_Status a") (auto simp: scan_status_def) }
  { case 3 show ?case using Cons(3) by (cases "att_Status a") (auto simp: scan_status_def) }
  { case 4 show ?case using Cons(4) by (cases "att_Status a") (auto simp: scan_status_def) }
qed simp_all

lemma derive_rollup: "deriveNotificationStatus as = rollup (att_Status ` set as)"
  unfolding deriveNotificationStatus_def Let_def rollup_def foldl_scan_status
  by (auto simp: foldl_scan_status)

lemma replays_of_nonempty: "replays_of d a \<noteq> []"
  by (simp add: replays_of_def split: list.split)

lemma attempts_of_statuses:
  "att_Status ` set (attempts_of n d) = att_Status ` {a \<in> set (db_attempts d). att_NotificationID a = n}"
proof -
  have "\<exists>r. r \<in> set (replays_of d a)" for a
    using replays_of_nonempty [of d a] by (meson ex_in_conv set_empty)
  then show ?thesis by (force simp: attempts_of_def image_iff)
qed

subsection \<open>Tables looked up by key\<close>

definition lookup :: "('r \<Rightarrow> 'k) \<Rightarrow> 'k \<Rightarrow> 'r list \<Rightarrow> 'r option" where
  "lookup key i rs = find (\<lambda>r. key r = i) rs"

lemma lookup_Some: "lookup key i rs = Some r \<Longrightarrow> r \<in> set rs \<and> key r = i"
  by (auto simp: lookup_def find_Some_iff)

lemma lookup_None: "lookup key i rs = None \<longleftrightarrow> i \<notin> key ` set rs"
  by (auto simp: lookup_def find_None_iff)

lemma lookup_distinct:
  "distinct (map key rs) \<Longrightarrow> r \<in> set rs \<Longrightarrow> lookup key (key r) rs = Some r"
  by (induction rs) (auto simp: lookup_def image_iff)

lemma filter_lookup:
  "distinct (map key rs) \<Longrightarrow> filter (\<lambda>r. key r = i \<and> P r) rs =
     (case lookup key i rs of None \<Rightarrow> [] | Some r \<Rightarrow> if P r then [r] else [])"
proof (induction rs)
  case (Cons r rs)
  show ?case
  proof (cases "key r = i")
    case True
    with Cons.prems have "i \<notin> key ` set rs" by simp
    then have "filter (\<lambda>x. key x = i \<and> P x) rs = []"
      by (auto simp: filter_empty_conv)
    with True show ?thesis by (simp add: lookup_def)
  qed (use Cons in \<open>simp add: lookup_def\<close>)
qed (simp add: lookup_def)

lemma filter_lookup1:
  "distinct (map key rs) \<Longrightarrow> filter (\<lambda>r. key r = i) rs =
     (case lookup key i rs of None \<Rightarrow> [] | Some r \<Rightarrow> [r])"
  using filter_lookup [of key rs i "\<lambda>_. True"] by (simp split: option.splits)

lemma rows_where_lookup:
  "distinct (map key rs) \<Longrightarrow> rows_where (\<lambda>r. key r = i \<and> P r) rs = 0 \<longleftrightarrow>
     (case lookup key i rs of None \<Rightarrow> True | Some r \<Rightarrow> \<not> P r)"
  by (simp add: rows_where_def filter_lookup split: option.splits)

lemma update_where_none: "\<forall>r \<in> set rs. \<not> P r \<Longrightarrow> update_where P f rs = rs"
  by (induction rs) (simp_all add: update_where_def)

lemma lookup_update_where:
  "(\<And>r. P r \<Longrightarrow> key (f r) = key r) \<Longrightarrow> lookup key i (update_where P f rs) =
     map_option (\<lambda>r. if P r then f r else r) (lookup key i rs)"
  by (induction rs) (auto simp: lookup_def update_where_def)

abbreviation attempt_row :: "db \<Rightarrow> string \<Rightarrow> attempt option" where
  "attempt_row d i \<equiv> lookup att_ID i (db_attempts d)"

abbreviation notification_row :: "db \<Rightarrow> string \<Rightarrow> notification option" where
  "notification_row d i \<equiv> lookup ntf_ID i (db_notifications d)"

lemma wf_distinct:
  assumes "wf_db d"
  shows "distinct (map ten_ID (db_tenants d))" "distinct (map ntf_ID (db_notifications d))"
    "distinct (map att_ID (db_attempts d))" "distinct (map int_ID (db_outbox d))"
    "distinct (map int_AttemptID (db_outbox d))" "distinct (map dl_ID (db_dead_letters d))"
    "distinct (map attempt_key (db_attempts d))"
  using assms by (simp_all add: wf_db_def keys_ok_def)

lemma wf_attempt_notification:
  "wf_db d \<Longrightarrow> attempt_row d i = Some a \<Longrightarrow> \<exists>n. notification_row d (att_NotificationID a) = Some n"
  by (auto simp: wf_db_def refs_ok_def notification_exists_def dest!: lookup_Some)
    (metis image_eqI lookup_None not_None_eq)

lemma moves_wf: "moves d d' \<Longrightarrow> wf_db d \<Longrightarrow> wf_db d'"
  by (simp add: moves_def)

lemma moves_evolves: "moves d d' \<Longrightarrow> wf_db d \<Longrightarrow> evolves d d'"
  by (simp add: moves_def)

subsection \<open>Recalculating\<close>

definition with_status :: "string \<Rightarrow> notification_status \<Rightarrow> time \<Rightarrow> db \<Rightarrow> db" where
  "with_status i s t d = d\<lparr>db_notifications := update_where (\<lambda>n. ntf_ID n = i)
     (\<lambda>n. n\<lparr>ntf_Status := s, ntf_UpdatedAt := t\<rparr>) (db_notifications d)\<rparr>"

definition recalculated :: "db \<Rightarrow> notification \<Rightarrow> notification_status \<Rightarrow> bool" where
  "recalculated d n s = (if ntf_CancelledAt n \<noteq> None then s = NCancelled
     else s = rollup (att_Status ` {a \<in> set (db_attempts d). att_NotificationID a = ntf_ID n})
       \<or> (s = NScheduled \<and> ntf_ScheduledFor n \<noteq> None \<and> ntf_PromotedAt n = None))"

lemma run_is_later [run_intros]:
  "(\<And>b. (t = None \<longrightarrow> \<not> b) \<Longrightarrow> Q b d) \<Longrightarrow> run ok (is_later t) d E Q"
  unfolding is_later_def by (intro run_intros) auto

lemma run_Recalculate:
  assumes wf: "wf_db d"
  shows "run True (RecalculateNotificationStatus i) d
     (\<lambda>e d'. notification_row d i = None \<and> e = ErrNotFound \<and> d' = d)
     (\<lambda>_ d'. \<exists>n s t. notification_row d i = Some n \<and> recalculated d n s \<and> d' = with_status i s t d)"
proof -
  have found: "filter (\<lambda>n. ntf_ID n = i) (db_notifications d) =
      (case notification_row d i of None \<Rightarrow> [] | Some n \<Rightarrow> [n])"
    by (rule filter_lookup1 [OF wf_distinct(2) [OF wf]])
  have id: "notification_row d i = Some n \<Longrightarrow> ntf_ID n = i" for n
    by (drule lookup_Some) simp
  show ?thesis
    unfolding RecalculateNotificationStatus_def ListDeliveryAttemptsByNotificationID_def
    apply (cases "notification_row d i")
     apply (intro run_intros; simp add: found)
    by (rule run_intros
      | (auto simp: recalculated_def with_status_def derive_rollup attempts_of_statuses dest: id; fail)
      | rule conjI impI | simp add: found rows_where_def)+
qed

subsection \<open>One transition\<close>

definition with_attempts :: "(attempt \<Rightarrow> bool) \<Rightarrow> (attempt \<Rightarrow> attempt) \<Rightarrow> db \<Rightarrow> db" where
  "with_attempts P f d = d\<lparr>db_attempts := update_where P f (db_attempts d)\<rparr>"

definition transition :: "attempt_status \<Rightarrow> (time \<Rightarrow> attempt \<Rightarrow> attempt) \<Rightarrow> (attempt \<Rightarrow> err) \<Rightarrow> string \<Rightarrow>
    ('x world_scheme, unit) sm" where
  "transition st f refusal i =
     andThen (update_attempts (\<lambda>_ _ a. att_ID a = i \<and> att_Status a = st) f) (\<lambda>rows.
     if rows = 0 then andThen (GetDeliveryAttemptByID i) (\<lambda>a. fail (refusal a))
     else andThen (notificationIDForAttempt i) RecalculateNotificationStatus)"

lemma run_transition:
  assumes wf: "wf_db d"
    and mv: "\<And>t a. att_Status a = st \<Longrightarrow> attempt_move a (f t a)"
    and ok: "\<And>t a. att_Status a = st \<Longrightarrow> attempt_ok a \<Longrightarrow> attempt_ok (f t a)"
    and changes: "\<And>t a. att_Status (f t a) \<noteq> st"
  shows "run True (transition st f refusal i) d
     (\<lambda>e d'. d' = d \<and> (case attempt_row d i of None \<Rightarrow> e = ErrNotFound
        | Some a \<Rightarrow> att_Status a \<noteq> st \<and> e = refusal a))
     (\<lambda>_ d'. \<exists>a t n s u. attempt_row d i = Some a \<and> att_Status a = st
        \<and> notification_row d (att_NotificationID a) = Some n
        \<and> recalculated (with_attempts (\<lambda>a. att_ID a = i) (f t) d) n s
        \<and> d' = with_status (att_NotificationID a) s u (with_attempts (\<lambda>a. att_ID a = i) (f t) d))"
proof -
  have found: "filter (\<lambda>a. att_ID a = i) (db_attempts d) =
      (case attempt_row d i of None \<Rightarrow> [] | Some a \<Rightarrow> [a])"
    by (rule filter_lookup1 [OF wf_distinct(3) [OF wf]])
  have rows: "rows_where (\<lambda>a. att_ID a = i \<and> att_Status a = st) (db_attempts d) = 0 \<longleftrightarrow>
      (case attempt_row d i of None \<Rightarrow> True | Some a \<Rightarrow> att_Status a \<noteq> st)"
    by (rule rows_where_lookup [OF wf_distinct(3) [OF wf]])
  show ?thesis
  proof (cases "\<exists>a. attempt_row d i = Some a \<and> att_Status a = st")
    case False
    then have same: "update_where (\<lambda>a. att_ID a = i \<and> att_Status a = st) (f t) (db_attempts d) = db_attempts d" for t
      using rows by (auto simp: rows_where_0 update_where_none split: option.splits)
    from False show ?thesis
      unfolding transition_def GetDeliveryAttemptByID_def
      by (cases "attempt_row d i")
        (rule run_intros | (auto simp: rows same; fail) | rule conjI impI | simp add: rows same found)+
  next
    case True
    then obtain a where a: "attempt_row d i = Some a" "att_Status a = st" by blast
    then have in_tab: "a \<in> set (db_attempts d)" "att_ID a = i" by (auto dest: lookup_Some)
    have one: "update_where (\<lambda>a. att_ID a = i \<and> att_Status a = st) (f t) (db_attempts d)
        = update_where (\<lambda>a. att_ID a = i) (f t) (db_attempts d)" for t
      using lookup_distinct [OF wf_distinct(3) [OF wf]] a
      by (auto simp: update_where_def)
    obtain n where n: "notification_row d (att_NotificationID a) = Some n"
      using wf_attempt_notification [OF wf a(1)] by blast
    let ?d = "\<lambda>t. with_attempts (\<lambda>a. att_ID a = i) (f t) d"
    have "moves d (d\<lparr>db_attempts := update_where (\<lambda>a. att_ID a = i \<and> att_Status a = st) (f t) (db_attempts d)\<rparr>)" for t
      by (rule moves_update_attempts_db) (auto intro: mv ok)
    then have wf': "wf_db (?d t)" for t using wf by (simp add: moves_def one with_attempts_def)
    have key: "att_NotificationID (f t a) = att_NotificationID a" "att_ID (f t a) = i" for t
      using mv [OF a(2), of t] in_tab by (auto simp: attempt_move_def attempt_key_def)
    have "f t a \<in> set (db_attempts (?d t))" for t
      using in_tab by (auto simp: with_attempts_def update_where_def)
    then have row': "attempt_row (?d t) i = Some (f t a)" for t
      using lookup_distinct [OF wf_distinct(3) [OF wf']] key(2) by metis
    have found': "filter (\<lambda>b. att_ID b = i) (db_attempts (?d t)) = [f t a]" for t
      using filter_lookup1 [OF wf_distinct(3) [OF wf'], of i] row' by simp
    have n': "notification_row (?d t) (att_NotificationID a) = Some n" for t
      using n by (simp add: with_attempts_def)
    have rest: "run True (andThen (notificationIDForAttempt i) RecalculateNotificationStatus) (?d t)
      (\<lambda>_ _. False) (\<lambda>_ d'. \<exists>m s u. notification_row (?d t) (att_NotificationID a) = Some m
         \<and> recalculated (?d t) m s \<and> d' = with_status (att_NotificationID a) s u (?d t))" for t
      unfolding notificationIDForAttempt_def
      by (intro run_intros; simp add: found' key; rule run_mono [OF run_Recalculate [OF wf']])
        (auto simp: n')
    have nonzero: "rows_where (\<lambda>a. att_ID a = i \<and> att_Status a = st) (db_attempts d) \<noteq> 0"
      using rows a by simp
    show ?thesis
      unfolding transition_def
      apply (rule run_andThen, rule run_updates)
       apply (simp add: nonzero one del: neq0_conv)
       apply (rule run_mono [OF rest [unfolded with_attempts_def]])
        apply simp
       apply (use a n' n in \<open>auto simp: with_attempts_def\<close>)
      done
  qed
qed

text \<open>
  What a transition promises: it happens exactly when the attempt is in the state it starts
  from; then it changes that row as the \<^verbatim>\<open>SET\<close> clause says, no other attempt, and leaves the
  notification with the recalculated status; otherwise it is refused and changes nothing.
\<close>

definition outcome :: "attempt_status \<Rightarrow> (time \<Rightarrow> attempt \<Rightarrow> attempt) \<Rightarrow> (attempt \<Rightarrow> err) \<Rightarrow> string \<Rightarrow>
    db \<Rightarrow> err + unit \<Rightarrow> db \<Rightarrow> bool" where
  "outcome st f refusal i d r d' = (case attempt_row d i of
     None \<Rightarrow> r = Inl ErrNotFound \<and> d' = d
   | Some a \<Rightarrow> if att_Status a \<noteq> st then r = Inl (refusal a) \<and> d' = d
       else r = Inr () \<and> (\<exists>t. attempt_row d' i = Some (f t a))
         \<and> (\<forall>j. j \<noteq> i \<longrightarrow> attempt_row d' j = attempt_row d j)
         \<and> (\<exists>n. notification_row d' (att_NotificationID a) = Some n \<and> recalculated d' n (ntf_Status n)))"

lemma recalculated_with_status:
  "recalculated d n s \<Longrightarrow> recalculated (with_status i s t d) (n\<lparr>ntf_Status := s, ntf_UpdatedAt := u\<rparr>) s"
  by (auto simp: recalculated_def with_status_def)

lemma notification_row_with_status:
  "notification_row d i = Some n \<Longrightarrow>
     notification_row (with_status i s t d) i = Some (n\<lparr>ntf_Status := s, ntf_UpdatedAt := t\<rparr>)"
  by (frule lookup_Some) (simp add: with_status_def lookup_update_where)

lemma db_attempts_with_status [simp]: "db_attempts (with_status i s t d) = db_attempts d"
  by (simp add: with_status_def)

lemma lookup_update_one:
  assumes "lookup key i rs = Some r" "\<And>b. key b = i \<Longrightarrow> b \<in> set rs \<Longrightarrow> key (f b) = i"
  shows "lookup key j (update_where (\<lambda>b. key b = i) f rs) = (if j = i then Some (f r) else lookup key j rs)"
proof (cases "j = i")
  case True
  with assms show ?thesis by (induction rs) (auto simp: lookup_def update_where_def)
next
  case False
  then have "lookup key j (update_where (\<lambda>b. key b = i) f rs) = lookup key j rs"
    using assms(2) by (induction rs) (auto simp: lookup_def update_where_def)
  with False show ?thesis by simp
qed

lemma attempt_row_with_attempts:
  assumes "attempt_row d i = Some a" "\<And>b. att_ID b = i \<Longrightarrow> b \<in> set (db_attempts d) \<Longrightarrow> att_ID (f b) = i"
  shows "attempt_row (with_attempts (\<lambda>b. att_ID b = i) f d) j =
    (if j = i then Some (f a) else attempt_row d j)"
  using lookup_update_one [OF assms] by (simp add: with_attempts_def)

lemma transition_outcome:
  assumes wf: "wf_db (w_db w)" and calm: "calm w" and run: "transition st f refusal i w = (r, w')"
    and mv: "\<And>t a. att_Status a = st \<Longrightarrow> attempt_move a (f t a)"
    and ok: "\<And>t a. att_Status a = st \<Longrightarrow> attempt_ok a \<Longrightarrow> attempt_ok (f t a)"
    and changes: "\<And>t a. att_Status (f t a) \<noteq> st"
  shows "outcome st f refusal i (w_db w) r (w_db w')"
proof -
  let ?d = "w_db w"
  note post = run_ends [OF run_transition [OF wf mv ok changes] calm run]
  show ?thesis
  proof (cases r)
    case (Inl e)
    with post show ?thesis by (auto simp: outcome_def split: option.splits)
  next
    case (Inr x)
    with post obtain a t n s u where a: "attempt_row ?d i = Some a" "att_Status a = st"
      and n: "notification_row ?d (att_NotificationID a) = Some n"
      and s: "recalculated (with_attempts (\<lambda>a. att_ID a = i) (f t) ?d) n s"
      and d': "w_db w' = with_status (att_NotificationID a) s u (with_attempts (\<lambda>a. att_ID a = i) (f t) ?d)"
      by auto
    let ?e = "with_attempts (\<lambda>a. att_ID a = i) (f t) ?d"
    have one: "b = a" if "att_ID b = i" "b \<in> set (db_attempts ?d)" for b
      using lookup_distinct [OF wf_distinct(3) [OF wf] that(2)] that a by simp
    have id: "att_ID (f t b) = i" if "att_ID b = i" "b \<in> set (db_attempts ?d)" for b
      using mv [OF a(2), of t] one [OF that] that by (simp add: attempt_move_def)
    have rows: "attempt_row (w_db w') j = (if j = i then Some (f t a) else attempt_row ?d j)" for j
      unfolding d' db_attempts_with_status
      using attempt_row_with_attempts [where f = "f t", OF a(1)] id by blast
    have "notification_row ?e (att_NotificationID a) = Some n"
      using n by (simp add: with_attempts_def)
    from notification_row_with_status [OF this, of s u] recalculated_with_status [OF s, of "att_NotificationID a" u u]
    have "\<exists>n. notification_row (w_db w') (att_NotificationID a) = Some n \<and> recalculated (w_db w') n (ntf_Status n)"
      unfolding d' by auto
    with a rows Inr show ?thesis by (auto simp: outcome_def)
  qed
qed

definition activation_refusal :: "attempt \<Rightarrow> err" where
  "activation_refusal a = (if att_Status a = InProgress then ErrAttemptAlreadyProcessing
     else if isAttemptTerminalState (att_Status a) then ErrAttemptAlreadyFinalized
     else ErrInvalidStateTransition)"

definition finish_refusal :: "attempt \<Rightarrow> err" where
  "finish_refusal a = (if isAttemptTerminalState (att_Status a) then ErrAttemptAlreadyFinalized
     else ErrInvalidStateTransition)"

lemma transitions:
  "MarkAttemptInProgress i = transition Pending active_columns activation_refusal i"
  "finish_attempt f i = transition InProgress f finish_refusal i"
  unfolding MarkAttemptInProgress_def finish_attempt_def transition_def
    activation_refusal_def finish_refusal_def by (rule refl)+

lemma activation_outcome:
  assumes "wf_db (w_db w)" "calm w" "MarkAttemptInProgress i w = (r, w')"
  shows "outcome Pending active_columns activation_refusal i (w_db w) r (w_db w')"
  by (rule transition_outcome [OF assms(1,2) assms(3) [unfolded transitions]])
    (simp_all add: active_columns_def attempt_move_def attempt_key_def attempt_ok_def)

text \<open>
  \<open>MarkAttemptInProgress\<close> is a compare-and-set: when the database answers, it succeeds
  exactly on a pending attempt, which it makes in progress (the first start time is kept, the
  completion time cleared) with the notification's status recalculated and no other attempt
  touched; on an attempt in progress it reports \<open>ErrAttemptAlreadyProcessing\<close>, on a terminal
  one \<open>ErrAttemptAlreadyFinalized\<close>, and changes nothing.
\<close>

theorem MarkAttemptInProgress_outcome:
  assumes "wf_db (w_db w)" "calm w" "MarkAttemptInProgress i w = (r, w')"
  shows "outcome Pending active_columns activation_refusal i (w_db w) r (w_db w')"
  by (rule activation_outcome [OF assms])

lemmas sample_wf_defs = wf_db_defs exists_defs sample_defs keys_of_def idem_key_def template_key_def
  attempt_key_def channel_ok_def attempt_ok_def intent_ok_def notification_ok_def

lemma sample_wf:
  "wf_db (sample_db sch [att_in ''a'' ''n'' 1 Pending, att_in ''b'' ''n'' 2 RetryScheduled]
     [intent_for ''i'' (att_in ''a'' ''n'' 1 Pending)])"
  by (simp add: sample_wf_defs)

lemma calm_at_time [simp]: "calm (at_time t d)"
  by (simp add: calm_def at_time_def)

lemma w_db_at_time [simp]: "w_db (at_time t d) = d"
  by (simp add: at_time_def)

definition sample1 :: world where
  "sample1 = at_time 9 (sample_db Migrations
     [att_in ''a'' ''n'' 1 Pending, att_in ''b'' ''n'' 2 RetryScheduled]
     [intent_for ''i'' (att_in ''a'' ''n'' 1 Pending)])"

lemma sample1_ok: "wf_db (w_db sample1)" "calm sample1"
  using sample_wf by (simp_all add: sample1_def)

theorem MarkAttemptInProgress_outcome_witness:
  "outcome Pending active_columns activation_refusal ''a'' (w_db sample1)
     (fst (MarkAttemptInProgress ''a'' sample1)) (w_db (snd (MarkAttemptInProgress ''a'' sample1)))
   \<and> fst (MarkAttemptInProgress ''a'' sample1) = Inr ()"
proof (intro conjI)
  show "outcome Pending active_columns activation_refusal ''a'' (w_db sample1)
     (fst (MarkAttemptInProgress ''a'' sample1)) (w_db (snd (MarkAttemptInProgress ''a'' sample1)))"
    by (rule MarkAttemptInProgress_outcome [OF sample1_ok prod.collapse [symmetric]])
  show "fst (MarkAttemptInProgress ''a'' sample1) = Inr ()"
    by code_simp
qed

subsection \<open>Ending an attempt\<close>

datatype ending = SentAs "string option" | FailedWith string | RetryAt string time | DeadWith string

fun finish :: "ending \<Rightarrow> string \<Rightarrow> ('x world_scheme, unit) sm" where
  "finish (SentAs p) i = MarkAttemptSent i p"
| "finish (FailedWith e) i = MarkAttemptFailed i e"
| "finish (RetryAt e t) i = ScheduleRetry i e t"
| "finish (DeadWith e) i = MarkAttemptDeadLettered i e"

fun ending_columns :: "ending \<Rightarrow> time \<Rightarrow> attempt \<Rightarrow> attempt" where
  "ending_columns (SentAs p) = sent_columns p"
| "ending_columns (FailedWith e) = failed_columns e"
| "ending_columns (RetryAt e t) = retry_columns e t"
| "ending_columns (DeadWith e) = dead_columns e"

lemma finish_transition: "finish e i = transition InProgress (ending_columns e) finish_refusal i"
  by (cases e) (simp_all add: transitions MarkAttemptSent_def MarkAttemptFailed_def
    ScheduleRetry_def MarkAttemptDeadLettered_def)

lemma ending_columns_ok:
  "att_Status a = InProgress \<Longrightarrow> attempt_move a (ending_columns e t a)"
  "attempt_ok (ending_columns e t a)"
  "att_Status (ending_columns e t a) \<noteq> InProgress"
  by (cases e; simp add: column_defs attempt_move_def attempt_key_def attempt_ok_def)+

lemma finish_outcome:
  assumes "wf_db (w_db w)" "calm w" "finish e i w = (r, w')"
  shows "outcome InProgress (ending_columns e) finish_refusal i (w_db w) r (w_db w')"
  by (rule transition_outcome [OF assms(1,2) assms(3) [unfolded finish_transition]])
    (simp_all add: ending_columns_ok)

text \<open>
  The four methods that end an execution (\<open>MarkAttemptSent\<close>, \<open>MarkAttemptFailed\<close>,
  \<open>ScheduleRetry\<close>, \<open>MarkAttemptDeadLettered\<close>) succeed exactly on an attempt in progress, set
  the columns of their \<^verbatim>\<open>SET\<close> clause on that row only and recalculate the notification; any
  other attempt is refused (\<open>ErrAttemptAlreadyFinalized\<close> when terminal) and nothing changes.
\<close>

theorem finish_only_in_progress:
  assumes "wf_db (w_db w)" "calm w" "finish e i w = (r, w')"
  shows "outcome InProgress (ending_columns e) finish_refusal i (w_db w) r (w_db w')"
  by (rule finish_outcome [OF assms])

definition sample2 :: world where
  "sample2 = at_time 9 (sample_db Migrations
     [att_in ''a'' ''n'' 1 InProgress, att_in ''b'' ''n'' 2 Sent] [])"

lemma sample2_ok: "wf_db (w_db sample2)" "calm sample2"
  by (simp_all add: sample2_def sample_wf_defs calm_def)

theorem finish_only_in_progress_witness:
  "outcome InProgress (ending_columns (RetryAt ''e'' 40)) finish_refusal ''a'' (w_db sample2)
     (fst (finish (RetryAt ''e'' 40) ''a'' sample2)) (w_db (snd (finish (RetryAt ''e'' 40) ''a'' sample2)))
   \<and> fst (finish (RetryAt ''e'' 40) ''a'' sample2) = Inr ()
   \<and> fst (finish (FailedWith ''e'') ''b'' sample2) = Inl ErrAttemptAlreadyFinalized"
proof (intro conjI)
  show "outcome InProgress (ending_columns (RetryAt ''e'' 40)) finish_refusal ''a'' (w_db sample2)
     (fst (finish (RetryAt ''e'' 40) ''a'' sample2)) (w_db (snd (finish (RetryAt ''e'' 40) ''a'' sample2)))"
    by (rule finish_only_in_progress [OF sample2_ok prod.collapse [symmetric]])
qed code_simp+

lemma evolves_attempt_row:
  assumes "evolves d d'" "wf_db d'" "attempt_row d i = Some a"
  obtains b where "attempt_row d' i = Some b" "attempt_move a b"
proof -
  from assms(3) have "a \<in> set (db_attempts d)" "att_ID a = i" by (auto dest: lookup_Some)
  with assms(1) obtain b where b: "b \<in> set (db_attempts d')" "attempt_move a b"
    by (auto simp: evolves_def)
  then have "attempt_row d' i = Some b"
    using lookup_distinct [OF wf_distinct(3) [OF assms(2)] b(1)] \<open>att_ID a = i\<close>
    by (simp add: attempt_move_def)
  with that b(2) show thesis by blast
qed

lemma reaches_terminal:
  "reaches r s \<Longrightarrow> isAttemptTerminalState r \<Longrightarrow> isAttemptTerminalState s"
  by (cases r; cases s) simp_all

text \<open>
  Terminal is final: once an attempt has been sent, failed, dead-lettered or scheduled for
  retry, then at any later moment, whatever the store did in between, activating it or ending
  it again reports \<open>ErrAttemptAlreadyFinalized\<close> and changes nothing.
\<close>

theorem terminal_is_final:
  assumes "attempt_row d i = Some a" "isAttemptTerminalState (att_Status a)"
    and "evolves d (w_db w)" "wf_db (w_db w)" "calm w"
  shows "fst (MarkAttemptInProgress i w) = Inl ErrAttemptAlreadyFinalized
      \<and> w_db (snd (MarkAttemptInProgress i w)) = w_db w
      \<and> fst (finish e i w) = Inl ErrAttemptAlreadyFinalized \<and> w_db (snd (finish e i w)) = w_db w"
proof -
  obtain b where b: "attempt_row (w_db w) i = Some b" "attempt_move a b"
    by (rule evolves_attempt_row [OF assms(3,4,1)])
  then have t: "isAttemptTerminalState (att_Status b)"
    using assms(2) reaches_terminal by (auto simp: attempt_move_def)
  have "outcome Pending active_columns activation_refusal i (w_db w)
      (fst (MarkAttemptInProgress i w)) (w_db (snd (MarkAttemptInProgress i w)))"
    by (rule activation_outcome [OF assms(4,5) prod.collapse [symmetric]])
  moreover have "outcome InProgress (ending_columns e) finish_refusal i (w_db w)
      (fst (finish e i w)) (w_db (snd (finish e i w)))"
    by (rule finish_outcome [OF assms(4,5) prod.collapse [symmetric]])
  ultimately show ?thesis using b(1) t
    by (cases "att_Status b") (simp_all add: outcome_def activation_refusal_def finish_refusal_def)
qed

theorem terminal_is_final_witness:
  "fst (MarkAttemptInProgress ''b'' sample2) = Inl ErrAttemptAlreadyFinalized
   \<and> w_db (snd (MarkAttemptInProgress ''b'' sample2)) = w_db sample2
   \<and> fst (finish (DeadWith ''e'') ''b'' sample2) = Inl ErrAttemptAlreadyFinalized
   \<and> w_db (snd (finish (DeadWith ''e'') ''b'' sample2)) = w_db sample2"
  by (rule terminal_is_final [where d = "w_db sample2" and a = "att_in ''b'' ''n'' 2 Sent",
        OF _ _ evolves_refl sample2_ok])
    (simp_all add: sample2_def sample_defs lookup_def)

subsection \<open>The status a reader sees\<close>

text \<open>
  \<open>deriveNotificationStatus\<close> depends only on the set of the attempts' states: not on their
  order, number or columns; a notification is delivered when something was sent and nothing
  else failed or is under way, and partially delivered when something else did.
\<close>

theorem deriveNotificationStatus_rollup:
  "deriveNotificationStatus as = rollup (att_Status ` set as)"
  by (rule derive_rollup)

text \<open>
  \<open>RecalculateNotificationStatus\<close> on a sound database: an unknown notification is
  \<open>ErrNotFound\<close>; otherwise it succeeds and changes one row, to cancelled when the notification
  was cancelled, else to the roll-up of its attempts in the tables, or to scheduled, the
  latter only for a notification with a schedule that has not been promoted.
\<close>

theorem RecalculateNotificationStatus_outcome:
  assumes "wf_db (w_db w)" "calm w" "RecalculateNotificationStatus i w = (r, w')"
  shows "case notification_row (w_db w) i of
      None \<Rightarrow> r = Inl ErrNotFound \<and> w_db w' = w_db w
    | Some n \<Rightarrow> r = Inr () \<and> (\<exists>s t. recalculated (w_db w) n s \<and> w_db w' = with_status i s t (w_db w))"
  using run_ends [OF run_Recalculate [OF assms(1)] assms(2,3)]
  by (auto split: sum.splits option.splits)

theorem RecalculateNotificationStatus_outcome_witness:
  "(\<exists>s t. recalculated (w_db sample2) ntf1 s
     \<and> w_db (snd (RecalculateNotificationStatus ''n'' sample2)) = with_status ''n'' s t (w_db sample2))
   \<and> map ntf_Status (db_notifications (w_db (snd (RecalculateNotificationStatus ''n'' sample2))))
       = [NPartiallyDelivered, NScheduled]"
proof (intro conjI)
  have "notification_row (w_db sample2) ''n'' = Some ntf1"
    by (simp add: sample2_def sample_defs lookup_def)
  then show "\<exists>s t. recalculated (w_db sample2) ntf1 s
     \<and> w_db (snd (RecalculateNotificationStatus ''n'' sample2)) = with_status ''n'' s t (w_db sample2)"
    using RecalculateNotificationStatus_outcome [OF sample2_ok prod.collapse [symmetric], of "''n''"]
    by simp
qed code_simp

end
