(* ===== verification/Store_Policy.thy ===== *)
theory Store_Policy
  imports Store_Lifecycle
begin

text \<open>
  Delivery policies: the rows, the precedence in which they are merged
  (\<open>ResolveDeliveryPolicy\<close>), and the same question asked in SQL by the statements that must
  skip paused work (\<open>sql_paused\<close>).
\<close>

subsection \<open>Methods\<close>

record resolved_policy =
  res_TenantID :: string
  res_Channel :: string
  res_Paused :: bool
  res_FailoverEnabled :: bool
  res_SchedulingEnabled :: bool
  res_ReplayAllowed :: bool
  res_MaxAttemptsOverride :: "int option"
  res_RetryBaseDelaySeconds :: "int option"
  res_RetryMaxDelaySeconds :: "int option"

record policy_params =
  upp_ID :: string
  upp_TenantID :: "string option"
  upp_Channel :: "string option"
  upp_Paused :: "bool option"
  upp_FailoverEnabled :: "bool option"
  upp_SchedulingEnabled :: "bool option"
  upp_ReplayAllowed :: "bool option"
  upp_MaxAttemptsOverride :: "int option"
  upp_RetryBaseDelaySeconds :: "int option"
  upp_RetryMaxDelaySeconds :: "int option"

text \<open>\<^verbatim>\<open>ORDER BY tenant_id NULLS FIRST, channel NULLS FIRST, created_at\<close>: \<open>None\<close> is least.\<close>

definition ListDeliveryPolicies :: "('x world_scheme, policy list) sm" where
  "ListDeliveryPolicies = query (\<lambda>_ d.
     sort_key (\<lambda>p. (pol_TenantID p, pol_Channel p, pol_CreatedAt p)) (db_policies d))"

definition GetDeliveryPolicyByID :: "string \<Rightarrow> ('x world_scheme, policy) sm" where
  "GetDeliveryPolicyByID i = or_not_found (query_row (\<lambda>_ d. filter (\<lambda>p. pol_ID p = i) (db_policies d)))"

definition policy_row :: "policy_params \<Rightarrow> time \<Rightarrow> time \<Rightarrow> policy" where
  "policy_row params created updated = \<lparr>pol_ID = upp_ID params, pol_TenantID = upp_TenantID params,
     pol_Channel = upp_Channel params, pol_Paused = upp_Paused params,
     pol_FailoverEnabled = upp_FailoverEnabled params,
     pol_SchedulingEnabled = upp_SchedulingEnabled params,
     pol_ReplayAllowed = upp_ReplayAllowed params,
     pol_MaxAttemptsOverride = upp_MaxAttemptsOverride params,
     pol_RetryBaseDelaySeconds = upp_RetryBaseDelaySeconds params,
     pol_RetryMaxDelaySeconds = upp_RetryMaxDelaySeconds params,
     pol_CreatedAt = created, pol_UpdatedAt = updated\<rparr>"

definition upsert_policy :: "policy_params \<Rightarrow> time \<Rightarrow> db \<Rightarrow> err + policy \<times> db" where
  "upsert_policy params now d = (case lookup pol_ID (upp_ID params) (db_policies d) of
     None \<Rightarrow> let p = policy_row params now now in
       constrained True (policy_check p) True (policy_refs d p)
         (p, d\<lparr>db_policies := db_policies d @ [p]\<rparr>)
   | Some old \<Rightarrow> let p = policy_row params (pol_CreatedAt old) now in
       constrained True (policy_check p) True (policy_refs d p)
         (p, d\<lparr>db_policies := update_where (\<lambda>r. pol_ID r = upp_ID params) (\<lambda>_. p) (db_policies d)\<rparr>))"

definition UpsertDeliveryPolicy :: "policy_params \<Rightarrow> ('x world_scheme, policy) sm" where
  "UpsertDeliveryPolicy params = or_wrapped (stmt (upsert_policy params))"

text \<open>\<^verbatim>\<open>UPDATE ... RETURNING\<close> gives the updated rows; the code reads the first.\<close>

definition SetDeliveryPolicyPaused :: "string \<Rightarrow> bool \<Rightarrow> ('x world_scheme, policy) sm" where
  "SetDeliveryPolicyPaused i paused = or_not_found (stmt (\<lambda>now d.
     let pause = (\<lambda>p. p\<lparr>pol_Paused := Some paused, pol_UpdatedAt := now\<rparr>) in
     case map pause (filter (\<lambda>p. pol_ID p = i) (db_policies d)) of
       [] \<Rightarrow> Inl SqlNoRows
     | p # _ \<Rightarrow> Inr (p, d\<lparr>db_policies := update_where (\<lambda>p. pol_ID p = i) pause (db_policies d)\<rparr>)))"

subsection \<open>Resolution\<close>

definition applyPolicyRow :: "resolved_policy \<Rightarrow> policy \<Rightarrow> resolved_policy" where
  "applyPolicyRow r p = r\<lparr>
     res_Paused := (case pol_Paused p of Some v \<Rightarrow> v | None \<Rightarrow> res_Paused r),
     res_FailoverEnabled := (case pol_FailoverEnabled p of Some v \<Rightarrow> v | None \<Rightarrow> res_FailoverEnabled r),
     res_SchedulingEnabled := (case pol_SchedulingEnabled p of Some v \<Rightarrow> v | None \<Rightarrow> res_SchedulingEnabled r),
     res_ReplayAllowed := (case pol_ReplayAllowed p of Some v \<Rightarrow> v | None \<Rightarrow> res_ReplayAllowed r),
     res_MaxAttemptsOverride := (case pol_MaxAttemptsOverride p of
       Some v \<Rightarrow> Some v | None \<Rightarrow> res_MaxAttemptsOverride r),
     res_RetryBaseDelaySeconds := (case pol_RetryBaseDelaySeconds p of
       Some v \<Rightarrow> Some v | None \<Rightarrow> res_RetryBaseDelaySeconds r),
     res_RetryMaxDelaySeconds := (case pol_RetryMaxDelaySeconds p of
       Some v \<Rightarrow> Some v | None \<Rightarrow> res_RetryMaxDelaySeconds r)\<rparr>"

definition default_policy :: "string \<Rightarrow> string \<Rightarrow> resolved_policy" where
  "default_policy t c = \<lparr>res_TenantID = t, res_Channel = c, res_Paused = False,
     res_FailoverEnabled = False, res_SchedulingEnabled = True, res_ReplayAllowed = True,
     res_MaxAttemptsOverride = None, res_RetryBaseDelaySeconds = None,
     res_RetryMaxDelaySeconds = None\<rparr>"

definition policy_rank :: "string \<Rightarrow> string \<Rightarrow> policy \<Rightarrow> int" where
  "policy_rank t c p =
     (if pol_TenantID p = Some t \<and> pol_Channel p = Some c then 1
      else if pol_TenantID p = Some t \<and> pol_Channel p = None then 2
      else if pol_TenantID p = None \<and> pol_Channel p = Some c then 3
      else 4)"

definition matching_policies :: "string \<Rightarrow> string \<Rightarrow> db \<Rightarrow> policy list" where
  "matching_policies t c d =
     sort_key (\<lambda>p. (policy_rank t c p, - pol_UpdatedAt p, - pol_CreatedAt p))
       (filter (\<lambda>p. (pol_TenantID p = Some t \<or> pol_TenantID p = None)
          \<and> (pol_Channel p = Some c \<or> pol_Channel p = None)) (db_policies d))"

text \<open>\<^verbatim>\<open>for i := len(ordered) - 1; i >= 0; i-- { applyPolicyRow(&resolved, ordered[i]) }\<close>\<close>

definition resolve :: "string \<Rightarrow> string \<Rightarrow> db \<Rightarrow> resolved_policy" where
  "resolve t c d = foldl applyPolicyRow (default_policy t c) (rev (matching_policies t c d))"

definition ResolveDeliveryPolicy :: "string \<Rightarrow> string \<Rightarrow> ('x world_scheme, resolved_policy) sm" where
  "ResolveDeliveryPolicy t c = query (\<lambda>_ d. resolve t c d)"

subsection \<open>The same question in SQL\<close>

text \<open>
  \<^verbatim>\<open>(SELECT paused FROM delivery_policies WHERE ... ORDER BY updated_at DESC LIMIT 1)\<close>: the
  value of the newest row of one scope, null when the row has none or there is no row.
\<close>

definition newest_paused :: "string option \<Rightarrow> string option \<Rightarrow> db \<Rightarrow> bool option" where
  "newest_paused t c d = (case sort_key (\<lambda>p. - pol_UpdatedAt p)
       (filter (\<lambda>p. pol_TenantID p = t \<and> pol_Channel p = c) (db_policies d)) of
     [] \<Rightarrow> None | p # _ \<Rightarrow> pol_Paused p)"

fun first_value :: "'a option list \<Rightarrow> 'a option" where
  "first_value [] = None"
| "first_value (None # vs) = first_value vs"
| "first_value (Some v # vs) = Some v"

definition sql_paused :: "string \<Rightarrow> string \<Rightarrow> db \<Rightarrow> bool" where
  "sql_paused t c d = coalesce (first_value
     [newest_paused (Some t) (Some c) d, newest_paused (Some t) None d,
      newest_paused None (Some c) d, newest_paused None None d]) False"

subsection \<open>They move the database forward\<close>

lemma moves_policies:
  assumes "wf_db d \<Longrightarrow> wf_db (d\<lparr>db_policies := ps\<rparr>)"
  shows "moves d (d\<lparr>db_policies := ps\<rparr>)"
  using assms by (intro movesI evolves_grow) simp_all

lemma wf_policies:
  "wf_db d \<Longrightarrow> distinct (map pol_ID ps) \<Longrightarrow> \<forall>p \<in> set ps. policy_check p \<and> policy_refs d p \<Longrightarrow>
     wf_db (d\<lparr>db_policies := ps\<rparr>)"
  by (simp add: wf_db_defs)

lemma moves_upsert: "upsert_policy params t d = Inr (p, d') \<Longrightarrow> moves d d'"
proof (cases "lookup pol_ID (upp_ID params) (db_policies d)")
  case None
  assume "upsert_policy params t d = Inr (p, d')"
  with None have d': "d' = d\<lparr>db_policies := db_policies d @ [p]\<rparr>"
    and p: "policy_check p" "policy_refs d p" "pol_ID p = upp_ID params"
    by (auto simp: upsert_policy_def Let_def constrained_Inr policy_row_def)
  from None p(3) have "pol_ID p \<notin> pol_ID ` set (db_policies d)" by (simp add: lookup_None)
  then show ?thesis
    unfolding d' using p
    by (intro moves_policies wf_policies) (auto simp: wf_db_defs)
next
  case (Some old)
  assume "upsert_policy params t d = Inr (p, d')"
  with Some have d': "d' = d\<lparr>db_policies := update_where (\<lambda>r. pol_ID r = upp_ID params) (\<lambda>_. p) (db_policies d)\<rparr>"
    and p: "policy_check p" "policy_refs d p" "pol_ID p = upp_ID params"
    by (auto simp: upsert_policy_def Let_def constrained_Inr policy_row_def)
  have "map pol_ID (update_where (\<lambda>r. pol_ID r = upp_ID params) (\<lambda>_. p) (db_policies d)) = map pol_ID (db_policies d)"
    by (rule update_where_key) (simp add: p)
  then show ?thesis
    unfolding d' using p
    by (intro moves_policies wf_policies) (auto simp: wf_db_defs all_update_where)
qed

lemma moves_policy_methods [moves_intros]:
  "obeys moves w_db ListDeliveryPolicies" "obeys moves w_db (GetDeliveryPolicyByID i)"
  "obeys moves w_db (ResolveDeliveryPolicy t c)" "obeys moves w_db (UpsertDeliveryPolicy params)"
  unfolding ListDeliveryPolicies_def GetDeliveryPolicyByID_def ResolveDeliveryPolicy_def
    UpsertDeliveryPolicy_def
  by (intro moves_intros mv.stmt; (erule moves_upsert)?)+

lemma moves_SetDeliveryPolicyPaused [moves_intros]: "obeys moves w_db (SetDeliveryPolicyPaused i b)"
  unfolding SetDeliveryPolicyPaused_def
proof (intro moves_intros mv.stmt)
  fix t :: time and d :: db and p d'
  let ?pause = "\<lambda>p. p\<lparr>pol_Paused := Some b, pol_UpdatedAt := t\<rparr>"
  assume "(let pause = ?pause in case map pause (filter (\<lambda>p. pol_ID p = i) (db_policies d)) of
     [] \<Rightarrow> Inl SqlNoRows
   | p # _ \<Rightarrow> Inr (p, d\<lparr>db_policies := update_where (\<lambda>p. pol_ID p = i) pause (db_policies d)\<rparr>)) = Inr (p, d')"
  then have d': "d' = d\<lparr>db_policies := update_where (\<lambda>p. pol_ID p = i) ?pause (db_policies d)\<rparr>"
    by (auto simp: Let_def split: list.splits)
  have "map pol_ID (update_where (\<lambda>p. pol_ID p = i) ?pause (db_policies d)) = map pol_ID (db_policies d)"
    by (rule update_where_key) simp
  then show "moves d d'"
    unfolding d'
    by (intro moves_policies wf_policies)
      (auto simp: wf_db_defs all_update_where policy_check_def policy_refs_def)
qed

subsection \<open>Precedence\<close>

lemma resolve_first_value:
  "res_Paused (foldl applyPolicyRow r (rev ps)) = coalesce (first_value (map pol_Paused ps)) (res_Paused r)"
  "res_FailoverEnabled (foldl applyPolicyRow r (rev ps)) =
     coalesce (first_value (map pol_FailoverEnabled ps)) (res_FailoverEnabled r)"
  "res_SchedulingEnabled (foldl applyPolicyRow r (rev ps)) =
     coalesce (first_value (map pol_SchedulingEnabled ps)) (res_SchedulingEnabled r)"
  "res_ReplayAllowed (foldl applyPolicyRow r (rev ps)) =
     coalesce (first_value (map pol_ReplayAllowed ps)) (res_ReplayAllowed r)"
  "res_MaxAttemptsOverride (foldl applyPolicyRow r (rev ps)) =
     (case first_value (map pol_MaxAttemptsOverride ps) of None \<Rightarrow> res_MaxAttemptsOverride r | v \<Rightarrow> v)"
  "res_RetryBaseDelaySeconds (foldl applyPolicyRow r (rev ps)) =
     (case first_value (map pol_RetryBaseDelaySeconds ps) of None \<Rightarrow> res_RetryBaseDelaySeconds r | v \<Rightarrow> v)"
  "res_RetryMaxDelaySeconds (foldl applyPolicyRow r (rev ps)) =
     (case first_value (map pol_RetryMaxDelaySeconds ps) of None \<Rightarrow> res_RetryMaxDelaySeconds r | v \<Rightarrow> v)"
  by (induction ps) (auto simp: applyPolicyRow_def coalesce_def split: option.splits)

lemma first_value_Cons: "first_value (v # vs) = (case v of None \<Rightarrow> first_value vs | Some _ \<Rightarrow> v)"
  by (cases v) simp_all

lemma first_value_append:
  "first_value (us @ vs) = (case first_value us of None \<Rightarrow> first_value vs | v \<Rightarrow> v)"
  by (induction us) (auto simp: first_value_Cons split: option.splits)

lemma first_value_Nones: "\<forall>v \<in> set vs. v = None \<Longrightarrow> first_value vs = None"
  by (induction vs) (auto simp: first_value_Cons)

text \<open>Each scope has a rank; the matching rows come rank by rank.\<close>

definition scope_rows :: "string option \<Rightarrow> string option \<Rightarrow> db \<Rightarrow> policy list" where
  "scope_rows t c d = filter (\<lambda>p. pol_TenantID p = t \<and> pol_Channel p = c) (db_policies d)"

definition applies_to :: "string \<Rightarrow> string \<Rightarrow> policy \<Rightarrow> bool" where
  "applies_to t c p = ((pol_TenantID p = Some t \<or> pol_TenantID p = None)
     \<and> (pol_Channel p = Some c \<or> pol_Channel p = None))"

definition precedence :: "string \<Rightarrow> string \<Rightarrow> policy \<Rightarrow> int \<times> int \<times> int" where
  "precedence t c p = (policy_rank t c p, - pol_UpdatedAt p, - pol_CreatedAt p)"

lemma matching_alt: "matching_policies t c d = sort_key (precedence t c) (filter (applies_to t c) (db_policies d))"
  by (simp add: matching_policies_def applies_to_def [abs_def] precedence_def [abs_def])

lemma first_value_Some:
  assumes "p \<in> set xs" "f p = Some v" "\<forall>q \<in> set xs. q \<noteq> p \<and> k q \<le> k p \<longrightarrow> f q = None"
  shows "first_value (map f (sort_key (k :: _ \<Rightarrow> _ :: linorder) xs)) = Some v"
proof -
  obtain us vs where split: "sort_key k xs = us @ p # vs" "p \<notin> set us"
    using split_list_first [of p "sort_key k xs"] assms(1) by auto
  have "sorted (map k (us @ p # vs))" using sorted_sort_key [of k xs] split by simp
  then have "\<forall>q \<in> set us. k q \<le> k p" by (auto simp: sorted_append)
  moreover have "set us \<subseteq> set xs" using split set_sort [of k xs] by (metis Un_iff set_append subsetI)
  ultimately have "\<forall>v \<in> set (map f us). v = None"
    using split(2) assms(3) by fastforce
  then show ?thesis using split assms(2) by (simp add: first_value_append first_value_Nones)
qed

lemma first_value_None: "\<forall>q \<in> set xs. f q = None \<Longrightarrow> first_value (map f (sort_key k xs)) = None"
  by (rule first_value_Nones) auto

lemmas resolve_fields = resolve_first_value [of "default_policy t c" "matching_policies t c d" for t c d,
  folded resolve_def]

text \<open>
  The row that decides a field, if there is one: it has a value, and no other row that applies
  and comes before it in the order has.
\<close>

definition decides :: "(policy \<Rightarrow> 'v option) \<Rightarrow> string \<Rightarrow> string \<Rightarrow> db \<Rightarrow> policy \<Rightarrow> bool" where
  "decides f t c d p = (p \<in> set (db_policies d) \<and> applies_to t c p \<and> f p \<noteq> None
     \<and> (\<forall>q \<in> set (db_policies d). applies_to t c q \<and> q \<noteq> p \<and> precedence t c q \<le> precedence t c p \<longrightarrow> f q = None))"

definition undecided :: "(policy \<Rightarrow> 'v option) \<Rightarrow> string \<Rightarrow> string \<Rightarrow> db \<Rightarrow> bool" where
  "undecided f t c d = (\<forall>q \<in> set (db_policies d). applies_to t c q \<longrightarrow> f q = None)"

lemma decides_first_value: "decides f t c d p \<Longrightarrow> first_value (map f (matching_policies t c d)) = f p"
  unfolding decides_def matching_alt using first_value_Some [of p "filter (applies_to t c) (db_policies d)" f _ "precedence t c"]
  by fastforce

lemma undecided_first_value: "undecided f t c d \<Longrightarrow> first_value (map f (matching_policies t c d)) = None"
  unfolding undecided_def matching_alt by (rule first_value_None) simp

lemma decides_value: "decides f t c d p \<Longrightarrow> Some (case f p of None \<Rightarrow> x | Some v \<Rightarrow> v) = f p"
  by (auto simp: decides_def)

lemma decides_value_case: "decides f t c d p \<Longrightarrow> (case f p of None \<Rightarrow> x | v \<Rightarrow> v) = f p"
  by (auto simp: decides_def)


definition pause_row :: "string \<Rightarrow> string option \<Rightarrow> string option \<Rightarrow> bool option \<Rightarrow> time \<Rightarrow> policy" where
  "pause_row i t c v u = \<lparr>pol_ID = i, pol_TenantID = t, pol_Channel = c, pol_Paused = v,
     pol_FailoverEnabled = None, pol_SchedulingEnabled = None, pol_ReplayAllowed = None,
     pol_MaxAttemptsOverride = None, pol_RetryBaseDelaySeconds = None,
     pol_RetryMaxDelaySeconds = None, pol_CreatedAt = 0, pol_UpdatedAt = u\<rparr>"

definition policies_db :: "policy list \<Rightarrow> db" where
  "policies_db ps = (sample_db Migrations [] [])\<lparr>db_policies := ps\<rparr>"


subsection \<open>The two readings of the pause flag\<close>

lemma newest_paused_one:
  "length (scope_rows t c d) \<le> 1 \<Longrightarrow> newest_paused t c d =
     (case scope_rows t c d of [] \<Rightarrow> None | p # _ \<Rightarrow> pol_Paused p)"
  by (cases "scope_rows t c d") (auto simp: newest_paused_def scope_rows_def)

lemma newest_paused_cases:
  assumes "length (scope_rows t c d) \<le> 1"
  shows "newest_paused t c d = Some v \<longleftrightarrow>
     (\<exists>p \<in> set (db_policies d). pol_TenantID p = t \<and> pol_Channel p = c \<and> pol_Paused p = Some v)"
    "newest_paused t c d = None \<longleftrightarrow>
     (\<forall>p \<in> set (db_policies d). pol_TenantID p = t \<and> pol_Channel p = c \<longrightarrow> pol_Paused p = None)"
proof -
  consider "scope_rows t c d = []" | p where "scope_rows t c d = [p]"
    using assms by (cases "scope_rows t c d") auto
  then have "newest_paused t c d = Some v \<longleftrightarrow> (\<exists>p \<in> set (scope_rows t c d). pol_Paused p = Some v)"
    "newest_paused t c d = None \<longleftrightarrow> (\<forall>p \<in> set (scope_rows t c d). pol_Paused p = None)"
    using newest_paused_one [OF assms] by (cases; simp)+
  then show "newest_paused t c d = Some v \<longleftrightarrow>
     (\<exists>p \<in> set (db_policies d). pol_TenantID p = t \<and> pol_Channel p = c \<and> pol_Paused p = Some v)"
    "newest_paused t c d = None \<longleftrightarrow>
     (\<forall>p \<in> set (db_policies d). pol_TenantID p = t \<and> pol_Channel p = c \<longrightarrow> pol_Paused p = None)"
    by (auto simp: scope_rows_def)
qed

lemma scope_unique:
  "length (scope_rows t c d) \<le> 1 \<Longrightarrow> p \<in> set (db_policies d) \<Longrightarrow> q \<in> set (db_policies d) \<Longrightarrow>
     pol_TenantID p = t \<Longrightarrow> pol_Channel p = c \<Longrightarrow> pol_TenantID q = t \<Longrightarrow> pol_Channel q = c \<Longrightarrow> p = q"
  by (cases "scope_rows t c d") (auto simp: scope_rows_def filter_eq_Cons_iff filter_empty_conv)

lemma resolve_wins:
  assumes one: "\<And>t' c'. length (scope_rows t' c' d) \<le> 1"
    and p: "p \<in> set (db_policies d)" "applies_to t c p" "pol_Paused p = Some v"
    and below: "\<And>q. q \<in> set (db_policies d) \<Longrightarrow> applies_to t c q \<Longrightarrow> policy_rank t c q < policy_rank t c p \<Longrightarrow>
       pol_Paused q = None"
  shows "res_Paused (resolve t c d) = v"
proof -
  have "pol_Paused q = None" if q: "q \<in> set (db_policies d)" "applies_to t c q" "q \<noteq> p"
    "precedence t c q \<le> precedence t c p" for q
  proof (cases "policy_rank t c q = policy_rank t c p")
    case True
    then have "pol_TenantID q = pol_TenantID p \<and> pol_Channel q = pol_Channel p"
      using p(2) q(2) by (auto simp: policy_rank_def applies_to_def split: if_splits)
    then have "q = p" using scope_unique [OF one] p(1) q(1) by blast
    with q(3) show ?thesis by simp
  next
    case False
    with q(4) have "policy_rank t c q < policy_rank t c p" by (auto simp: precedence_def less_eq_prod_def)
    with below q show ?thesis by blast
  qed
  then have "first_value (map pol_Paused (matching_policies t c d)) = Some v"
    unfolding matching_alt using p by (intro first_value_Some [of p]) auto
  then show ?thesis by (simp add: resolve_fields coalesce_def)
qed

text \<open>
  The SQL form of the pause flag, which decides what the outbox claims and the scheduler
  promotes, agrees with \<open>ResolveDeliveryPolicy\<close> when every scope has at most one row.
\<close>

theorem sql_paused_agrees:
  assumes one: "\<And>t' c'. length (scope_rows t' c' d) \<le> 1"
  shows "sql_paused t c d = res_Paused (resolve t c d)"
proof -
  note val = newest_paused_cases [OF one]
  have rank: "applies_to t c p \<Longrightarrow> policy_rank t c p = 1 \<and> pol_TenantID p = Some t \<and> pol_Channel p = Some c
      \<or> policy_rank t c p = 2 \<and> pol_TenantID p = Some t \<and> pol_Channel p = None
      \<or> policy_rank t c p = 3 \<and> pol_TenantID p = None \<and> pol_Channel p = Some c
      \<or> policy_rank t c p = 4 \<and> pol_TenantID p = None \<and> pol_Channel p = None" for p
    by (auto simp: policy_rank_def applies_to_def)
  have win: "res_Paused (resolve t c d) = v"
    if "p \<in> set (db_policies d)" "applies_to t c p" "pol_Paused p = Some v"
      "policy_rank t c p > 1 \<Longrightarrow> newest_paused (Some t) (Some c) d = None"
      "policy_rank t c p > 2 \<Longrightarrow> newest_paused (Some t) None d = None"
      "policy_rank t c p > 3 \<Longrightarrow> newest_paused None (Some c) d = None" for p v
  proof (rule resolve_wins [OF one that(1-3)])
    fix q assume "q \<in> set (db_policies d)" "applies_to t c q" "policy_rank t c q < policy_rank t c p"
    then show "pol_Paused q = None"
      using rank [of q] rank [OF that(2)] that(4-6) unfolding val(2) by fastforce
  qed
  let ?vs = "[newest_paused (Some t) (Some c) d, newest_paused (Some t) None d,
      newest_paused None (Some c) d, newest_paused None None d]"
  show ?thesis
  proof (cases "first_value ?vs")
    case None
    then have "\<forall>p \<in> set (db_policies d). applies_to t c p \<longrightarrow> pol_Paused p = None"
      unfolding first_value_Cons using rank val(2) by (fastforce split: option.splits)
    then have "first_value (map pol_Paused (matching_policies t c d)) = None"
      unfolding matching_alt by (intro first_value_None) auto
    with None show ?thesis by (simp add: sql_paused_def resolve_fields coalesce_def default_policy_def)
  next
    case (Some v)
    then consider "newest_paused (Some t) (Some c) d = Some v"
      | "newest_paused (Some t) (Some c) d = None" "newest_paused (Some t) None d = Some v"
      | "newest_paused (Some t) (Some c) d = None" "newest_paused (Some t) None d = None"
        "newest_paused None (Some c) d = Some v"
      | "newest_paused (Some t) (Some c) d = None" "newest_paused (Some t) None d = None"
        "newest_paused None (Some c) d = None" "newest_paused None None d = Some v"
      unfolding first_value_Cons by (fastforce split: option.splits)
    then have "res_Paused (resolve t c d) = v"
    proof cases
      case 1
      then obtain p where "p \<in> set (db_policies d)" "pol_TenantID p = Some t" "pol_Channel p = Some c"
        "pol_Paused p = Some v" unfolding val(1) by blast
      then show ?thesis by (intro win) (auto simp: applies_to_def policy_rank_def)
    next
      case 2
      then obtain p where "p \<in> set (db_policies d)" "pol_TenantID p = Some t" "pol_Channel p = None"
        "pol_Paused p = Some v" unfolding val(1) by blast
      then show ?thesis using 2(1) by (intro win) (auto simp: applies_to_def policy_rank_def)
    next
      case 3
      then obtain p where "p \<in> set (db_policies d)" "pol_TenantID p = None" "pol_Channel p = Some c"
        "pol_Paused p = Some v" unfolding val(1) by blast
      then show ?thesis using 3(1,2) by (intro win) (auto simp: applies_to_def policy_rank_def)
    next
      case 4
      then obtain p where "p \<in> set (db_policies d)" "pol_TenantID p = None" "pol_Channel p = None"
        "pol_Paused p = Some v" unfolding val(1) by blast
      then show ?thesis using 4(1-3) by (intro win) (auto simp: applies_to_def policy_rank_def)
    qed
    with Some show ?thesis by (simp add: sql_paused_def coalesce_def)
  qed
qed

theorem sql_paused_agrees_witness:
  "sql_paused ''t'' ''email'' (policies_db [pause_row ''g'' None None (Some True) 9,
       pause_row ''p'' (Some ''t'') None (Some False) 3])
   = res_Paused (resolve ''t'' ''email'' (policies_db [pause_row ''g'' None None (Some True) 9,
       pause_row ''p'' (Some ''t'') None (Some False) 3]))"
  by (rule sql_paused_agrees) (simp add: policies_db_def sample_defs pause_row_def scope_rows_def)

text \<open>
  No constraint keeps a scope to one row, and then the two readings can differ: with a
  paused global row and a newer global row that leaves the flag null, \<open>ResolveDeliveryPolicy\<close>
  answers paused (it skips the null), while the SQL reads only the newest row and answers
  not paused, so intents of a paused tenant are claimed.
\<close>

theorem paused_readings_differ:
  "\<exists>d. wf_db d \<and> \<not> sql_paused ''t'' ''email'' d \<and> res_Paused (resolve ''t'' ''email'' d)"
proof (intro exI conjI)
  let ?d = "policies_db [pause_row ''g'' None None (Some True) 3, pause_row ''h'' None None None 9]"
  show "wf_db ?d"
    by (simp add: policies_db_def sample_wf_defs policy_check_def policy_refs_def pause_row_def positive_or_null_def)
  show "\<not> sql_paused ''t'' ''email'' ?d" by code_simp
  show "res_Paused (resolve ''t'' ''email'' ?d)" by code_simp
qed

end
