(* ===== verification/Store_Dispatch.thy ===== *)
theory Store_Dispatch
  imports Store_Policy
begin

text \<open>
  How work comes to exist: notifications, attempts and the outbox rows (dispatch intents) that
  ask for publication, the initial dispatch with its repair path, dead letters and the audit
  trail.
\<close>

subsection \<open>Parameters\<close>

record notification_params =
  cnp_ID :: string
  cnp_TenantID :: string
  cnp_TemplateID :: string
  cnp_IdempotencyKey :: "string option"
  cnp_RecipientEmail :: "string option"
  cnp_RecipientWebhookURL :: "string option"
  cnp_SecondaryWebhookURL :: "string option"
  cnp_Variables :: json
  cnp_ScheduledFor :: "time option"

record attempt_params =
  cap_ID :: string
  cap_NotificationID :: string
  cap_Channel :: string
  cap_AttemptNumber :: int
  cap_Status :: attempt_status
  cap_NextRetryAt :: "time option"
  cap_LastError :: "string option"
  cap_DispatchEnqueuedAt :: "time option"
  cap_EnqueueKind :: string

record intent_params =
  cip_ID :: string
  cip_NotificationID :: string
  cip_AttemptID :: string
  cip_TenantID :: string
  cip_Channel :: string
  cip_Source :: string
  cip_Status :: "intent_status option"
  cip_PublishedAt :: "time option"

record dispatch_params =
  cdp_Notification :: notification_params
  cdp_Channel :: string
  cdp_AttemptID :: string
  cdp_IntentID :: string

subsection \<open>Notifications, attempts, intents\<close>

definition new_notification :: "notification_params \<Rightarrow> bool \<Rightarrow> time \<Rightarrow> notification" where
  "new_notification params later now = \<lparr>ntf_ID = cnp_ID params, ntf_TenantID = cnp_TenantID params,
     ntf_TemplateID = cnp_TemplateID params, ntf_IdempotencyKey = cnp_IdempotencyKey params,
     ntf_Status = (if later then NScheduled else NAccepted),
     ntf_RecipientEmail = cnp_RecipientEmail params,
     ntf_RecipientWebhookURL = cnp_RecipientWebhookURL params,
     ntf_SecondaryWebhookURL = cnp_SecondaryWebhookURL params,
     ntf_Variables = marshalVariables (cnp_Variables params),
     ntf_ScheduledFor = cnp_ScheduledFor params, ntf_PromotedAt = None, ntf_CancelledAt = None,
     ntf_SubmittedAt = now, ntf_UpdatedAt = now\<rparr>"

definition createNotificationTx :: "notification_params \<Rightarrow> ('x world_scheme, notification) sm" where
  "createNotificationTx params =
     andThen (is_later (cnp_ScheduledFor params)) (\<lambda>later.
     andThen (or_wrapped (insert_returning (new_notification params later) insert_notification))
       scanNotification)"

definition CreateNotification :: "notification_params \<Rightarrow> ('x world_scheme, notification) sm" where
  "CreateNotification params = createNotificationTx params"

definition new_attempt :: "attempt_params \<Rightarrow> time \<Rightarrow> attempt" where
  "new_attempt params now = \<lparr>att_ID = cap_ID params, att_NotificationID = cap_NotificationID params,
     att_Channel = cap_Channel params, att_AttemptNumber = cap_AttemptNumber params,
     att_Status = cap_Status params, att_ErrorCode = None, att_ErrorMessage = None,
     att_ProviderMessageID = None, att_LastError = cap_LastError params,
     att_NextRetryAt = cap_NextRetryAt params, att_StartedAt = None, att_CompletedAt = None,
     att_SentAt = None, att_FailedAt = None, att_DispatchEnqueuedAt = cap_DispatchEnqueuedAt params,
     att_EnqueueKind = cap_EnqueueKind params, att_ProviderUsed = None, att_FailoverUsed = False,
     att_DeadLetterID = None, att_ReplayOfDeadLetter = None, att_CreatedAt = now,
     att_UpdatedAt = now\<rparr>"

definition createDeliveryAttemptTx :: "attempt_params \<Rightarrow> ('x world_scheme, attempt) sm" where
  "createDeliveryAttemptTx params = or_wrapped (insert_returning (new_attempt params) insert_attempt)"

definition CreateDeliveryAttempt :: "attempt_params \<Rightarrow> ('x world_scheme, attempt) sm" where
  "CreateDeliveryAttempt params = createDeliveryAttemptTx params"

text \<open>The parameters of a pending attempt; \<^verbatim>\<open>Status: "pending"\<close> and nil pointers.\<close>

definition pending_attempt :: "string \<Rightarrow> string \<Rightarrow> string \<Rightarrow> int \<Rightarrow> string \<Rightarrow> attempt_params" where
  "pending_attempt i n c k kind = \<lparr>cap_ID = i, cap_NotificationID = n, cap_Channel = c,
     cap_AttemptNumber = k, cap_Status = Pending, cap_NextRetryAt = None, cap_LastError = None,
     cap_DispatchEnqueuedAt = None, cap_EnqueueKind = kind\<rparr>"

text \<open>An empty status string is \<open>None\<close> and means pending.\<close>

definition dispatchIntentStatusOrDefault :: "intent_status option \<Rightarrow> intent_status" where
  "dispatchIntentStatusOrDefault status = coalesce status IPending"

definition publishedIntentStatus :: "time option \<Rightarrow> intent_status" where
  "publishedIntentStatus publishedAt = (if publishedAt \<noteq> None then IPublished else IPending)"

definition new_intent :: "intent_params \<Rightarrow> time \<Rightarrow> intent" where
  "new_intent params now = \<lparr>int_ID = cip_ID params, int_NotificationID = cip_NotificationID params,
     int_AttemptID = cip_AttemptID params, int_TenantID = cip_TenantID params,
     int_Channel = cip_Channel params, int_Source = cip_Source params,
     int_Status = dispatchIntentStatusOrDefault (cip_Status params), int_LastError = None,
     int_CreatedAt = now, int_ClaimedAt = None, int_PublishedAt = cip_PublishedAt params\<rparr>"

definition createDispatchIntentTx :: "intent_params \<Rightarrow> ('x world_scheme, intent) sm" where
  "createDispatchIntentTx params = or_wrapped (andThen
     (insert_unless (\<lambda>d i. int_AttemptID i \<in> int_AttemptID ` set (db_outbox d))
        (\<lambda>i. channel_ok (int_Channel i)) (new_intent params) insert_intent) (\<lambda>inserted.
     case inserted of Some i \<Rightarrow> return i
     | None \<Rightarrow> query_row (\<lambda>_ d.
         filter (\<lambda>i. int_AttemptID i = cip_AttemptID params) (db_outbox d))))"

definition CreateDispatchIntent :: "intent_params \<Rightarrow> ('x world_scheme, intent) sm" where
  "CreateDispatchIntent params = createDispatchIntentTx params"

subsection \<open>The initial dispatch\<close>

definition CreateNotificationWithInitialDispatch ::
  "dispatch_params \<Rightarrow> ('x world_scheme, notification \<times> attempt \<times> intent option) sm" where
  "CreateNotificationWithInitialDispatch params =
     andThen (transaction (
       andThen (createNotificationTx (cdp_Notification params)) (\<lambda>n.
       andThen (createDeliveryAttemptTx (pending_attempt (cdp_AttemptID params) (ntf_ID n)
         (cdp_Channel params) 1 ''initial'')) (\<lambda>a.
       andThen (is_later (ntf_ScheduledFor n)) (\<lambda>later.
       if later then commit_with (n, a, None)
       else andThen (createDispatchIntentTx \<lparr>cip_ID = cdp_IntentID params,
           cip_NotificationID = ntf_ID n, cip_AttemptID = att_ID a, cip_TenantID = ntf_TenantID n,
           cip_Channel = cdp_Channel params, cip_Source = ''initial'', cip_Status = None,
           cip_PublishedAt = None\<rparr>) (\<lambda>i. commit_with (n, a, Some i))))))) (\<lambda>(n, a, i).
     andThen (case i of None \<Rightarrow> return ()
        | Some itn \<Rightarrow> if int_ID itn \<noteq> [] then RecalculateNotificationStatus (ntf_ID n) else return ()) (\<lambda>_.
     andThen (GetNotificationByID (ntf_ID n)) (\<lambda>n'. return (n', a, i))))"

definition EnsureInitialAttempt ::
  "string \<Rightarrow> string \<Rightarrow> string \<Rightarrow> string \<Rightarrow> ('x world_scheme, attempt \<times> intent) sm" where
  "EnsureInitialAttempt notificationID channel attemptID intentID =
     andThen (transaction (
       andThen (or_not_found (query_row (\<lambda>_ d. map ntf_TenantID
         (filter (\<lambda>n. ntf_ID n = notificationID) (db_notifications d))))) (\<lambda>tenantID.
       andThen (or_wrapped (insert_unless
         (\<lambda>d a. attempt_key a \<in> attempt_key ` set (db_attempts d))
         (\<lambda>a. att_AttemptNumber a > 0 \<and> channel_ok (att_Channel a))
         (new_attempt (pending_attempt attemptID notificationID channel 1 ''initial''))
         insert_attempt)) (\<lambda>_.
       andThen (or_not_found (query_row (\<lambda>_ d. take 1 (map scanDeliveryAttempt
         (filter (\<lambda>a. attempt_key a = (notificationID, channel, 1)) (db_attempts d)))))) (\<lambda>a.
       andThen (or_wrapped (createDispatchIntentTx \<lparr>cip_ID = intentID,
           cip_NotificationID = att_NotificationID a, cip_AttemptID = att_ID a,
           cip_TenantID = tenantID, cip_Channel = att_Channel a, cip_Source = ''initial'',
           cip_Status = Some (publishedIntentStatus (att_DispatchEnqueuedAt a)),
           cip_PublishedAt = att_DispatchEnqueuedAt a\<rparr>)) (\<lambda>i.
       commit_with (a, i))))))) (\<lambda>(a, i).
     andThen (RecalculateNotificationStatus notificationID) (\<lambda>_. return (a, i)))"

subsection \<open>Dead letters and the audit trail\<close>

definition InsertDeadLetter ::
  "string \<Rightarrow> string \<Rightarrow> string \<Rightarrow> string \<Rightarrow> ('x world_scheme, dead_letter) sm" where
  "InsertDeadLetter i n c e = or_wrapped (insert_returning (\<lambda>now.
     \<lparr>dl_ID = i, dl_NotificationID = n, dl_Channel = c, dl_FinalError = e, dl_DeadLetteredAt = now,
      dl_ReplayedAt = None, dl_ReplayAttemptID = None\<rparr>) insert_dead_letter)"

text \<open>A limit that is not positive becomes the default of the method.\<close>

definition limit_or :: "int \<Rightarrow> int \<Rightarrow> nat" where
  "limit_or dflt limit = nat (if limit \<le> 0 then dflt else limit)"

definition ListDeadLetters :: "int \<Rightarrow> ('x world_scheme, dead_letter list) sm" where
  "ListDeadLetters limit = query (\<lambda>_ d.
     take (limit_or 100 limit) (sort_key (\<lambda>l. - dl_DeadLetteredAt l) (db_dead_letters d)))"

definition GetDeadLetterByID :: "string \<Rightarrow> ('x world_scheme, dead_letter) sm" where
  "GetDeadLetterByID i = or_not_found (query_row (\<lambda>_ d. filter (\<lambda>l. dl_ID l = i) (db_dead_letters d)))"

definition RecordAuditEvent ::
  "string \<Rightarrow> string \<Rightarrow> string \<Rightarrow> string \<Rightarrow> string \<Rightarrow> string \<Rightarrow> json \<Rightarrow> ('x world_scheme, unit) sm" where
  "RecordAuditEvent i tenantID actor action resourceType resourceID metadata =
     andThen (or_wrapped (insert_returning (\<lambda>now. \<lparr>aud_ID = i, aud_TenantID = tenantID,
       aud_Actor = actor, aud_Action = action, aud_ResourceType = resourceType,
       aud_ResourceID = resourceID, aud_Metadata = marshalVariables metadata,
       aud_CreatedAt = now\<rparr>) insert_audit)) (\<lambda>_. return ())"

subsection \<open>They move the database forward\<close>

lemma new_rows_ok:
  "notification_ok (new_notification np later t)"
  "attempt_ok (new_attempt (pending_attempt i n c k kind) t)"
  "\<lbrakk>cip_Status ip = Some IPublished \<longrightarrow> cip_PublishedAt ip \<noteq> None; cip_Status ip \<noteq> Some IPublishing\<rbrakk>
     \<Longrightarrow> intent_ok (new_intent ip t)"
  by (auto simp: new_notification_def notification_ok_def new_attempt_def pending_attempt_def
    attempt_ok_def new_intent_def intent_ok_def dispatchIntentStatusOrDefault_def coalesce_def
    split: option.splits)

text \<open>An intent asked for with the status the code derives from the time of publication.\<close>

definition intent_params_ok :: "intent_params \<Rightarrow> bool" where
  "intent_params_ok ip = (cip_Status ip = None
     \<or> cip_Status ip = Some (publishedIntentStatus (cip_PublishedAt ip)))"

lemma intent_params_okI:
  "cip_Status ip = None \<Longrightarrow> intent_params_ok ip"
  "cip_Status ip = Some (publishedIntentStatus (cip_PublishedAt ip)) \<Longrightarrow> intent_params_ok ip"
  by (simp_all add: intent_params_ok_def)

lemma intent_params_ok_new: "intent_params_ok ip \<Longrightarrow> intent_ok (new_intent ip t)"
  by (rule new_rows_ok) (auto simp: intent_params_ok_def publishedIntentStatus_def split: if_splits)

lemma moves_createNotificationTx [moves_intros]: "obeys moves w_db (createNotificationTx np)"
  unfolding createNotificationTx_def by (intro moves_intros new_rows_ok)

lemma moves_createDeliveryAttemptTx [moves_intros]:
  "obeys moves w_db (createDeliveryAttemptTx (pending_attempt i n c k kind))"
  unfolding createDeliveryAttemptTx_def by (intro moves_intros new_rows_ok)

lemma moves_createDispatchIntentTx [moves_intros]:
  "intent_params_ok ip \<Longrightarrow> obeys moves w_db (createDispatchIntentTx ip)"
  unfolding createDispatchIntentTx_def by (intro moves_intros intent_params_ok_new)

lemma moves_creations [moves_intros]:
  "obeys moves w_db (CreateNotification np)"
  "intent_params_ok ip \<Longrightarrow> obeys moves w_db (CreateDispatchIntent ip)"
  "(\<And>t. attempt_ok (new_attempt ap t)) \<Longrightarrow> obeys moves w_db (CreateDeliveryAttempt ap)"
  unfolding CreateNotification_def CreateDispatchIntent_def CreateDeliveryAttempt_def
    createDeliveryAttemptTx_def
  by (intro moves_intros | simp)+

lemma moves_CreateNotificationWithInitialDispatch [moves_intros]:
  "obeys moves w_db (CreateNotificationWithInitialDispatch dp)"
  unfolding CreateNotificationWithInitialDispatch_def
  by (intro moves_intros intent_params_okI(1)) simp

lemma moves_EnsureInitialAttempt [moves_intros]:
  "obeys moves w_db (EnsureInitialAttempt nid c aid iid)"
  unfolding EnsureInitialAttempt_def
  by (intro moves_intros new_rows_ok intent_params_okI(2)) simp

lemma moves_records [moves_intros]:
  "obeys moves w_db (InsertDeadLetter i n c e)" "obeys moves w_db (ListDeadLetters l)"
  "obeys moves w_db (GetDeadLetterByID i)" "obeys moves w_db (RecordAuditEvent i tn ac an rt ri md)"
  unfolding InsertDeadLetter_def ListDeadLetters_def GetDeadLetterByID_def RecordAuditEvent_def
  by (intro moves_intros)+

end
