(* ===== verification/Store_Outbox.thy ===== *)
theory Store_Outbox
  imports Store_Dispatch
begin

text \<open>
  The outbox: publishers lease batches of dispatch intents (\<open>ClaimPendingDispatchIntents\<close>),
  and report with the time of their lease whether publication worked.
\<close>

subsection \<open>Leases\<close>

record claimed_intent =
  cli_Intent :: intent
  cli_DeadLetterID :: "string option"

text \<open>\<^verbatim>\<open>int(staleAfter / time.Second)\<close>, at least one.\<close>

definition stale_seconds :: "duration \<Rightarrow> int" where
  "stale_seconds staleAfter = (let s = staleAfter div second in if s = 0 then 1 else s)"

definition claimable :: "int \<Rightarrow> time \<Rightarrow> db \<Rightarrow> intent \<Rightarrow> bool" where
  "claimable secs now d i =
     ((int_Status i = IPending
       \<or> (int_Status i = IPublishing \<and> (case int_ClaimedAt i of
            None \<Rightarrow> False | Some c \<Rightarrow> c \<le> now - secs * second)))
      \<and> \<not> sql_paused (int_TenantID i) (int_Channel i) d)"

definition claim_ids :: "nat \<Rightarrow> int \<Rightarrow> time \<Rightarrow> db \<Rightarrow> string list" where
  "claim_ids limit secs now d =
     map int_ID (take limit (sort_key int_CreatedAt (filter (claimable secs now d) (db_outbox d))))"

definition claimed_row :: "time \<Rightarrow> intent \<Rightarrow> intent" where
  "claimed_row now i = i\<lparr>int_Status := IPublishing, int_ClaimedAt := Some now\<rparr>"

definition with_dead_letters :: "db \<Rightarrow> intent \<Rightarrow> claimed_intent list" where
  "with_dead_letters d i = (case filter (\<lambda>l. dl_ReplayAttemptID l = Some (int_AttemptID i)) (db_dead_letters d) of
     [] \<Rightarrow> [\<lparr>cli_Intent = i, cli_DeadLetterID = None\<rparr>]
   | ls \<Rightarrow> map (\<lambda>l. \<lparr>cli_Intent = i, cli_DeadLetterID = Some (dl_ID l)\<rparr>) ls)"

definition claim :: "nat \<Rightarrow> int \<Rightarrow> time \<Rightarrow> db \<Rightarrow> claimed_intent list \<times> db" where
  "claim limit secs now d = (let chosen = (\<lambda>i. int_ID i \<in> set (claim_ids limit secs now d)) in
     (concat (map (with_dead_letters d) (sort_key int_CreatedAt
        (map (claimed_row now) (filter chosen (db_outbox d))))),
      d\<lparr>db_outbox := update_where chosen (claimed_row now) (db_outbox d)\<rparr>))"

definition ClaimPendingDispatchIntents ::
  "int \<Rightarrow> duration \<Rightarrow> ('x world_scheme, claimed_intent list) sm" where
  "ClaimPendingDispatchIntents limit staleAfter =
     (if staleAfter \<le> 0 then fail (ErrText ''claim pending dispatch intents: staleAfter must be positive'')
      else stmt (\<lambda>now d. Inr (claim (limit_or 100 limit) (stale_seconds staleAfter) now d)))"

subsection \<open>Reports\<close>

text \<open>\<^verbatim>\<open>UPDATE dispatch_outbox ... RETURNING\<close>, read by \<^verbatim>\<open>QueryRow\<close>.\<close>

definition update_outbox_returning ::
  "(intent \<Rightarrow> bool) \<Rightarrow> (time \<Rightarrow> intent \<Rightarrow> intent) \<Rightarrow> ('x world_scheme, intent) sm" where
  "update_outbox_returning P f = stmt (\<lambda>now d. case map (f now) (filter P (db_outbox d)) of
     [] \<Rightarrow> Inl SqlNoRows
   | i # _ \<Rightarrow> Inr (i, d\<lparr>db_outbox := update_where P (f now) (db_outbox d)\<rparr>))"

definition leased :: "string \<Rightarrow> time \<Rightarrow> intent \<Rightarrow> bool" where
  "leased intentID claimedAt i =
     (int_ID i = intentID \<and> int_Status i = IPublishing \<and> int_ClaimedAt i = Some claimedAt)"

definition published_row :: "time \<Rightarrow> intent \<Rightarrow> intent" where
  "published_row now i = i\<lparr>int_Status := IPublished, int_ClaimedAt := None,
     int_PublishedAt := Some (coalesce (int_PublishedAt i) now), int_LastError := None\<rparr>"

definition enqueued_row :: "time \<Rightarrow> attempt \<Rightarrow> attempt" where
  "enqueued_row now a = a\<lparr>att_DispatchEnqueuedAt := Some (coalesce (att_DispatchEnqueuedAt a) now),
     att_UpdatedAt := now\<rparr>"

definition replayed_row :: "time \<Rightarrow> dead_letter \<Rightarrow> dead_letter" where
  "replayed_row now l = l\<lparr>dl_ReplayedAt := Some (coalesce (dl_ReplayedAt l) now)\<rparr>"

definition MarkDispatchIntentPublished :: "string \<Rightarrow> time \<Rightarrow> ('x world_scheme, unit) sm" where
  "MarkDispatchIntentPublished intentID claimedAt = transaction (
     handle (update_outbox_returning (leased intentID claimedAt) published_row)
       (\<lambda>e. if e = SqlNoRows then
          andThen (or_not_found (query_row (\<lambda>_ d.
            filter (\<lambda>i. int_ID i = intentID) (db_outbox d)))) (\<lambda>i.
          if int_Status i = IPublished then commit_with () else fail ErrInvalidStateTransition)
        else fail e)
       (\<lambda>i. andThen (update_attempts (\<lambda>_ _ a. att_ID a = int_AttemptID i) enqueued_row) (\<lambda>_.
            andThen (if int_Source i = ''replay'' then
                andThen (update_dead_letters (\<lambda>_ _ l. dl_ReplayAttemptID l = Some (int_AttemptID i))
                  replayed_row) (\<lambda>_. return ())
              else return ()) (\<lambda>_.
            commit_with ()))))"

definition released_row :: "string \<Rightarrow> intent \<Rightarrow> intent" where
  "released_row lastError i = i\<lparr>int_Status := IPending, int_ClaimedAt := None,
     int_LastError := Some lastError\<rparr>"

definition RecordDispatchIntentError :: "string \<Rightarrow> time \<Rightarrow> string \<Rightarrow> ('x world_scheme, unit) sm" where
  "RecordDispatchIntentError intentID claimedAt lastError =
     andThen (update_outbox (\<lambda>_ _. leased intentID claimedAt) (\<lambda>_. released_row lastError)) (\<lambda>rows.
     if rows = 0 then
       andThen (or_not_found (query_row (\<lambda>_ d.
         map int_Status (filter (\<lambda>i. int_ID i = intentID) (db_outbox d))))) (\<lambda>status.
       if status = IPublished then return () else fail ErrInvalidStateTransition)
     else return ())"

subsection \<open>The older enqueue surface\<close>

record pending_enqueue =
  peq_Attempt :: attempt
  peq_TenantID :: string
  peq_DeadLetterID :: "string option"

definition attempts_pending_enqueue :: "db \<Rightarrow> pending_enqueue list" where
  "attempts_pending_enqueue d = concat (map (\<lambda>a. concat (map (\<lambda>n. map (\<lambda>l.
       \<lparr>peq_Attempt = scanDeliveryAttempt a, peq_TenantID = ntf_TenantID n, peq_DeadLetterID = l\<rparr>)
       (replays_of d a)) (filter (\<lambda>n. ntf_ID n = att_NotificationID a) (db_notifications d))))
     (sort_key att_CreatedAt (filter (\<lambda>a. att_Status a = Pending \<and> att_DispatchEnqueuedAt a = None
        \<and> att_EnqueueKind a \<in> {''initial'', ''retry'', ''replay''}) (db_attempts d))))"

definition ListAttemptsPendingEnqueue :: "int \<Rightarrow> ('x world_scheme, pending_enqueue list) sm" where
  "ListAttemptsPendingEnqueue limit = query (\<lambda>_ d. take (limit_or 100 limit) (attempts_pending_enqueue d))"

definition MarkAttemptEnqueued :: "string \<Rightarrow> ('x world_scheme, unit) sm" where
  "MarkAttemptEnqueued attemptID =
     andThen (update_attempts (\<lambda>_ _ a. att_ID a = attemptID) enqueued_row) (\<lambda>rows.
     if rows = 0 then fail ErrNotFound else return ())"

definition FinalizeReplayEnqueue :: "string \<Rightarrow> string \<Rightarrow> ('x world_scheme, unit) sm" where
  "FinalizeReplayEnqueue deadLetterID attemptID = transaction (
     andThen (update_attempts (\<lambda>_ _ a. att_ID a = attemptID) enqueued_row) (\<lambda>_.
     andThen (update_dead_letters (\<lambda>_ _ l. dl_ID l = deadLetterID \<and> dl_ReplayAttemptID l = Some attemptID)
       replayed_row) (\<lambda>_.
     commit_with ())))"

subsection \<open>They move the database forward\<close>

lemma row_frames [simp]:
  "intent_frame i (claimed_row t i)" "intent_frame i (published_row t i)"
  "intent_frame i (released_row e i)" "dead_letter_frame l (replayed_row t l)"
  "attempt_move a (enqueued_row t a)" "attempt_ok (enqueued_row t a) = attempt_ok a"
  "intent_ok (claimed_row t i)" "intent_ok (published_row t i)" "intent_ok (released_row e i)"
  by (simp_all add: claimed_row_def published_row_def released_row_def replayed_row_def
    enqueued_row_def intent_frame_def dead_letter_frame_def attempt_move_def attempt_key_def
    attempt_ok_def intent_ok_def)

lemma moves_Claim [moves_intros]: "obeys moves w_db (ClaimPendingDispatchIntents l s)"
  unfolding ClaimPendingDispatchIntents_def
  by (intro moves_intros mv.stmt)
    (auto simp: claim_def Let_def intro!: moves_update_outbox_db)

lemma moves_update_outbox_returning:
  "(\<And>t i. P i \<Longrightarrow> intent_frame i (f t i)) \<Longrightarrow> (\<And>t i. P i \<Longrightarrow> intent_ok i \<Longrightarrow> intent_ok (f t i)) \<Longrightarrow>
     obeys moves w_db (update_outbox_returning P f)"
  unfolding update_outbox_returning_def
  by (rule mv.stmt) (auto split: list.splits intro!: moves_update_outbox_db)

lemma moves_reports [moves_intros]:
  "obeys moves w_db (MarkDispatchIntentPublished i t)"
  "obeys moves w_db (RecordDispatchIntentError i t e)"
  "obeys moves w_db (ListAttemptsPendingEnqueue l)"
  "obeys moves w_db (MarkAttemptEnqueued a)"
  "obeys moves w_db (FinalizeReplayEnqueue dl a)"
  unfolding MarkDispatchIntentPublished_def RecordDispatchIntentError_def
    ListAttemptsPendingEnqueue_def MarkAttemptEnqueued_def FinalizeReplayEnqueue_def
  by (intro moves_intros moves_update_outbox_returning moves_update_outbox moves_update_attempts
    moves_update_dead_letters; simp)+

end
