(* ===== verification/Store_Retry.thy ===== *)
theory Store_Retry
  imports Store_Outbox
begin

text \<open>
  Retries and replays: the attempt that follows a scheduled retry or a dead letter, made
  together with its dispatch intent (\<open>EnsureRetryAttempt\<close>, \<open>EnsureReplayAttempt\<close>), and the two
  older methods that make it alone.
\<close>

subsection \<open>Reading\<close>

record retry_due =
  rda_Attempt :: attempt
  rda_NotificationID :: string
  rda_TenantID :: string

record replay_result =
  rdl_DeadLetter :: dead_letter
  rdl_Attempt :: attempt

text \<open>The sixteen columns of the older listings leave out the enqueue columns too.\<close>

definition scan16 :: "attempt \<Rightarrow> attempt" where
  "scan16 a = (scanDeliveryAttempt a)\<lparr>att_DispatchEnqueuedAt := None, att_EnqueueKind := ''''\<rparr>"

definition with_tenant :: "(attempt \<Rightarrow> attempt) \<Rightarrow> db \<Rightarrow> attempt \<Rightarrow> retry_due list" where
  "with_tenant scan d a = map (\<lambda>n. \<lparr>rda_Attempt = scan a, rda_NotificationID = att_NotificationID a,
      rda_TenantID = ntf_TenantID n\<rparr>)
     (filter (\<lambda>n. ntf_ID n = att_NotificationID a) (db_notifications d))"

definition retry_due_at :: "time \<Rightarrow> attempt \<Rightarrow> bool" where
  "retry_due_at now a = (att_Status a = RetryScheduled
     \<and> (case att_NextRetryAt a of None \<Rightarrow> False | Some t \<Rightarrow> t \<le> now))"

definition ListDueRetryAttempts :: "int \<Rightarrow> ('x world_scheme, retry_due list) sm" where
  "ListDueRetryAttempts limit = query (\<lambda>now d. take (limit_or 50 limit) (concat (map (with_tenant scan16 d)
     (sort_key (\<lambda>a. (att_NextRetryAt a, att_CreatedAt a)) (filter (retry_due_at now) (db_attempts d))))))"

definition getAttemptByIDTx :: "string \<Rightarrow> ('x world_scheme, attempt) sm" where
  "getAttemptByIDTx i = or_not_found (query_row (\<lambda>_ d.
     map scanDeliveryAttempt (filter (\<lambda>a. att_ID a = i) (db_attempts d))))"

text \<open>\<^verbatim>\<open>if err != nil && !errors.Is(err, ErrNotFound) { return err }\<close>: the attempt, if there is one.\<close>

definition existing_attempt :: "string \<Rightarrow> ('x world_scheme, attempt option) sm" where
  "existing_attempt i = handle (getAttemptByIDTx i)
     (\<lambda>e. if e = ErrNotFound then return None else fail e) (\<lambda>a. return (Some a))"

text \<open>
  \<^verbatim>\<open>Status != "retry_scheduled" || NextRetryAt == nil || NextRetryAt.After(time.Now().UTC())\<close>
\<close>

definition not_due :: "attempt \<Rightarrow> ('x world_scheme, bool) sm" where
  "not_due a = (if att_Status a \<noteq> RetryScheduled then return True
     else case att_NextRetryAt a of None \<Rightarrow> return True | Some t \<Rightarrow> is_later (Some t))"

definition retried_row :: "time \<Rightarrow> attempt \<Rightarrow> attempt" where
  "retried_row now a = a\<lparr>att_Status := Failed, att_NextRetryAt := None, att_UpdatedAt := now\<rparr>"

definition fail_prior :: "attempt \<Rightarrow> string \<Rightarrow> ('x world_scheme, unit) sm" where
  "fail_prior prior i = (if att_Status prior = RetryScheduled then
       andThen (update_attempts (\<lambda>_ _ a. att_ID a = i \<and> att_Status a = RetryScheduled) retried_row)
         (\<lambda>_. return ())
     else return ())"

text \<open>The intent both methods ask for; its identifier is made from the attempt's.\<close>

definition ensured_intent :: "attempt \<Rightarrow> string \<Rightarrow> string \<Rightarrow> intent_params" where
  "ensured_intent a tenantID source = \<lparr>cip_ID = ''intent-'' @ att_ID a,
     cip_NotificationID = att_NotificationID a, cip_AttemptID = att_ID a, cip_TenantID = tenantID,
     cip_Channel = att_Channel a, cip_Source = source,
     cip_Status = Some (publishedIntentStatus (att_DispatchEnqueuedAt a)),
     cip_PublishedAt = att_DispatchEnqueuedAt a\<rparr>"

subsection \<open>The retry\<close>

definition EnsureRetryAttempt :: "string \<Rightarrow> string \<Rightarrow> ('x world_scheme, retry_due) sm" where
  "EnsureRetryAttempt scheduledAttemptID newAttemptID =
     andThen (transaction (
       andThen (or_not_found (query_row (\<lambda>_ d. concat (map (with_tenant scanDeliveryAttempt d)
         (filter (\<lambda>a. att_ID a = scheduledAttemptID) (db_attempts d)))))) (\<lambda>item.
       andThen (existing_attempt newAttemptID) (\<lambda>child.
       andThen (case child of Some a \<Rightarrow> return (a, False)
         | None \<Rightarrow> andThen (not_due (rda_Attempt item)) (\<lambda>early.
             if early then fail ErrNotFound
             else andThen (createDeliveryAttemptTx (pending_attempt newAttemptID
                 (att_NotificationID (rda_Attempt item)) (att_Channel (rda_Attempt item))
                 (att_AttemptNumber (rda_Attempt item) + 1) ''retry'')) (\<lambda>a. return (a, True)))) (\<lambda>(a, created).
       andThen (createDispatchIntentTx (ensured_intent a (rda_TenantID item) ''retry'')) (\<lambda>_.
       andThen (fail_prior (rda_Attempt item) scheduledAttemptID) (\<lambda>_.
       commit_with (item, a, created)))))))) (\<lambda>(item, a, created).
     andThen (if created then RecalculateNotificationStatus (rda_NotificationID item) else return ()) (\<lambda>_.
     return (item\<lparr>rda_Attempt := a\<rparr>)))"

text \<open>
  The older method returns sixteen columns and scans them into eighteen destinations, which
  \<^verbatim>\<open>database/sql\<close> refuses after the insert was executed.
\<close>

definition FinalizeRetryDispatch :: "string \<Rightarrow> string \<Rightarrow> ('x world_scheme, retry_due) sm" where
  "FinalizeRetryDispatch scheduledAttemptID newAttemptID = transaction (
     andThen (or_not_found (query_row (\<lambda>_ d. concat (map (with_tenant scan16 d)
       (filter (\<lambda>a. att_ID a = scheduledAttemptID) (db_attempts d)))))) (\<lambda>item.
     andThen (existing_attempt newAttemptID) (\<lambda>child.
     andThen (case child of Some a \<Rightarrow> return a
       | None \<Rightarrow> andThen (not_due (rda_Attempt item)) (\<lambda>early.
           if early then fail ErrNotFound
           else andThen (or_wrapped (insert_returning (new_attempt (pending_attempt newAttemptID
               (att_NotificationID (rda_Attempt item)) (att_Channel (rda_Attempt item))
               (att_AttemptNumber (rda_Attempt item) + 1) ''initial'')) insert_attempt)) (\<lambda>_.
             fail SqlScanArity))) (\<lambda>a.
     andThen (fail_prior (rda_Attempt item) scheduledAttemptID) (\<lambda>_.
     commit_with (item\<lparr>rda_Attempt := a\<rparr>))))))"

subsection \<open>The replay\<close>

definition next_attempt_number :: "string \<Rightarrow> string \<Rightarrow> db \<Rightarrow> int" where
  "next_attempt_number n c d = foldl max 0 (map att_AttemptNumber
     (filter (\<lambda>a. att_NotificationID a = n \<and> att_Channel a = c) (db_attempts d))) + 1"

definition lockDeadLetter :: "string \<Rightarrow> ('x world_scheme, dead_letter) sm" where
  "lockDeadLetter i = or_not_found (query_row (\<lambda>_ d. filter (\<lambda>l. dl_ID l = i) (db_dead_letters d)))"

definition EnsureReplayAttempt :: "string \<Rightarrow> string \<Rightarrow> ('x world_scheme, replay_result) sm" where
  "EnsureReplayAttempt deadLetterID newAttemptID =
     andThen (transaction (
       andThen (lockDeadLetter deadLetterID) (\<lambda>l.
       if dl_ReplayedAt l \<noteq> None \<and> dl_ReplayAttemptID l \<noteq> None then
         andThen (getAttemptByIDTx (coalesce (dl_ReplayAttemptID l) '''')) (\<lambda>a.
           leave_with (\<lparr>rdl_DeadLetter = l, rdl_Attempt = a\<rparr>, False))
       else
         let attemptID = coalesce (dl_ReplayAttemptID l) newAttemptID in
         andThen (existing_attempt attemptID) (\<lambda>found.
         andThen (case found of Some a \<Rightarrow> return a
           | None \<Rightarrow> andThen (query (\<lambda>_. next_attempt_number (dl_NotificationID l) (dl_Channel l))) (\<lambda>k.
               createDeliveryAttemptTx (pending_attempt attemptID (dl_NotificationID l)
                 (dl_Channel l) k ''replay''))) (\<lambda>a.
         andThen (query_row (\<lambda>_ d. map ntf_TenantID
           (filter (\<lambda>n. ntf_ID n = dl_NotificationID l) (db_notifications d)))) (\<lambda>tenantID.
         andThen (createDispatchIntentTx (ensured_intent a tenantID ''replay'')) (\<lambda>_.
         andThen (if dl_ReplayAttemptID l = None then
             andThen (link_replay deadLetterID (att_ID a)) (\<lambda>_. return ())
           else return ()) (\<lambda>_.
         commit_with (\<lparr>rdl_DeadLetter = l\<lparr>dl_ReplayAttemptID :=
             Some (coalesce (dl_ReplayAttemptID l) (att_ID a))\<rparr>, rdl_Attempt = a\<rparr>, True))))))))) (\<lambda>(res, fresh).
     if fresh then andThen (RecalculateNotificationStatus (dl_NotificationID (rdl_DeadLetter res)))
       (\<lambda>_. return res)
     else return res)"

definition FinalizeDeadLetterReplay :: "string \<Rightarrow> string \<Rightarrow> ('x world_scheme, replay_result) sm" where
  "FinalizeDeadLetterReplay deadLetterID newAttemptID = transaction (
     andThen (lockDeadLetter deadLetterID) (\<lambda>l.
     andThen (existing_attempt newAttemptID) (\<lambda>found.
     andThen (case found of Some a \<Rightarrow> return a
       | None \<Rightarrow> andThen (query (\<lambda>_. next_attempt_number (dl_NotificationID l) (dl_Channel l))) (\<lambda>k.
           andThen (or_wrapped (insert_returning (new_attempt (pending_attempt newAttemptID
             (dl_NotificationID l) (dl_Channel l) k ''initial'')) insert_attempt)) (\<lambda>_.
           fail SqlScanArity))) (\<lambda>a.
     case dl_ReplayedAt l of
       Some _ \<Rightarrow> commit_with \<lparr>rdl_DeadLetter = l, rdl_Attempt = a\<rparr>
     | None \<Rightarrow> andThen time_Now (\<lambda>now.
         andThen (update_dead_letters (\<lambda>_ _ r. dl_ID r = deadLetterID \<and> dl_ReplayedAt r = None)
           (\<lambda>_ r. r\<lparr>dl_ReplayedAt := Some now\<rparr>)) (\<lambda>_.
         commit_with \<lparr>rdl_DeadLetter = l\<lparr>dl_ReplayedAt := Some now\<rparr>, rdl_Attempt = a\<rparr>))))))"

subsection \<open>They move the database forward\<close>

lemma retried_row_frames [simp]:
  "att_Status a = RetryScheduled \<Longrightarrow> attempt_move a (retried_row t a)"
  "att_Status a = RetryScheduled \<Longrightarrow> attempt_ok a \<Longrightarrow> attempt_ok (retried_row t a)"
  by (simp_all add: retried_row_def attempt_move_def attempt_key_def attempt_ok_def)

lemma moves_retry_reads [moves_intros]:
  "obeys moves w_db (ListDueRetryAttempts l)" "obeys moves w_db (getAttemptByIDTx i)"
  "obeys moves w_db (lockDeadLetter i)"
  unfolding ListDueRetryAttempts_def getAttemptByIDTx_def lockDeadLetter_def
  by (intro moves_intros)+

lemma moves_retry_parts [moves_intros]:
  "obeys moves w_db (existing_attempt i)" "obeys moves w_db (not_due a)"
  "obeys moves w_db (fail_prior a i)"
  unfolding existing_attempt_def not_due_def fail_prior_def
  by (intro moves_intros moves_update_attempts; simp)+

lemma ensured_intent_ok [simp]: "intent_params_ok (ensured_intent a t s)"
  by (simp add: ensured_intent_def intent_params_ok_def)

lemma moves_EnsureRetryAttempt [moves_intros]: "obeys moves w_db (EnsureRetryAttempt s n)"
  unfolding EnsureRetryAttempt_def by (intro moves_intros ensured_intent_ok)

lemma moves_FinalizeRetryDispatch [moves_intros]: "obeys moves w_db (FinalizeRetryDispatch s n)"
  unfolding FinalizeRetryDispatch_def by (intro moves_intros new_rows_ok)

lemma moves_EnsureReplayAttempt [moves_intros]: "obeys moves w_db (EnsureReplayAttempt l n)"
  unfolding EnsureReplayAttempt_def
  by (intro moves_intros ensured_intent_ok)

lemma moves_FinalizeDeadLetterReplay [moves_intros]: "obeys moves w_db (FinalizeDeadLetterReplay l n)"
  unfolding FinalizeDeadLetterReplay_def
  by (intro moves_intros new_rows_ok moves_update_dead_letters)
    (simp add: dead_letter_frame_def)

end
