(* ===== verification/Store_Schedule.thy ===== *)
theory Store_Schedule
  imports Store_Retry
begin

text \<open>
  Scheduled work: promotion of what is due, cancellation before that, and the operator's
  redrive; then the maintenance pass and the metrics snapshot.
\<close>

subsection \<open>Promotion\<close>

record promoted =
  prm_Notification :: notification
  prm_Attempt :: attempt
  prm_Intent :: intent

definition initial_attempts :: "db \<Rightarrow> notification \<Rightarrow> attempt list" where
  "initial_attempts d n = filter (\<lambda>a. att_NotificationID a = ntf_ID n \<and> att_EnqueueKind a = ''initial''
     \<and> att_AttemptNumber a = 1) (db_attempts d)"

definition has_intent :: "db \<Rightarrow> attempt \<Rightarrow> bool" where
  "has_intent d a = (att_ID a \<in> int_AttemptID ` set (db_outbox d))"

definition due :: "time \<Rightarrow> notification \<Rightarrow> bool" where
  "due now n = ((case ntf_ScheduledFor n of None \<Rightarrow> False | Some t \<Rightarrow> t \<le> now)
     \<and> ntf_PromotedAt n = None \<and> ntf_CancelledAt n = None)"

definition promotable :: "time \<Rightarrow> db \<Rightarrow> (notification \<times> attempt) list" where
  "promotable now d = sort_key (\<lambda>(n, a). (ntf_ScheduledFor n, ntf_SubmittedAt n))
     (concat (map (\<lambda>n. map (Pair n) (filter (\<lambda>a. \<not> has_intent d a
         \<and> \<not> sql_paused (ntf_TenantID n) (att_Channel a) d) (initial_attempts d n)))
       (filter (due now) (db_notifications d))))"

definition promotion_intent :: "notification \<Rightarrow> attempt \<Rightarrow> string \<Rightarrow> intent_params" where
  "promotion_intent n a source = \<lparr>cip_ID = ''intent-'' @ att_ID a, cip_NotificationID = ntf_ID n,
     cip_AttemptID = att_ID a, cip_TenantID = ntf_TenantID n, cip_Channel = att_Channel a,
     cip_Source = source, cip_Status = None, cip_PublishedAt = None\<rparr>"

definition mark_promoted :: "string \<Rightarrow> time \<Rightarrow> ('x world_scheme, nat) sm" where
  "mark_promoted i at = update_notifications (\<lambda>_ _ n. ntf_ID n = i)
     (\<lambda>now n. n\<lparr>ntf_PromotedAt := Some (coalesce (ntf_PromotedAt n) at), ntf_UpdatedAt := now\<rparr>)"

definition PromoteDueScheduledNotifications :: "int \<Rightarrow> time \<Rightarrow> ('x world_scheme, promoted list) sm" where
  "PromoteDueScheduledNotifications limit now =
     andThen (transaction (
       andThen (query (\<lambda>_ d. take (limit_or 100 limit) (promotable now d))) (\<lambda>rows.
       andThen (forEach rows (\<lambda>(n, a).
         andThen (scanNotification n) (\<lambda>n'.
         andThen (createDispatchIntentTx (promotion_intent n' a ''scheduled'')) (\<lambda>i.
         andThen (mark_promoted (ntf_ID n') now) (\<lambda>_.
         return \<lparr>prm_Notification = n'\<lparr>ntf_PromotedAt := Some now\<rparr>,
           prm_Attempt = scanDeliveryAttempt a, prm_Intent = i\<rparr>))))) (\<lambda>items.
       commit_with items)))) (\<lambda>items.
     andThen (forEach items (\<lambda>item. RecalculateNotificationStatus (ntf_ID (prm_Notification item)))) (\<lambda>_.
     return items))"

subsection \<open>Cancellation and redrive\<close>

definition cancellable :: "time \<Rightarrow> db \<Rightarrow> notification \<Rightarrow> bool" where
  "cancellable now d n = ((case ntf_ScheduledFor n of None \<Rightarrow> False | Some t \<Rightarrow> now < t)
     \<and> ntf_Status n = NScheduled \<and> ntf_PromotedAt n = None \<and> ntf_CancelledAt n = None
     \<and> ntf_ID n \<notin> int_NotificationID ` set (db_outbox d))"

definition cancelled_row :: "time \<Rightarrow> notification \<Rightarrow> notification" where
  "cancelled_row now n = n\<lparr>ntf_Status := NCancelled, ntf_CancelledAt := Some now, ntf_UpdatedAt := now\<rparr>"

definition missing_or_invalid :: "string \<Rightarrow> ('x world_scheme, 'a) sm" where
  "missing_or_invalid i = andThen (query (\<lambda>_ d. notification_exists d i)) (\<lambda>exists.
     fail (if exists then ErrInvalidStateTransition else ErrNotFound))"

definition CancelScheduledNotification :: "string \<Rightarrow> ('x world_scheme, notification) sm" where
  "CancelScheduledNotification i =
     andThen (update_notifications (\<lambda>now d n. ntf_ID n = i \<and> cancellable now d n) cancelled_row) (\<lambda>rows.
     if rows = 0 then missing_or_invalid i else GetNotificationByID i)"

definition redrivable :: "string \<Rightarrow> db \<Rightarrow> (notification \<times> attempt) list" where
  "redrivable i d = concat (map (\<lambda>n. map (Pair n) (filter (\<lambda>a. \<not> has_intent d a) (initial_attempts d n)))
     (filter (\<lambda>n. ntf_ID n = i \<and> ntf_PromotedAt n = None \<and> ntf_CancelledAt n = None) (db_notifications d)))"

definition RedriveNotification :: "string \<Rightarrow> ('x world_scheme, promoted) sm" where
  "RedriveNotification i =
     andThen (transaction (
       handle (query_row (\<lambda>_. redrivable i))
         (\<lambda>e. if e = SqlNoRows then missing_or_invalid i else fail e)
         (\<lambda>(n, a).
           andThen (scanNotification n) (\<lambda>n'.
           if ntf_CancelledAt n' \<noteq> None then fail ErrInvalidStateTransition
           else andThen (ResolveDeliveryPolicy (ntf_TenantID n') (att_Channel a)) (\<lambda>pol.
             if res_Paused pol then fail ErrInvalidStateTransition
             else andThen (createDispatchIntentTx (promotion_intent n' a ''manual_redrive'')) (\<lambda>itn.
               andThen time_Now (\<lambda>now.
               andThen (mark_promoted (ntf_ID n') now) (\<lambda>_.
               commit_with \<lparr>prm_Notification = n'\<lparr>ntf_PromotedAt := Some now\<rparr>,
                 prm_Attempt = scanDeliveryAttempt a, prm_Intent = itn\<rparr>)))))))) (\<lambda>item.
     andThen (RecalculateNotificationStatus (ntf_ID (prm_Notification item))) (\<lambda>_. return item))"

subsection \<open>Maintenance\<close>

record cleanup_params =
  clp_Now :: time
  clp_AuditRetention :: duration
  clp_OutboxRetention :: duration
  clp_DeadLetterRetention :: duration
  clp_DryRun :: bool

record cleanup_result =
  clr_DryRun :: bool
  clr_AuditEventsDeleted :: nat
  clr_PublishedOutboxDeleted :: nat
  clr_DeadLettersDeleted :: nat
  clr_ExecutedAt :: time

definition before :: "time \<Rightarrow> time option \<Rightarrow> bool" where
  "before cutoff t = (case t of None \<Rightarrow> False | Some u \<Rightarrow> u < cutoff)"

definition old_audit :: "time \<Rightarrow> audit_event \<Rightarrow> bool" where
  "old_audit cutoff e = (aud_CreatedAt e < cutoff)"

definition old_intent :: "time \<Rightarrow> intent \<Rightarrow> bool" where
  "old_intent cutoff i = (int_Status i = IPublished \<and> before cutoff (int_PublishedAt i))"

definition old_dead_letter :: "time \<Rightarrow> dead_letter \<Rightarrow> bool" where
  "old_dead_letter cutoff l = before cutoff (dl_ReplayedAt l)"

text \<open>\<^verbatim>\<open>t.IsZero()\<close>\<close>

definition or_now :: "time \<Rightarrow> ('x world_scheme, time) sm" where
  "or_now t = (if t = 0 then time_Now else return t)"

definition RunMaintenance :: "cleanup_params \<Rightarrow> ('x world_scheme, cleanup_result) sm" where
  "RunMaintenance params =
     andThen (or_now (clp_Now params)) (\<lambda>now.
     if clp_AuditRetention params \<le> 0 then fail (ErrText ''audit retention must be positive'')
     else if clp_OutboxRetention params \<le> 0 then fail (ErrText ''outbox retention must be positive'')
     else if clp_DeadLetterRetention params < 0 then fail (ErrText ''dead letter retention must be >= 0'')
     else
       let auditCutoff = now - clp_AuditRetention params;
           outboxCutoff = now - clp_OutboxRetention params;
           deadLetterCutoff = now - clp_DeadLetterRetention params;
           dead = (clp_DeadLetterRetention params > 0);
           result = (\<lambda>a b l. \<lparr>clr_DryRun = clp_DryRun params, clr_AuditEventsDeleted = a,
             clr_PublishedOutboxDeleted = b, clr_DeadLettersDeleted = l, clr_ExecutedAt = now\<rparr>) in
       transaction (
         andThen (query (\<lambda>_ d. rows_where (old_audit auditCutoff) (db_audits d))) (\<lambda>a.
         andThen (query (\<lambda>_ d. rows_where (old_intent outboxCutoff) (db_outbox d))) (\<lambda>b.
         andThen (if dead then query (\<lambda>_ d. rows_where (old_dead_letter deadLetterCutoff) (db_dead_letters d))
           else return 0) (\<lambda>l.
         if clp_DryRun params then andThen (query (\<lambda>_ _. ())) (\<lambda>_. leave_with (result a b l))
         else
           andThen (delete_audits (old_audit auditCutoff)) (\<lambda>a.
           andThen (delete_outbox (old_intent outboxCutoff)) (\<lambda>b.
           andThen (if dead then delete_dead_letters (old_dead_letter deadLetterCutoff) else return l) (\<lambda>l.
           commit_with (result a b l)))))))))"

subsection \<open>Metrics\<close>

record metrics =
  met_OutboxPendingCount :: nat
  met_OutboxPublishingCount :: nat
  met_OutboxOldestLagSeconds :: int
  met_DueRetryCount :: nat
  met_OpenDeadLetterCount :: nat
  met_DuplicateSuppressionCount :: nat
  met_RetryScheduledCount :: nat
  met_DeadLetteredCount :: nat
  met_ScheduledPendingCount :: nat
  met_ScheduledDueCount :: nat
  met_ScheduledOldestLagSeconds :: int
  met_CollectedAt :: time

text \<open>\<^verbatim>\<open>COALESCE(FLOOR(MAX(EXTRACT(EPOCH FROM ($1 - t))))::bigint, 0)\<close>\<close>

definition oldest_lag :: "time \<Rightarrow> time list \<Rightarrow> int" where
  "oldest_lag now ts = (case ts of [] \<Rightarrow> 0 | t # us \<Rightarrow> (now - foldl min t us) div second)"

definition waiting :: "notification \<Rightarrow> bool" where
  "waiting n = (ntf_ScheduledFor n \<noteq> None \<and> ntf_PromotedAt n = None \<and> ntf_CancelledAt n = None)"

definition CollectOperationalMetrics :: "time \<Rightarrow> ('x world_scheme, metrics) sm" where
  "CollectOperationalMetrics at =
     andThen (or_now at) (\<lambda>now.
     andThen (query (\<lambda>_ d. (rows_where (\<lambda>i. int_Status i = IPending) (db_outbox d),
         rows_where (\<lambda>i. int_Status i = IPublishing) (db_outbox d),
         oldest_lag now (map int_CreatedAt (filter (\<lambda>i. int_Status i = IPending) (db_outbox d)))))) (\<lambda>(op, ou, ol).
     andThen (query (\<lambda>_ d. (rows_where (retry_due_at now) (db_attempts d),
         rows_where (\<lambda>a. att_Status a = RetryScheduled) (db_attempts d)))) (\<lambda>(rd, rs).
     andThen (query (\<lambda>_ d. rows_where (\<lambda>l. dl_ReplayedAt l = None) (db_dead_letters d))) (\<lambda>dl.
     andThen (query (\<lambda>_ d. (rows_where waiting (db_notifications d),
         rows_where (due now) (db_notifications d),
         oldest_lag now (map (\<lambda>n. coalesce (ntf_ScheduledFor n) 0)
           (filter (due now) (db_notifications d)))))) (\<lambda>(sp, sd, sl).
     andThen (query (\<lambda>_ d. (rows_where (\<lambda>e. aud_Action e = ''duplicate_job_suppressed'') (db_audits d),
         rows_where (\<lambda>e. aud_Action e = ''dead_lettered'') (db_audits d)))) (\<lambda>(ds, de).
     return \<lparr>met_OutboxPendingCount = op, met_OutboxPublishingCount = ou,
       met_OutboxOldestLagSeconds = ol, met_DueRetryCount = rd, met_OpenDeadLetterCount = dl,
       met_DuplicateSuppressionCount = ds, met_RetryScheduledCount = rs,
       met_DeadLetteredCount = de, met_ScheduledPendingCount = sp, met_ScheduledDueCount = sd,
       met_ScheduledOldestLagSeconds = sl, met_CollectedAt = now\<rparr>))))))"

subsection \<open>They move the database forward\<close>

lemma promotion_intent_ok [simp]: "intent_params_ok (promotion_intent n a s)"
  by (simp add: promotion_intent_def intent_params_ok_def)

lemma moves_missing_or_invalid [moves_intros]: "obeys moves w_db (missing_or_invalid i)"
  unfolding missing_or_invalid_def by (intro moves_intros)

lemma moves_or_now [moves_intros]: "obeys moves w_db (or_now t)"
  unfolding or_now_def by (intro moves_intros)

text \<open>
  Promotion is the one step whose soundness needs what was read before: the row it marks is
  not cancelled.  \<open>moves_live ids\<close> keeps that knowledge across the statements of the
  transaction.
\<close>

definition live :: "string set \<Rightarrow> db \<Rightarrow> bool" where
  "live ids d = (\<forall>n \<in> set (db_notifications d). ntf_ID n \<in> ids \<longrightarrow> ntf_CancelledAt n = None)"

definition moves_live :: "string set \<Rightarrow> db \<Rightarrow> db \<Rightarrow> bool" where
  "moves_live ids d d' = (wf_db d \<and> live ids d \<longrightarrow> evolves d d' \<and> wf_db d' \<and> live ids d')"

interpretation lv: db_history "moves_live ids" for ids
  by unfold_locales (auto simp: moves_live_def evolves_refl intro: evolves_trans)

lemma lv_scanNotification: "obeys (moves_live ids) w_db (scanNotification n)"
  unfolding scanNotification_def by (auto split: sum.split intro: lv.db_compose)

lemma moves_live_same:
  "moves d d' \<Longrightarrow> db_notifications d' = db_notifications d \<Longrightarrow> moves_live ids d d'"
  by (simp add: moves_live_def moves_def live_def)

lemma lv_createDispatchIntentTx:
  assumes "intent_params_ok ip"
  shows "obeys (moves_live ids) w_db (createDispatchIntentTx ip)"
proof -
  have "moves d d' \<and> db_notifications d' = db_notifications d"
    if "insert_intent (new_intent ip t) d = Inr d'" for t d d'
    using moves_inserts(5) [OF that intent_params_ok_new [OF assms]] that
    by (auto simp: insert_intent_def constrained_Inr)
  then show ?thesis
    unfolding createDispatchIntentTx_def insert_unless_def
    by (intro lv.db_compose lv.stmt)
      (auto split: if_splits sum.splits intro: moves_live_same lv.refl)
qed

lemma update_where_cong:
  "(\<And>r. r \<in> set rs \<Longrightarrow> P r = P' r) \<Longrightarrow> update_where P f rs = update_where P' f rs"
  by (simp add: update_where_def)

lemma lv_mark_promoted:
  assumes "i \<in> ids"
  shows "obeys (moves_live ids) w_db (mark_promoted i at)"
  unfolding mark_promoted_def update_notifications_def
proof (rule lv.stmt)
  fix t :: time and d :: db and x :: nat and d'
  let ?f = "\<lambda>n. n\<lparr>ntf_PromotedAt := Some (coalesce (ntf_PromotedAt n) at), ntf_UpdatedAt := t\<rparr>"
  assume "Inr (rows_where (\<lambda>n. ntf_ID n = i) (db_notifications d),
    d\<lparr>db_notifications := update_where (\<lambda>n. ntf_ID n = i) ?f (db_notifications d)\<rparr>) = (Inr (x, d') :: err + nat \<times> db)"
  then have d': "d' = d\<lparr>db_notifications := update_where (\<lambda>n. ntf_ID n = i) ?f (db_notifications d)\<rparr>" by simp
  show "moves_live ids d d'"
    unfolding moves_live_def
  proof (intro impI conjI; elim conjE)
    assume wf: "wf_db d" and live: "live ids d"
    have "update_where (\<lambda>n. ntf_ID n = i) ?f (db_notifications d)
        = update_where (\<lambda>n. ntf_ID n = i \<and> ntf_CancelledAt n = None) ?f (db_notifications d)"
      by (rule update_where_cong) (use live assms in \<open>auto simp: live_def\<close>)
    moreover have "moves d (d\<lparr>db_notifications :=
        update_where (\<lambda>n. ntf_ID n = i \<and> ntf_CancelledAt n = None) ?f (db_notifications d)\<rparr>)"
      by (rule moves_update_notifications_db)
        (auto simp: notification_move_def notification_ok_def idem_key_def)
    ultimately show "evolves d d'" "wf_db d'" using wf by (simp_all add: d' moves_def)
    show "live ids d'" using live by (auto simp: d' live_def update_where_def)
  qed
qed

lemma moves_of_live: "obeys (moves_live ids) w_db m \<Longrightarrow> live ids (w_db w) \<Longrightarrow> moves (w_db w) (w_db (snd (m w)))"
  by (auto simp: obeys_def moves_live_def moves_def)

text \<open>A computation that goes on with rows it has just read.\<close>

lemma moves_after_read:
  fixes m :: "('x world_scheme, 'a) sm"
  assumes read: "\<And>w r w'. m w = (r, w') \<Longrightarrow> w_db w' = w_db w
      \<and> (\<forall>x. r = Inr x \<and> wf_db (w_db w) \<longrightarrow> live (ids x) (w_db w))"
    and h: "\<And>e. obeys moves w_db (h e)"
    and k: "\<And>x. obeys (moves_live (ids x)) w_db (k x)"
  shows "obeys moves w_db (handle m h k)"
  unfolding obeys_def
proof
  fix w :: "'x world_scheme"
  obtain r w' where m: "m w = (r, w')" by (cases "m w")
  note same = read [OF m]
  show "moves (w_db w) (w_db (snd (handle m h k w)))"
  proof (cases r)
    case (Inl e)
    have "moves (w_db w') (w_db (snd (h e w')))" using h [of e] by (simp add: obeys_def)
    then show ?thesis using m Inl same by (simp add: handle_eq)
  next
    case (Inr x)
    show ?thesis
    proof (cases "wf_db (w_db w)")
      case True
      then have "moves (w_db w') (w_db (snd (k x w')))"
        using Inr same by (intro moves_of_live [OF k]) simp
      then show ?thesis using m Inr same by (simp add: handle_eq)
    qed (simp add: moves_def)
  qed
qed

lemma query_reads: "query g w = (r, w') \<Longrightarrow> w_db w' = w_db w \<and> (\<forall>x. r = Inr x \<longrightarrow> (\<exists>t. x = g t (w_db w)))"
  by (auto simp: query_def stmt_def step_def split: list.splits prod.splits fault.splits if_splits)

lemma query_row_reads:
  "query_row g w = (r, w') \<Longrightarrow> w_db w' = w_db w \<and> (\<forall>x. r = Inr x \<longrightarrow> (\<exists>t. x \<in> set (g t (w_db w))))"
  by (auto simp: query_row_def stmt_def step_def
      split: list.splits prod.splits fault.splits if_splits sum.splits intro: exI)
    (metis list.set_intros(1))+

lemma notification_unique:
  "wf_db d \<Longrightarrow> m \<in> set (db_notifications d) \<Longrightarrow> n \<in> set (db_notifications d) \<Longrightarrow> ntf_ID m = ntf_ID n \<Longrightarrow> m = n"
  by (metis lookup_distinct [OF wf_distinct(2)] option.inject)

lemma live_read:
  assumes "wf_db d" "\<And>i. i \<in> ids \<Longrightarrow> \<exists>n \<in> set (db_notifications d). ntf_ID n = i \<and> ntf_CancelledAt n = None"
  shows "live ids d"
  unfolding live_def using assms notification_unique by blast

lemma promotable_read:
  "(n, a) \<in> set (promotable now d) \<Longrightarrow> n \<in> set (db_notifications d) \<and> due now n
     \<and> a \<in> set (initial_attempts d n) \<and> \<not> has_intent d a \<and> \<not> sql_paused (ntf_TenantID n) (att_Channel a) d"
  by (auto simp: promotable_def)

lemma redrivable_read:
  "(n, a) \<in> set (redrivable i d) \<Longrightarrow> n \<in> set (db_notifications d) \<and> ntf_ID n = i
     \<and> ntf_PromotedAt n = None \<and> ntf_CancelledAt n = None
     \<and> a \<in> set (initial_attempts d n) \<and> \<not> has_intent d a"
  by (auto simp: redrivable_def)

lemma lv_promotion:
  "obeys (moves_live ids) w_db (createDispatchIntentTx (promotion_intent n a src))"
  by (rule lv_createDispatchIntentTx [OF promotion_intent_ok])

lemma lv_after_scan:
  assumes "\<And>n'. ntf_ID n' = ntf_ID n \<Longrightarrow> obeys (moves_live ids) w_db (k n')"
  shows "obeys (moves_live ids) w_db (andThen (scanNotification n) k)"
proof (cases "unmarshalVariables (ntf_Variables n)")
  case (Inl e)
  have "andThen (fail e) k = fail e" for e by (rule ext) (simp add: andThen_eq fail_eq)
  with Inl show ?thesis by (simp add: scanNotification_def lv.fail)
next
  case (Inr v)
  have "andThen (return x) k = k x" for x by (rule ext) (simp add: andThen_eq return_eq)
  with Inr show ?thesis by (simp add: scanNotification_def assms)
qed

lemma moves_PromoteDueScheduledNotifications [moves_intros]:
  "obeys moves w_db (PromoteDueScheduledNotifications l now)"
proof -
  have "obeys moves w_db (handle (query (\<lambda>_ d. take (limit_or 100 l) (promotable now d))) fail (\<lambda>rows.
       andThen (forEach rows (\<lambda>(n, a).
         andThen (scanNotification n) (\<lambda>n'.
         andThen (createDispatchIntentTx (promotion_intent n' a ''scheduled'')) (\<lambda>i.
         andThen (mark_promoted (ntf_ID n') now) (\<lambda>_.
         return \<lparr>prm_Notification = n'\<lparr>ntf_PromotedAt := Some now\<rparr>,
           prm_Attempt = scanDeliveryAttempt a, prm_Intent = i\<rparr>))))) (\<lambda>items.
       commit_with items)))"
    apply (rule moves_after_read [where ids = "\<lambda>rows. ntf_ID ` fst ` set rows"])
    subgoal for w r w'
      by (drule query_reads) (fastforce intro!: live_read dest!: in_set_takeD promotable_read simp: due_def)
    subgoal by (intro moves_intros)
    subgoal for rows
      apply (intro lv.db_compose)
      subgoal for x
        by (cases x) (auto intro!: lv_after_scan lv_promotion lv.db_compose lv_mark_promoted
          intro: rev_image_eqI)
      done
    done
  from mv.transaction [OF this] show ?thesis
    unfolding PromoteDueScheduledNotifications_def andThen_def [of "query _"]
    by (rule mv.andThen) (intro moves_intros)
qed

lemma moves_RedriveNotification [moves_intros]: "obeys moves w_db (RedriveNotification i)"
proof -
  have "obeys moves w_db (handle (query_row (\<lambda>_. redrivable i))
         (\<lambda>e. if e = SqlNoRows then missing_or_invalid i else fail e)
         (\<lambda>(n, a).
           andThen (scanNotification n) (\<lambda>n'.
           if ntf_CancelledAt n' \<noteq> None then fail ErrInvalidStateTransition
           else andThen (ResolveDeliveryPolicy (ntf_TenantID n') (att_Channel a)) (\<lambda>pol.
             if res_Paused pol then fail ErrInvalidStateTransition
             else andThen (createDispatchIntentTx (promotion_intent n' a ''manual_redrive'')) (\<lambda>itn.
               andThen time_Now (\<lambda>now.
               andThen (mark_promoted (ntf_ID n') now) (\<lambda>_.
               commit_with \<lparr>prm_Notification = n'\<lparr>ntf_PromotedAt := Some now\<rparr>,
                 prm_Attempt = scanDeliveryAttempt a, prm_Intent = itn\<rparr>)))))))"
    apply (rule moves_after_read [where ids = "\<lambda>x. {ntf_ID (fst x)}"])
    subgoal for w r w'
      by (drule query_row_reads) (cases r; fastforce intro!: live_read dest!: redrivable_read)
    subgoal by (intro moves_intros)
    subgoal for x
      by (cases x) (auto intro!: lv_after_scan lv_promotion lv.db_compose lv_mark_promoted
        simp: ResolveDeliveryPolicy_def)
    done
  from mv.transaction [OF this] show ?thesis
    unfolding RedriveNotification_def by (rule mv.andThen) (intro moves_intros)
qed

lemma moves_CancelScheduledNotification [moves_intros]: "obeys moves w_db (CancelScheduledNotification i)"
  unfolding CancelScheduledNotification_def
  by (intro moves_intros moves_update_notifications)
    (auto simp: cancelled_row_def cancellable_def notification_move_def notification_ok_def
      idem_key_def set_once_def split: option.splits)

lemma moves_RunMaintenance [moves_intros]: "obeys moves w_db (RunMaintenance params)"
  unfolding RunMaintenance_def by (intro moves_intros)

lemma moves_CollectOperationalMetrics [moves_intros]: "obeys moves w_db (CollectOperationalMetrics t)"
  unfolding CollectOperationalMetrics_def by (intro moves_intros)

end
