(* ===== verification/Store_System.thy ===== *)
theory Store_System
  imports Store_Schedule
begin

text \<open>
  The store as a whole: the methods as the steps of a transition system, with whatever
  failures the connection has, from an empty database; what holds in every reachable state
  and along every run.
\<close>

subsection \<open>Calls\<close>

text \<open>
  Any sequence of calls, by any processes, each with its arguments and its luck with the
  connection.  Rows whose status is an argument are created as the callers in the repository
  create them: attempts pending, intents with the status that follows from their publication.
\<close>

inductive store_step :: "db \<Rightarrow> db \<Rightarrow> bool" where
  "CreateTenant tp w = (r, w') \<Longrightarrow> store_step (w_db w) (w_db (w' :: world))"
| "CreateTemplate mp w = (r, w') \<Longrightarrow> store_step (w_db w) (w_db (w' :: world))"
| "CreateNotification np w = (r, w') \<Longrightarrow> store_step (w_db w) (w_db (w' :: world))"
| "CreateNotificationWithInitialDispatch dp w = (r, w') \<Longrightarrow> store_step (w_db w) (w_db (w' :: world))"
| "EnsureInitialAttempt n c a i w = (r, w') \<Longrightarrow> store_step (w_db w) (w_db (w' :: world))"
| "CreateDeliveryAttempt (pending_attempt a n c k kind) w = (r, w') \<Longrightarrow> store_step (w_db w) (w_db (w' :: world))"
| "CreateDispatchIntent ip w = (r, w') \<Longrightarrow> intent_params_ok ip \<Longrightarrow> store_step (w_db w) (w_db (w' :: world))"
| "RecalculateNotificationStatus n w = (r, w') \<Longrightarrow> store_step (w_db w) (w_db (w' :: world))"
| "MarkAttemptInProgress a w = (r, w') \<Longrightarrow> store_step (w_db w) (w_db (w' :: world))"
| "finish e a w = (r, w') \<Longrightarrow> store_step (w_db w) (w_db (w' :: world))"
| "UpdateAttemptProvider a p f w = (r, w') \<Longrightarrow> store_step (w_db w) (w_db (w' :: world))"
| "InsertDeadLetter l n c msg w = (r, w') \<Longrightarrow> store_step (w_db w) (w_db (w' :: world))"
| "EnsureRetryAttempt a b w = (r, w') \<Longrightarrow> store_step (w_db w) (w_db (w' :: world))"
| "FinalizeRetryDispatch a b w = (r, w') \<Longrightarrow> store_step (w_db w) (w_db (w' :: world))"
| "EnsureReplayAttempt l b w = (r, w') \<Longrightarrow> store_step (w_db w) (w_db (w' :: world))"
| "FinalizeDeadLetterReplay l b w = (r, w') \<Longrightarrow> store_step (w_db w) (w_db (w' :: world))"
| "ClaimPendingDispatchIntents lim st w = (r, w') \<Longrightarrow> store_step (w_db w) (w_db (w' :: world))"
| "MarkDispatchIntentPublished i t w = (r, w') \<Longrightarrow> store_step (w_db w) (w_db (w' :: world))"
| "RecordDispatchIntentError i t msg w = (r, w') \<Longrightarrow> store_step (w_db w) (w_db (w' :: world))"
| "MarkAttemptEnqueued a w = (r, w') \<Longrightarrow> store_step (w_db w) (w_db (w' :: world))"
| "FinalizeReplayEnqueue l a w = (r, w') \<Longrightarrow> store_step (w_db w) (w_db (w' :: world))"
| "UpsertDeliveryPolicy pp w = (r, w') \<Longrightarrow> store_step (w_db w) (w_db (w' :: world))"
| "SetDeliveryPolicyPaused i b w = (r, w') \<Longrightarrow> store_step (w_db w) (w_db (w' :: world))"
| "PromoteDueScheduledNotifications lim t w = (r, w') \<Longrightarrow> store_step (w_db w) (w_db (w' :: world))"
| "CancelScheduledNotification n w = (r, w') \<Longrightarrow> store_step (w_db w) (w_db (w' :: world))"
| "RedriveNotification n w = (r, w') \<Longrightarrow> store_step (w_db w) (w_db (w' :: world))"
| "RecordAuditEvent i tn ac an rt ri md w = (r, w') \<Longrightarrow> store_step (w_db w) (w_db (w' :: world))"
| "RunMaintenance cp w = (r, w') \<Longrightarrow> store_step (w_db w) (w_db (w' :: world))"

lemma moves_finish_call [moves_intros]: "obeys moves w_db (finish e i)"
  by (cases e) (simp_all add: moves_finish)

lemma moves_CreateDeliveryAttempt_pending [moves_intros]:
  "obeys moves w_db (CreateDeliveryAttempt (pending_attempt a n c k kind))"
  by (intro moves_creations new_rows_ok)

lemma obeys_moves: "m w = (r, w') \<Longrightarrow> obeys moves w_db m \<Longrightarrow> moves (w_db w) (w_db w')"
  by (drule obeysD)

lemma store_step_moves: "store_step d d' \<Longrightarrow> moves d d'"
  by (induction rule: store_step.induct) (erule obeys_moves; intro moves_intros; assumption?)+

inductive reachable :: "schema \<Rightarrow> db \<Rightarrow> bool" for sch where
  start: "reachable sch (empty_db sch)"
| next_call: "reachable sch d \<Longrightarrow> store_step d d' \<Longrightarrow> reachable sch d'"

lemma reachable_wf: "reachable sch d \<Longrightarrow> wf_db d"
  by (induction rule: reachable.induct) (auto simp: wf_empty_db moves_def dest!: store_step_moves)

lemma steps_moves: "store_step\<^sup>*\<^sup>* d d' \<Longrightarrow> moves d d'"
  by (induction rule: rtranclp_induct) (auto intro: mv.refl mv.trans dest: store_step_moves)

text \<open>A run from the empty database: a tenant, a template, a notification, its activation.\<close>

definition demo1 :: world where
  "demo1 = snd (CreateTenant \<lparr>ctp_ID = ''t'', ctp_Name = ''acme'', ctp_DailyQuota = 5\<rparr>
     (at_time 3 (empty_db Migrations)))"

definition demo2 :: world where
  "demo2 = snd (CreateTemplate \<lparr>ctm_ID = ''m'', ctm_TenantID = ''t'', ctm_Name = ''hello'',
     ctm_Channel = ''email'', ctm_Version = 1, ctm_Body = ''hi''\<rparr> demo1)"

definition demo3 :: world where
  "demo3 = snd (CreateNotificationWithInitialDispatch \<lparr>cdp_Notification = \<lparr>cnp_ID = ''n'',
       cnp_TenantID = ''t'', cnp_TemplateID = ''m'', cnp_IdempotencyKey = Some ''k'',
       cnp_RecipientEmail = Some ''a@b'', cnp_RecipientWebhookURL = None,
       cnp_SecondaryWebhookURL = None, cnp_Variables = JNull, cnp_ScheduledFor = None\<rparr>,
     cdp_Channel = ''email'', cdp_AttemptID = ''a'', cdp_IntentID = ''i''\<rparr> demo2)"

definition demo4 :: world where
  "demo4 = snd (MarkAttemptInProgress ''a'' demo3)"

lemma demo_steps:
  "store_step (w_db (at_time 3 (empty_db Migrations))) (w_db demo1)"
  "store_step (w_db demo1) (w_db demo2)" "store_step (w_db demo2) (w_db demo3)"
  "store_step (w_db demo3) (w_db demo4)"
  unfolding demo1_def demo2_def demo3_def demo4_def
  by (rule store_step.intros, rule prod.collapse [symmetric])+

lemma demo_reachable: "reachable Migrations (w_db demo3)"
  by (rule reachable.next_call [OF reachable.next_call [OF reachable.next_call
    [OF reachable.start demo_steps(1) [simplified]] demo_steps(2)] demo_steps(3)])

lemma demo_attempt:
  "map att_Status (db_attempts (w_db demo3)) = [Pending]"
  "map att_ID (db_attempts (w_db demo3)) = [''a'']"
  by code_simp+

text \<open>
  C5.  In every state the store can reach from an empty database, by any calls with any
  connection failures, the tables are sound (\<open>wf_db\<close>): keys are unique (one intent per attempt,
  one attempt per notification, channel and number), references resolve, checks hold, the
  state of every attempt and intent agrees with its time columns, and no notification is both
  cancelled and promoted.
\<close>

theorem reachable_sound:
  assumes "reachable sch d"
  shows "wf_db d"
  by (rule reachable_wf [OF assms])

theorem reachable_sound_witness:
  "wf_db (w_db demo3) \<and> map att_Status (db_attempts (w_db demo3)) = [Pending]"
  using reachable_sound [OF demo_reachable] demo_attempt(1) by blast

text \<open>
  C6.  The life of a row: between any two reachable moments an attempt keeps its identity,
  moves only forward (pending, in progress, then one end; a scheduled retry only to failed)
  and keeps its first start and enqueue times; a notification keeps its recipients, schedule
  and idempotency key, and a cancellation or promotion, once recorded, for ever.
\<close>

theorem rows_only_move_forward:
  assumes "reachable sch d" "store_step\<^sup>*\<^sup>* d d'"
  shows "(\<forall>a \<in> set (db_attempts d). \<exists>b \<in> set (db_attempts d'). att_ID b = att_ID a \<and> attempt_key b = attempt_key a
        \<and> attempt_step\<^sup>*\<^sup>* (att_Status a) (att_Status b)
        \<and> set_once (att_StartedAt a) (att_StartedAt b)
        \<and> set_once (att_DispatchEnqueuedAt a) (att_DispatchEnqueuedAt b))
    \<and> (\<forall>m \<in> set (db_notifications d). \<exists>n \<in> set (db_notifications d'). ntf_ID n = ntf_ID m
        \<and> ntf_ScheduledFor n = ntf_ScheduledFor m \<and> idem_key n = idem_key m
        \<and> ntf_RecipientEmail n = ntf_RecipientEmail m
        \<and> ntf_RecipientWebhookURL n = ntf_RecipientWebhookURL m
        \<and> set_once (ntf_PromotedAt m) (ntf_PromotedAt n)
        \<and> set_once (ntf_CancelledAt m) (ntf_CancelledAt n))"
proof -
  have "evolves d d'"
    using steps_moves [OF assms(2)] reachable_wf [OF assms(1)] by (rule moves_evolves)
  then show ?thesis
    unfolding evolves_def attempt_move_def notification_move_def reaches_iff by meson
qed

theorem rows_only_move_forward_witness:
  "\<exists>b \<in> set (db_attempts (w_db demo4)). att_ID b = ''a'' \<and> attempt_step\<^sup>*\<^sup>* Pending (att_Status b)"
proof -
  have a: "map att_Status (db_attempts (w_db demo3)) = [Pending]" "map att_ID (db_attempts (w_db demo3)) = [''a'']"
    by (rule demo_attempt)+
  then obtain a where "db_attempts (w_db demo3) = [a]" "att_Status a = Pending" "att_ID a = ''a''" by auto
  then show ?thesis
    using rows_only_move_forward [OF demo_reachable r_into_rtranclp [of store_step, OF demo_steps(4)]]
    by (metis list.set_intros(1))
qed

subsection \<open>At most one activation\<close>

interpretation same_attempts: db_history "\<lambda>d d'. db_attempts d' = db_attempts d"
  by unfold_locales simp_all

lemma Recalculate_keeps_attempts:
  "obeys (\<lambda>d d'. db_attempts d' = db_attempts d) w_db (RecalculateNotificationStatus i)"
  unfolding RecalculateNotificationStatus_def ListDeliveryAttemptsByNotificationID_def is_later_def
    update_notifications_def
  by (intro same_attempts.db_compose same_attempts.stmt moves_case_prod) auto

lemma run_obeys:
  fixes m :: "('x world_scheme, 'a) sm"
  assumes "obeys R w_db m" "\<And>d'. R d d' \<Longrightarrow> Q d'"
  shows "run False m d (\<lambda>_. Q) (\<lambda>_. Q)"
  using assms by (intro runI) (auto simp: obeys_def split: sum.split)

lemma run_refusal: "run False (andThen m (\<lambda>x. fail (g x))) d (\<lambda>_ _. True) Q"
  by (rule runI) (auto simp: andThen_def handle_def fail_def split: prod.splits sum.splits)

lemma run_activation:
  "run False (MarkAttemptInProgress i) d (\<lambda>_ _. True)
     (\<lambda>_ d'. (\<exists>a \<in> set (db_attempts d). att_ID a = i \<and> att_Status a = Pending)
        \<and> (\<exists>b \<in> set (db_attempts d'). att_ID b = i \<and> att_Status b \<noteq> Pending))"
proof -
  let ?P = "\<lambda>a. att_ID a = i \<and> att_Status a = Pending"
  have upd: "\<exists>b \<in> set (update_where ?P (active_columns t) (db_attempts d)). att_ID b = i \<and> att_Status b \<noteq> Pending"
    if "rows_where ?P (db_attempts d) \<noteq> 0" for t
  proof -
    from that [unfolded rows_where_0] obtain a where "a \<in> set (db_attempts d)" "?P a" by blast
    then show ?thesis
      by (intro bexI [of _ "active_columns t a"]) (auto simp: update_where_def active_columns_def)
  qed
  have rest: "run False (andThen (notificationIDForAttempt i) RecalculateNotificationStatus) e (\<lambda>_ _. True)
      (\<lambda>_ d'. \<exists>b \<in> set (db_attempts d'). att_ID b = i \<and> att_Status b \<noteq> Pending)"
    if "\<exists>b \<in> set (db_attempts e). att_ID b = i \<and> att_Status b \<noteq> Pending" for e
    by (rule run_mono [where E = "\<lambda>_ d'. db_attempts d' = db_attempts e" and Q = "\<lambda>_ d'. db_attempts d' = db_attempts e"],
        rule run_obeys [where R = "\<lambda>d d'. db_attempts d' = db_attempts d"])
      (use that in \<open>auto simp: notificationIDForAttempt_def
        intro!: same_attempts.db_compose Recalculate_keeps_attempts\<close>)
  show ?thesis
    unfolding MarkAttemptInProgress_def GetDeliveryAttemptByID_def
    apply (rule run_andThen, rule run_updates, rule conjI, rule run_If)
        apply (rule run_refusal)
       apply (rule run_mono [OF rest])
         apply (use upd in simp)
        apply simp
       apply (auto simp: rows_where_0)
    done
qed

lemma activation_changes:
  assumes "wf_db (w_db w)" "MarkAttemptInProgress i w = (Inr (), w')"
  shows "(\<exists>a \<in> set (db_attempts (w_db w)). att_ID a = i \<and> att_Status a = Pending)
    \<and> (\<exists>b \<in> set (db_attempts (w_db w')). att_ID b = i \<and> att_Status b \<noteq> Pending)"
  using run_Inr [OF run_activation _ assms(2)] by simp

text \<open>A run of the store, with the successful activations it contains.\<close>

inductive run_of :: "db \<Rightarrow> string list \<Rightarrow> db \<Rightarrow> bool" where
  no_calls: "run_of d [] d"
| activated: "run_of d as (w_db w) \<Longrightarrow> MarkAttemptInProgress i (w :: world) = (Inr (), w') \<Longrightarrow>
    run_of d (i # as) (w_db w')"
| other_call: "run_of d as e \<Longrightarrow> store_step e e' \<Longrightarrow> run_of d as e'"

lemma run_of_moves: "run_of d as e \<Longrightarrow> moves d e"
proof (induction rule: run_of.induct)
  case (activated d as w i w')
  have "moves (w_db w) (w_db w')"
    by (rule store_step_moves) (rule store_step.intros(9) [OF activated.hyps(2)])
  with activated.IH show ?case by (rule mv.trans)
qed (auto intro: mv.refl mv.trans dest: store_step_moves)

lemma started_stays:
  assumes "evolves d e" "\<exists>b \<in> set (db_attempts d). att_ID b = i \<and> att_Status b \<noteq> Pending"
  shows "\<exists>b \<in> set (db_attempts e). att_ID b = i \<and> att_Status b \<noteq> Pending"
  using assms unfolding evolves_def attempt_move_def by (metis reaches_pending)

lemma run_of_started:
  assumes "run_of d as e" "wf_db d" "i \<in> set as"
  shows "\<exists>b \<in> set (db_attempts e). att_ID b = i \<and> att_Status b \<noteq> Pending"
  using assms
proof (induction rule: run_of.induct)
  case (activated d as w j w')
  have wf: "wf_db (w_db w)"
    using run_of_moves [OF activated.hyps(1)] activated.prems(1) by (rule moves_wf)
  show ?case
  proof (cases "i = j")
    case True
    then show ?thesis using activation_changes [OF wf activated.hyps(2)] by simp
  next
    case False
    then have "i \<in> set as" using activated.prems(2) by simp
    then have "\<exists>b \<in> set (db_attempts (w_db w)). att_ID b = i \<and> att_Status b \<noteq> Pending"
      using activated.IH activated.prems(1) by blast
    moreover have "moves (w_db w) (w_db w')"
      by (rule store_step_moves) (rule store_step.intros(9) [OF activated.hyps(2)])
    ultimately show ?thesis using started_stays moves_evolves wf by blast
  qed
next
  case (other_call d as e e')
  have "wf_db e" using run_of_moves [OF other_call.hyps(1)] other_call.prems(1) by (rule moves_wf)
  then show ?case
    using other_call started_stays moves_evolves store_step_moves by blast
qed simp

lemma run_of_distinct:
  assumes "run_of d as e" "wf_db d"
  shows "distinct as"
  using assms
proof (induction rule: run_of.induct)
  case (activated d as w i w')
  have wf: "wf_db (w_db w)"
    using run_of_moves [OF activated.hyps(1)] activated.prems by (rule moves_wf)
  have "i \<notin> set as"
  proof
    assume "i \<in> set as"
    then obtain b where b: "b \<in> set (db_attempts (w_db w))" "att_ID b = i" "att_Status b \<noteq> Pending"
      using run_of_started [OF activated.hyps(1) activated.prems] by blast
    moreover obtain a where "a \<in> set (db_attempts (w_db w))" "att_ID a = i" "att_Status a = Pending"
      using activation_changes [OF wf activated.hyps(2)] by blast
    ultimately show False
      using lookup_distinct [OF wf_distinct(3) [OF wf]] by (metis option.inject)
  qed
  with activated show ?case by simp
qed simp_all

text \<open>
  C4.  At most one activation: along any run of the store, from any sound database and with any
  connection failures, \<open>MarkAttemptInProgress\<close> returns success at most once for an attempt.
  A worker sends only after that success, so an attempt has at most one sender.
\<close>

theorem activated_at_most_once:
  assumes "run_of d as e" "wf_db d"
  shows "distinct as"
  by (rule run_of_distinct [OF assms])

theorem activated_at_most_once_witness:
  "distinct [''a''] \<and> run_of (w_db demo3) [''a''] (w_db demo4)"
proof (intro conjI)
  have "fst (MarkAttemptInProgress ''a'' demo3) = Inr ()" by code_simp
  then have "MarkAttemptInProgress ''a'' demo3 = (Inr (), demo4)"
    unfolding demo4_def by (metis prod.collapse)
  from run_of.activated [OF run_of.no_calls this] show r: "run_of (w_db demo3) [''a''] (w_db demo4)" .
  show "distinct [''a'']"
    by (rule activated_at_most_once [OF r reachable_wf [OF demo_reachable]])
qed

end
