(* ===== verification/Store_Leases.thy ===== *)
theory Store_Leases
  imports Store_Outbox
begin

text \<open>
  What the outbox guarantees: a batch holds only intents that were free and not paused, at
  most as many as asked for; a lease excludes other publishers until it is stale; a report
  counts only under the lease it was made for, and publication is final.
\<close>

subsection \<open>A batch\<close>

abbreviation intent_row :: "db \<Rightarrow> string \<Rightarrow> intent option" where
  "intent_row d i \<equiv> lookup int_ID i (db_outbox d)"

lemma int_ID_claimed [simp]: "int_ID (claimed_row t i) = int_ID i"
  by (simp add: claimed_row_def)

lemma with_dead_letters_intent: "x \<in> set (with_dead_letters d i) \<Longrightarrow> cli_Intent x = i"
  by (auto simp: with_dead_letters_def split: list.splits)

lemma claim_ids_claimable:
  assumes "wf_db d" "int_ID i \<in> set (claim_ids l s t d)" "i \<in> set (db_outbox d)"
  shows "claimable s t d i"
proof -
  from assms(2) obtain j where j: "int_ID j = int_ID i" "j \<in> set (db_outbox d)" "claimable s t d j"
    by (auto simp: claim_ids_def dest!: in_set_takeD)
  then have "j = i"
    using lookup_distinct [OF wf_distinct(4) [OF assms(1)]] assms(3) by (metis option.inject)
  with j(3) show ?thesis by simp
qed

lemma claim_result:
  assumes "wf_db d" "claim l s t d = (xs, d')" "x \<in> set xs"
  obtains i where "i \<in> set (db_outbox d)" "claimable s t d i" "cli_Intent x = claimed_row t i"
    "int_ID i \<in> set (claim_ids l s t d)" "claimed_row t i \<in> set (db_outbox d')"
proof -
  from assms(2,3) obtain i where i: "i \<in> set (db_outbox d)" "int_ID i \<in> set (claim_ids l s t d)"
    and x: "x \<in> set (with_dead_letters d (claimed_row t i))"
    by (auto simp: claim_def Let_def)
  note cli = with_dead_letters_intent [OF x]
  moreover have "claimed_row t i \<in> set (db_outbox d')"
    using i(1,2) assms(2) by (auto simp: claim_def Let_def update_where_def)
  ultimately show thesis using that [OF i(1) claim_ids_claimable [OF assms(1) i(2,1)] cli i(2)] by blast
qed

lemma claim_returned:
  assumes "wf_db d" "claim l s t d = (xs, d')"
  shows "int_ID ` cli_Intent ` set xs \<subseteq> set (claim_ids l s t d)"
proof
  fix k assume "k \<in> int_ID ` cli_Intent ` set xs"
  then obtain x where x: "x \<in> set xs" "k = int_ID (cli_Intent x)" by blast
  from claim_result [OF assms x(1)] x(2) show "k \<in> set (claim_ids l s t d)" by (metis int_ID_claimed)
qed

lemma claim_complete:
  assumes "claim l s t d = (xs, d')" "j \<in> set (db_outbox d)" "int_ID j \<in> set (claim_ids l s t d)"
  shows "int_ID j \<in> int_ID ` cli_Intent ` set xs"
proof -
  have "with_dead_letters d (claimed_row t j) \<noteq> []"
    by (simp add: with_dead_letters_def split: list.splits)
  then obtain x where x: "x \<in> set (with_dead_letters d (claimed_row t j))"
    by (cases "with_dead_letters d (claimed_row t j)") auto
  moreover have "x \<in> set xs" using assms x by (auto simp: claim_def Let_def)
  ultimately show ?thesis using with_dead_letters_intent [OF x] by (metis image_eqI int_ID_claimed)
qed

lemma claim_rest:
  assumes "claim l s t d = (xs, d')" "i \<in> set (db_outbox d)" "int_ID i \<notin> set (claim_ids l s t d)"
  shows "i \<in> set (db_outbox d')"
  using assms by (auto simp: claim_def Let_def update_where_def)

lemma ClaimPendingDispatchIntents_claim:
  assumes "ClaimPendingDispatchIntents l st w = (Inr xs, w')"
  shows "\<exists>t. claim (limit_or 100 l) (stale_seconds st) t (w_db w) = (xs, w_db w')"
  using assms
  by (auto simp: ClaimPendingDispatchIntents_def fail_def stmt_def step_def
    split: if_splits list.splits prod.splits fault.splits)

text \<open>
  A claim takes only intents that were pending, or whose lease is older than the stale
  limit, and that the policies do not pause; it returns exactly rows it has marked publishing
  with the time of the statement, at most \<open>limit\<close> of them (100 when the limit is not
  positive), and every other row of the outbox, a published one in particular, stays as it is.
\<close>

theorem ClaimPendingDispatchIntents_batch:
  assumes wf: "wf_db (w_db w)" and run: "ClaimPendingDispatchIntents l st w = (Inr xs, w')"
  shows "\<exists>t. (\<forall>x \<in> set xs. \<exists>i \<in> set (db_outbox (w_db w)). claimable (stale_seconds st) t (w_db w) i
        \<and> cli_Intent x = claimed_row t i \<and> claimed_row t i \<in> set (db_outbox (w_db w')))
    \<and> card (int_ID ` cli_Intent ` set xs) \<le> limit_or 100 l
    \<and> (\<forall>i \<in> set (db_outbox (w_db w)). int_ID i \<notin> int_ID ` cli_Intent ` set xs \<longrightarrow> i \<in> set (db_outbox (w_db w')))"
proof -
  from ClaimPendingDispatchIntents_claim [OF run] obtain t where
    c: "claim (limit_or 100 l) (stale_seconds st) t (w_db w) = (xs, w_db w')" by blast
  let ?ids = "set (claim_ids (limit_or 100 l) (stale_seconds st) t (w_db w))"
  have "int_ID ` cli_Intent ` set xs \<subseteq> ?ids"
    by (rule claim_returned [OF wf c])
  moreover have "card ?ids \<le> limit_or 100 l"
    by (rule le_trans [OF card_length]) (simp add: claim_ids_def)
  ultimately have "card (int_ID ` cli_Intent ` set xs) \<le> limit_or 100 l"
    by (meson card_mono finite_set le_trans)
  moreover have "i \<in> set (db_outbox (w_db w'))"
    if i: "i \<in> set (db_outbox (w_db w))" "int_ID i \<notin> int_ID ` cli_Intent ` set xs" for i
    using claim_rest [OF c i(1)] claim_complete [OF c i(1)] i(2) by blast
  moreover have "\<exists>i \<in> set (db_outbox (w_db w)). claimable (stale_seconds st) t (w_db w) i
      \<and> cli_Intent x = claimed_row t i \<and> claimed_row t i \<in> set (db_outbox (w_db w'))" if "x \<in> set xs" for x
    using claim_result [OF wf c that] by metis
  ultimately show ?thesis by blast
qed

definition sample3 :: world where
  "sample3 = at_time (9 * second) (sample_db Migrations
     [att_in ''a'' ''n'' 1 Pending, att_in ''b'' ''n'' 2 RetryScheduled, att_in ''c'' ''o'' 1 Pending]
     [intent_for ''i'' (att_in ''a'' ''n'' 1 Pending),
      (intent_for ''j'' (att_in ''b'' ''n'' 2 RetryScheduled))
        \<lparr>int_Status := IPublishing, int_ClaimedAt := Some (7 * second)\<rparr>])"

lemma sample3_ok: "wf_db (w_db sample3)" "calm sample3"
  by (simp_all add: sample3_def sample_wf_defs calm_def)

theorem ClaimPendingDispatchIntents_batch_witness:
  "card (int_ID ` cli_Intent ` set [\<lparr>cli_Intent = claimed_row (9 * second)
          (intent_for ''i'' (att_in ''a'' ''n'' 1 Pending)), cli_DeadLetterID = None\<rparr>]) \<le> limit_or 100 5
   \<and> fst (ClaimPendingDispatchIntents 5 (3 * second) sample3) = Inr [\<lparr>cli_Intent = claimed_row (9 * second)
          (intent_for ''i'' (att_in ''a'' ''n'' 1 Pending)), cli_DeadLetterID = None\<rparr>]"
proof -
  have run: "fst (ClaimPendingDispatchIntents 5 (3 * second) sample3) = Inr [\<lparr>cli_Intent = claimed_row (9 * second)
          (intent_for ''i'' (att_in ''a'' ''n'' 1 Pending)), cli_DeadLetterID = None\<rparr>]"
    by code_simp
  then have "ClaimPendingDispatchIntents 5 (3 * second) sample3 = (Inr [\<lparr>cli_Intent = claimed_row (9 * second)
      (intent_for ''i'' (att_in ''a'' ''n'' 1 Pending)), cli_DeadLetterID = None\<rparr>],
      snd (ClaimPendingDispatchIntents 5 (3 * second) sample3))"
    by (metis prod.collapse)
  from ClaimPendingDispatchIntents_batch [OF sample3_ok(1) this] run show ?thesis by blast
qed

subsection \<open>A lease\<close>

text \<open>
  C8.  A lease is exclusive: an intent that a claim returned is not returned by a later claim
  (of any publisher) that runs before the lease is stale for that publisher's limit.
\<close>

theorem claim_exclusive:
  assumes wf: "wf_db d" and first: "claim l s t d = (xs, d1)"
    and second: "claim l2 s2 t2 d1 = (ys, d2)" and early: "t2 < t + s2 * second"
  shows "int_ID ` cli_Intent ` set xs \<inter> int_ID ` cli_Intent ` set ys = {}"
proof -
  have wf1: "wf_db d1"
  proof -
    have "moves d d1" using first by (auto simp: claim_def Let_def intro!: moves_update_outbox_db)
    with wf show ?thesis by (simp add: moves_def)
  qed
  { fix x y assume x: "x \<in> set xs" and y: "y \<in> set ys" and same: "int_ID (cli_Intent x) = int_ID (cli_Intent y)"
    obtain i where i: "cli_Intent x = claimed_row t i" "claimed_row t i \<in> set (db_outbox d1)"
      using claim_result [OF wf first x] by metis
    obtain j where j: "j \<in> set (db_outbox d1)" "claimable s2 t2 d1 j" "cli_Intent y = claimed_row t2 j"
      using claim_result [OF wf1 second y] by metis
    have "j = claimed_row t i"
      using lookup_distinct [OF wf_distinct(4) [OF wf1]] i j same by (metis int_ID_claimed option.inject)
    with j(2) early have False by (simp add: claimable_def claimed_row_def) }
  then show ?thesis by blast
qed

theorem claim_exclusive_witness:
  "int_ID ` cli_Intent ` set (fst (claim 1 3 (9 * second) (w_db sample3)))
     \<inter> int_ID ` cli_Intent ` set (fst (claim 5 3 (11 * second) (snd (claim 1 3 (9 * second) (w_db sample3))))) = {}"
  by (rule claim_exclusive [OF sample3_ok(1) prod.collapse [symmetric] prod.collapse [symmetric]])
    (simp add: second_def)

subsection \<open>Reports\<close>

lemma find_intent:
  assumes "wf_db d"
  shows "filter (\<lambda>i. int_ID i = k) (db_outbox d) = (case intent_row d k of None \<Rightarrow> [] | Some i \<Rightarrow> [i])"
    "filter (leased k t) (db_outbox d) =
      (case intent_row d k of None \<Rightarrow> [] | Some i \<Rightarrow> if leased k t i then [i] else [])"
    "rows_where (leased k t) (db_outbox d) = 0 \<longleftrightarrow>
      (case intent_row d k of None \<Rightarrow> True | Some i \<Rightarrow> \<not> leased k t i)"
proof -
  show "filter (\<lambda>i. int_ID i = k) (db_outbox d) = (case intent_row d k of None \<Rightarrow> [] | Some i \<Rightarrow> [i])"
    by (rule filter_lookup1 [OF wf_distinct(4) [OF assms]])
  have split: "leased k t = (\<lambda>i. int_ID i = k \<and> leased k t i)" by (auto simp: leased_def)
  show f: "filter (leased k t) (db_outbox d) =
      (case intent_row d k of None \<Rightarrow> [] | Some i \<Rightarrow> if leased k t i then [i] else [])"
    by (subst split) (rule filter_lookup [OF wf_distinct(4) [OF assms]])
  show "rows_where (leased k t) (db_outbox d) = 0 \<longleftrightarrow>
      (case intent_row d k of None \<Rightarrow> True | Some i \<Rightarrow> \<not> leased k t i)"
    by (simp add: rows_where_def f split: option.splits)
qed

lemma intent_row_leased:
  assumes "wf_db d" "intent_row d k = Some i" "\<And>j. int_ID (f j) = int_ID j"
  shows "lookup int_ID j (update_where (leased k t) f (db_outbox d)) =
    (if j = k \<and> leased k t i then Some (f i) else intent_row d j)"
proof -
  have "lookup int_ID j (update_where (leased k t) f (db_outbox d)) =
     map_option (\<lambda>r. if leased k t r then f r else r) (intent_row d j)"
    by (rule lookup_update_where) (simp add: assms)
  moreover have "\<not> leased k t r" if "intent_row d j = Some r" "j \<noteq> k" for r
    using lookup_Some [OF that(1)] that(2) by (simp add: leased_def)
  ultimately show ?thesis using assms(2) by (cases "j = k"; cases "intent_row d j") auto
qed

text \<open>What a report leaves: the intent, its attempt, its dead letters; the rest is untouched.\<close>

definition reported :: "string \<Rightarrow> db \<Rightarrow> db \<Rightarrow> intent \<Rightarrow> bool" where
  "reported k d d' i = (\<exists>t t1 t2. intent_row d' k = Some (published_row t i)
     \<and> (\<forall>j. j \<noteq> k \<longrightarrow> intent_row d' j = intent_row d j)
     \<and> db_attempts d' = update_where (\<lambda>a. att_ID a = int_AttemptID i) (enqueued_row t1) (db_attempts d)
     \<and> db_dead_letters d' = (if int_Source i = ''replay'' then
          update_where (\<lambda>l. dl_ReplayAttemptID l = Some (int_AttemptID i)) (replayed_row t2) (db_dead_letters d)
        else db_dead_letters d)
     \<and> db_notifications d' = db_notifications d)"

lemma run_update_outbox_returning [run_intros]:
  "(\<And>t. case filter P (db_outbox d) of [] \<Rightarrow> E SqlNoRows d
      | i # _ \<Rightarrow> Q (f t i) (d\<lparr>db_outbox := update_where P (f t) (db_outbox d)\<rparr>)
          \<and> (ok \<or> E ConnError (d\<lparr>db_outbox := update_where P (f t) (db_outbox d)\<rparr>))) \<Longrightarrow>
   ok \<or> E ConnError d \<Longrightarrow> run ok (update_outbox_returning P f) d E Q"
  unfolding update_outbox_returning_def
  apply (rule run_stmt)
  subgoal premises p for t
    using p(1) [of t] p(2) by (auto split: list.splits)
  by simp

lemma run_MarkDispatchIntentPublished:
  assumes wf: "wf_db d"
  shows "run True (MarkDispatchIntentPublished k c) d
     (\<lambda>e d'. d' = d \<and> (case intent_row d k of None \<Rightarrow> e = ErrNotFound
        | Some i \<Rightarrow> \<not> leased k c i \<and> int_Status i \<noteq> IPublished \<and> e = ErrInvalidStateTransition))
     (\<lambda>_ d'. case intent_row d k of None \<Rightarrow> False
        | Some i \<Rightarrow> if leased k c i then reported k d d' i else int_Status i = IPublished \<and> d' = d)"
proof (cases "intent_row d k")
  case None
  show ?thesis
    unfolding MarkDispatchIntentPublished_def
    by (rule run_intros | rule conjI impI | simp add: None find_intent [OF wf])+
next
  case (Some i)
  have "int_ID (published_row t j) = int_ID j" for t j by (simp add: published_row_def)
  note row = intent_row_leased [OF wf Some this]
  have keep: "int_AttemptID (published_row t i) = int_AttemptID i" "int_Source (published_row t i) = int_Source i" for t
    by (simp_all add: published_row_def)
  show ?thesis
    unfolding MarkDispatchIntentPublished_def
    by (cases "leased k c i")
      (rule run_intros | rule conjI impI | (auto simp: Some reported_def row keep; fail)
        | simp add: Some find_intent [OF wf] keep)+
qed

lemma run_RecordDispatchIntentError:
  assumes wf: "wf_db d"
  shows "run True (RecordDispatchIntentError k c msg) d
     (\<lambda>e d'. d' = d \<and> (case intent_row d k of None \<Rightarrow> e = ErrNotFound
        | Some i \<Rightarrow> \<not> leased k c i \<and> int_Status i \<noteq> IPublished \<and> e = ErrInvalidStateTransition))
     (\<lambda>_ d'. case intent_row d k of None \<Rightarrow> False
        | Some i \<Rightarrow> if leased k c i then d' = d\<lparr>db_outbox := db_outbox d'\<rparr>
              \<and> (\<forall>j. intent_row d' j = (if j = k then Some (released_row msg i) else intent_row d j))
            else int_Status i = IPublished \<and> d' = d)"
proof (cases "intent_row d k")
  case None
  then have same: "update_where (leased k c) f (db_outbox d) = db_outbox d" for f
    using find_intent(3) [OF wf, of k c] by (simp add: rows_where_0 update_where_none)
  show ?thesis
    unfolding RecordDispatchIntentError_def
    by (rule run_intros | rule conjI impI | simp add: None same find_intent [OF wf])+
next
  case (Some i)
  have "int_ID (released_row msg j) = int_ID j" for j by (simp add: released_row_def)
  note row = intent_row_leased [OF wf Some this]
  have same: "\<not> leased k c i \<Longrightarrow> update_where (leased k c) f (db_outbox d) = db_outbox d" for f
    using find_intent(3) [OF wf, of k c] Some by (simp add: rows_where_0 update_where_none)
  show ?thesis
    unfolding RecordDispatchIntentError_def
    by (cases "leased k c i")
      (rule run_intros | rule conjI impI | (auto simp: Some row; fail)
        | simp add: Some same find_intent [OF wf])+
qed

text \<open>
  A report of publication counts only under the lease it was made for: with the database
  answering, \<open>MarkDispatchIntentPublished\<close> on the leased intent publishes it, records the time
  on its attempt and, for a replay, on the dead letters of that attempt; on an intent already
  published it succeeds and changes nothing; under a lost lease (claimed again, or released)
  it is an invalid transition and changes nothing.
\<close>

theorem MarkDispatchIntentPublished_outcome:
  assumes "wf_db (w_db w)" "calm w" "MarkDispatchIntentPublished k c w = (r, w')"
  shows "case intent_row (w_db w) k of
      None \<Rightarrow> r = Inl ErrNotFound \<and> w_db w' = w_db w
    | Some i \<Rightarrow> if leased k c i then r = Inr () \<and> reported k (w_db w) (w_db w') i
        else w_db w' = w_db w \<and> r = (if int_Status i = IPublished then Inr () else Inl ErrInvalidStateTransition)"
  using run_ends [OF run_MarkDispatchIntentPublished [OF assms(1)] assms(2,3)]
  by (auto split: sum.splits option.splits if_splits)

theorem MarkDispatchIntentPublished_outcome_witness:
  "w_db (snd (MarkDispatchIntentPublished ''j'' (6 * second) sample3)) = w_db sample3
   \<and> fst (MarkDispatchIntentPublished ''j'' (6 * second) sample3) = Inl ErrInvalidStateTransition
   \<and> fst (MarkDispatchIntentPublished ''j'' (7 * second) sample3) = Inr ()"
proof -
  have row: "intent_row (w_db sample3) ''j'' = Some ((intent_for ''j'' (att_in ''b'' ''n'' 2 RetryScheduled))
      \<lparr>int_Status := IPublishing, int_ClaimedAt := Some (7 * second)\<rparr>)"
    by (simp add: sample3_def sample_defs lookup_def)
  have "fst (MarkDispatchIntentPublished ''j'' (7 * second) sample3) = Inr ()" by code_simp
  with MarkDispatchIntentPublished_outcome [OF sample3_ok prod.collapse [symmetric], of "''j''" "6 * second"]
  show ?thesis by (simp add: row leased_def second_def)
qed

text \<open>
  Likewise \<open>RecordDispatchIntentError\<close>: under its lease it returns the intent to pending
  with the error, touching nothing else; it leaves a published intent alone, and it cannot
  release an intent that another publisher has claimed since.
\<close>

theorem RecordDispatchIntentError_outcome:
  assumes "wf_db (w_db w)" "calm w" "RecordDispatchIntentError k c msg w = (r, w')"
  shows "case intent_row (w_db w) k of
      None \<Rightarrow> r = Inl ErrNotFound \<and> w_db w' = w_db w
    | Some i \<Rightarrow> if leased k c i then r = Inr () \<and> w_db w' = (w_db w)\<lparr>db_outbox := db_outbox (w_db w')\<rparr>
          \<and> (\<forall>j. intent_row (w_db w') j = (if j = k then Some (released_row msg i) else intent_row (w_db w) j))
        else w_db w' = w_db w \<and> r = (if int_Status i = IPublished then Inr () else Inl ErrInvalidStateTransition)"
  using run_ends [OF run_RecordDispatchIntentError [OF assms(1)] assms(2,3)]
  by (auto split: sum.splits option.splits if_splits)

theorem RecordDispatchIntentError_outcome_witness:
  "w_db (snd (RecordDispatchIntentError ''j'' (6 * second) ''e'' sample3)) = w_db sample3
   \<and> fst (RecordDispatchIntentError ''j'' (6 * second) ''e'' sample3) = Inl ErrInvalidStateTransition
   \<and> fst (RecordDispatchIntentError ''j'' (7 * second) ''e'' sample3) = Inr ()"
proof -
  have row: "intent_row (w_db sample3) ''j'' = Some ((intent_for ''j'' (att_in ''b'' ''n'' 2 RetryScheduled))
      \<lparr>int_Status := IPublishing, int_ClaimedAt := Some (7 * second)\<rparr>)"
    by (simp add: sample3_def sample_defs lookup_def)
  have "fst (RecordDispatchIntentError ''j'' (7 * second) ''e'' sample3) = Inr ()" by code_simp
  with RecordDispatchIntentError_outcome [OF sample3_ok prod.collapse [symmetric], of "''j''" "6 * second" "''e''"]
  show ?thesis by (simp add: row leased_def second_def)
qed

end
