(* ===== verification/Store_Workflows.thy ===== *)
theory Store_Workflows
  imports Store_System Store_Leases
begin

text \<open>
  The workflows built from the methods: retry, replay, the initial dispatch, promotion,
  cancellation and redrive, and maintenance.
\<close>

subsection \<open>What the shared parts leave when they succeed\<close>

abbreviation gives :: "('x world_scheme, 'a) sm \<Rightarrow> db \<Rightarrow> ('a \<Rightarrow> db \<Rightarrow> bool) \<Rightarrow> bool" where
  "gives m d Q \<equiv> run False m d (\<lambda>_ _. True) Q"

lemma gives_Inr: "gives m (w_db w) Q \<Longrightarrow> m w = (Inr x, w') \<Longrightarrow> Q x (w_db w')"
  using run_Inr [of False m w "\<lambda>_ _. True" Q x w'] by simp

lemma gives_existing_attempt:
  "Q None d \<Longrightarrow> (\<And>a. a \<in> set (db_attempts d) \<Longrightarrow> att_ID a = i \<Longrightarrow> Q (Some (scanDeliveryAttempt a)) d) \<Longrightarrow>
     gives (existing_attempt i) d Q"
  unfolding existing_attempt_def getAttemptByIDTx_def
  by (rule run_intros | rule conjI impI | simp)+ (auto split: list.split simp: filter_eq_Cons_iff intro!: run_return run_fail)

lemma gives_not_due:
  "(\<And>b. (\<not> b \<longrightarrow> att_Status a = RetryScheduled) \<Longrightarrow> Q b d) \<Longrightarrow> gives (not_due a) d Q"
  unfolding not_due_def is_later_def
  by (intro run_intros) auto

lemma gives_createDeliveryAttemptTx:
  "(\<And>t. Q (new_attempt p t) (d\<lparr>db_attempts := db_attempts d @ [new_attempt p t]\<rparr>)) \<Longrightarrow>
     gives (createDeliveryAttemptTx p) d Q"
  unfolding createDeliveryAttemptTx_def insert_attempt_def
  by (intro run_intros) (auto split: sum.split simp: constrained_Inr)

lemma gives_createDispatchIntentTx:
  assumes "\<And>i os. i \<in> set os \<Longrightarrow> int_AttemptID i = cip_AttemptID p \<Longrightarrow> set (db_outbox d) \<subseteq> set os \<Longrightarrow>
    Q i (d\<lparr>db_outbox := os\<rparr>)"
  shows "gives (createDispatchIntentTx p) d Q"
proof -
  have new: "int_AttemptID (new_intent p t) = cip_AttemptID p" for t by (simp add: new_intent_def)
  have old: "Q i d" if "i \<in> set (db_outbox d)" "int_AttemptID i = cip_AttemptID p" for i
    using assms [of i "db_outbox d"] that by simp
  show ?thesis
    unfolding createDispatchIntentTx_def insert_intent_def
    apply (rule run_or_wrapped, rule run_andThen, rule run_insert_unless)
    subgoal for t
      using assms [of "new_intent p t" "db_outbox d @ [new_intent p t]"] new
      by (auto split: sum.split list.split simp: constrained_Inr filter_eq_Cons_iff
        intro!: run_intros old)
    by simp
qed

lemma gives_fail_prior:
  "(att_Status a \<noteq> RetryScheduled \<Longrightarrow> Q () d) \<Longrightarrow>
   (\<And>t. att_Status a = RetryScheduled \<Longrightarrow> Q () (d\<lparr>db_attempts :=
      update_where (\<lambda>a. att_ID a = i \<and> att_Status a = RetryScheduled) (retried_row t) (db_attempts d)\<rparr>)) \<Longrightarrow>
     gives (fail_prior a i) d Q"
  unfolding fail_prior_def by (intro run_intros) (auto intro: run_return)

text \<open>Recalculating touches the notifications only.\<close>

definition only_notifications :: "db \<Rightarrow> db \<Rightarrow> bool" where
  "only_notifications d d' = (\<exists>ns. d' = d\<lparr>db_notifications := ns\<rparr>)"

interpretation on: db_history only_notifications
proof
  show "only_notifications x x" for x
    unfolding only_notifications_def by (rule exI [of _ "db_notifications x"]) simp
qed (auto simp: only_notifications_def)

lemma gives_Recalculate:
  assumes "\<And>ns. Q () (d\<lparr>db_notifications := ns\<rparr>)"
  shows "gives (RecalculateNotificationStatus i) d Q"
proof -
  have "obeys only_notifications w_db (RecalculateNotificationStatus i)"
    unfolding RecalculateNotificationStatus_def ListDeliveryAttemptsByNotificationID_def is_later_def
      update_notifications_def
    by (intro on.db_compose on.stmt moves_case_prod) (auto simp: only_notifications_def)
  then show ?thesis
    by (rule run_mono [OF run_obeys [where Q = "only_notifications d"]])
      (auto simp: only_notifications_def intro: assms)+
qed

lemmas gives_parts = gives_existing_attempt gives_not_due gives_createDeliveryAttemptTx
  gives_createDispatchIntentTx gives_fail_prior gives_Recalculate

subsection \<open>Retry\<close>

lemma with_tenant_attempt: "x \<in> set (with_tenant scan d a) \<Longrightarrow> rda_Attempt x = scan a \<and> rda_NotificationID x = att_NotificationID a"
  by (auto simp: with_tenant_def)

lemma gives_EnsureRetryAttempt:
  assumes wf: "wf_db d" and p: "attempt_row d s = Some p"
  shows "gives (EnsureRetryAttempt s n) d (\<lambda>item d'. att_ID (rda_Attempt item) = n
     \<and> (\<exists>a \<in> set (db_attempts d'). att_ID a = n)
     \<and> (\<exists>i \<in> set (db_outbox d'). int_AttemptID i = n)
     \<and> (att_Status p = RetryScheduled \<longrightarrow> (\<exists>t. retried_row t p \<in> set (db_attempts d'))))"
proof -
  have found: "filter (\<lambda>a. att_ID a = s) (db_attempts d) = [p]"
    using filter_lookup1 [OF wf_distinct(3) [OF wf], of s] p by simp
  have pd: "p \<in> set (db_attempts d)" "att_ID p = s" using lookup_Some [OF p] by simp_all
  have scan: "att_Status (scanDeliveryAttempt a) = att_Status a" "att_ID (scanDeliveryAttempt a) = att_ID a" for a
    by (simp_all add: scanDeliveryAttempt_def)
  have new: "att_ID (new_attempt (pending_attempt n i c k kind) t) = n" for i c k kind t
    by (simp add: new_attempt_def pending_attempt_def)
  have ens: "cip_AttemptID (ensured_intent a t src) = att_ID a" for a t src
    by (simp add: ensured_intent_def)
  have kept: "(\<exists>b \<in> set (update_where P (retried_row t) as). att_ID b = n) \<longleftrightarrow> (\<exists>a \<in> set as. att_ID a = n)" for P t as
  proof -
    have "att_ID ` set (update_where P (retried_row t) as) = att_ID ` set as"
      by (rule update_where_image) (simp add: retried_row_def)
    then show ?thesis by (metis (mono_tags, lifting) image_iff)
  qed
  have fin: "\<exists>t. retried_row t p \<in> set (update_where (\<lambda>a. att_ID a = s \<and> att_Status a = RetryScheduled) (retried_row u) as)"
    if "p \<in> set as" "att_Status p = RetryScheduled" for as u
    using that pd by (auto simp: update_where_def intro!: exI [of _ u])
  show ?thesis
  proof (cases "with_tenant scanDeliveryAttempt d p")
    case Nil
    then show ?thesis
      unfolding EnsureRetryAttempt_def
      by (intro run_andThen run_transaction run_or_not_found run_query_row) (simp_all add: found)
  next
    case (Cons item items)
    then have item: "rda_Attempt item = scanDeliveryAttempt p"
      using with_tenant_attempt [of item scanDeliveryAttempt d p] by simp
    show ?thesis
      unfolding EnsureRetryAttempt_def
      apply (rule run_andThen, rule run_transaction, rule run_andThen, rule run_or_not_found, rule run_query_row)
        apply (simp add: found Cons)
        apply (rule gives_parts run_intros | rule conjI impI
          | (auto simp: scan new ens pd item kept intro: fin; fail) | simp add: scan new ens item kept)+
      done
  qed
qed

text \<open>
  C9.  \<open>EnsureRetryAttempt\<close>, when it succeeds, whatever the connection did before, leaves the
  retry complete: an attempt with the given identifier, an intent that asks for its dispatch
  (exactly one, by the keys), and a prior attempt no longer scheduled for retry but failed.
\<close>

theorem EnsureRetryAttempt_complete:
  assumes "wf_db (w_db w)" "attempt_row (w_db w) s = Some p"
    and "EnsureRetryAttempt s n w = (Inr item, w')"
  shows "att_ID (rda_Attempt item) = n
    \<and> (\<exists>a \<in> set (db_attempts (w_db w')). att_ID a = n)
    \<and> length (filter (\<lambda>i. int_AttemptID i = n) (db_outbox (w_db w'))) = 1
    \<and> (att_Status p = RetryScheduled \<longrightarrow> (\<exists>t. attempt_row (w_db w') s = Some (retried_row t p)))"
proof -
  have wf': "wf_db (w_db w')"
    using obeys_moves [OF assms(3) moves_EnsureRetryAttempt] assms(1) by (rule moves_wf)
  from gives_Inr [OF gives_EnsureRetryAttempt [OF assms(1,2)] assms(3)]
  have res: "att_ID (rda_Attempt item) = n" "\<exists>a \<in> set (db_attempts (w_db w')). att_ID a = n"
    and i: "\<exists>i \<in> set (db_outbox (w_db w')). int_AttemptID i = n"
    and p: "att_Status p = RetryScheduled \<longrightarrow> (\<exists>t. retried_row t p \<in> set (db_attempts (w_db w')))"
    by simp_all
  have "filter (\<lambda>i. int_AttemptID i = n) (db_outbox (w_db w')) = (case lookup int_AttemptID n (db_outbox (w_db w')) of
      None \<Rightarrow> [] | Some i \<Rightarrow> [i])"
    by (rule filter_lookup1 [OF wf_distinct(5) [OF wf']])
  moreover have "lookup int_AttemptID n (db_outbox (w_db w')) \<noteq> None"
    using i by (auto simp: lookup_None)
  ultimately have "length (filter (\<lambda>i. int_AttemptID i = n) (db_outbox (w_db w'))) = 1" by auto
  moreover have "att_Status p = RetryScheduled \<longrightarrow> (\<exists>t. attempt_row (w_db w') s = Some (retried_row t p))"
  proof
    assume "att_Status p = RetryScheduled"
    then obtain t where "retried_row t p \<in> set (db_attempts (w_db w'))" using p by blast
    from lookup_distinct [OF wf_distinct(3) [OF wf'] this] lookup_Some [OF assms(2)]
    show "\<exists>t. attempt_row (w_db w') s = Some (retried_row t p)" by (auto simp: retried_row_def)
  qed
  ultimately show ?thesis using res by blast
qed

lemma retry_sample:
  "EnsureRetryAttempt ''b'' ''x'' sample3 = (Inr (projr (fst (EnsureRetryAttempt ''b'' ''x'' sample3))),
     snd (EnsureRetryAttempt ''b'' ''x'' sample3))"
proof -
  have "isl (fst (EnsureRetryAttempt ''b'' ''x'' sample3)) = False" by code_simp
  then show ?thesis by (metis prod.collapse sum.collapse(2))
qed

lemma retry_sample_prior: "attempt_row (w_db sample3) ''b'' = Some (att_in ''b'' ''n'' 2 RetryScheduled)"
  by (simp add: sample3_def sample_defs lookup_def)

theorem EnsureRetryAttempt_complete_witness:
  "length (filter (\<lambda>i. int_AttemptID i = ''x'') (db_outbox (w_db (snd (EnsureRetryAttempt ''b'' ''x'' sample3))))) = 1
   \<and> map att_Status (db_attempts (w_db (snd (EnsureRetryAttempt ''b'' ''x'' sample3)))) = [Pending, Failed, Pending, Pending]"
proof (intro conjI)
  show "map att_Status (db_attempts (w_db (snd (EnsureRetryAttempt ''b'' ''x'' sample3)))) = [Pending, Failed, Pending, Pending]"
    by code_simp
qed (use EnsureRetryAttempt_complete [OF sample3_ok(1) retry_sample_prior retry_sample] in blast)

text \<open>
  C14.  Because the prior attempt of a retry is recorded as failed, a notification that was
  retried is never \<^verbatim>\<open>delivered\<close> again: at every later moment the status derived from its
  attempts is another one, however its retries end (\<^verbatim>\<open>partially_delivered\<close> when one was sent).
\<close>

theorem retried_never_delivered:
  assumes "wf_db (w_db w)" "attempt_row (w_db w) s = Some p" "att_Status p = RetryScheduled"
    and "EnsureRetryAttempt s n w = (Inr item, w')" and "evolves (w_db w') d"
  shows "deriveNotificationStatus (attempts_of (att_NotificationID p) d) \<noteq> NDelivered"
proof -
  obtain t where "retried_row t p \<in> set (db_attempts (w_db w'))"
    using gives_Inr [OF gives_EnsureRetryAttempt [OF assms(1,2)] assms(4)] assms(3) by blast
  then obtain b where b: "b \<in> set (db_attempts d)" "attempt_move (retried_row t p) b"
    using assms(5) unfolding evolves_def by blast
  then have "att_Status b = Failed" "att_NotificationID b = att_NotificationID p"
    by (auto simp: attempt_move_def attempt_key_def retried_row_def)
  with b(1) have "Failed \<in> att_Status ` {a \<in> set (db_attempts d). att_NotificationID a = att_NotificationID p}"
    by force
  then show ?thesis unfolding derive_rollup attempts_of_statuses by (auto simp: rollup_def)
qed

theorem retried_never_delivered_witness:
  "deriveNotificationStatus (attempts_of ''n'' (w_db (snd (EnsureRetryAttempt ''b'' ''x'' sample3)))) \<noteq> NDelivered"
  using retried_never_delivered [OF sample3_ok(1) retry_sample_prior _ retry_sample evolves_refl]
  by (simp add: sample_defs)

subsection \<open>What always fails\<close>

lemma run_existing_none:
  "attempt_row d n = None \<Longrightarrow> Q None d \<Longrightarrow> ok \<or> E ConnError d \<Longrightarrow> run ok (existing_attempt n) d E Q"
proof -
  assume n: "attempt_row d n = None" and q: "Q None d" "ok \<or> E ConnError d"
  have "filter (\<lambda>a. att_ID a = n) (db_attempts d) = []"
    using n by (auto simp: lookup_None filter_empty_conv)
  with q show ?thesis
    unfolding existing_attempt_def getAttemptByIDTx_def
    by (intro run_intros) (auto intro!: run_intros)
qed

text \<open>
  The two older finalizers cannot create an attempt: their insert returns sixteen columns
  where the code scans eighteen, so whenever the new attempt does not exist yet the call ends
  in an error and the transaction is rolled back, whatever the database holds.
\<close>

theorem older_finalizers_never_create:
  assumes "attempt_row (w_db w) n = None"
  shows "isl (fst (FinalizeRetryDispatch s n w)) \<and> w_db (snd (FinalizeRetryDispatch s n w)) = w_db w
    \<and> isl (fst (FinalizeDeadLetterReplay l n w)) \<and> w_db (snd (FinalizeDeadLetterReplay l n w)) = w_db w"
proof -
  let ?d = "w_db w"
  have "run False (FinalizeRetryDispatch s n) ?d (\<lambda>_ d'. d' = ?d) (\<lambda>_ _. False)"
    unfolding FinalizeRetryDispatch_def not_due_def
    by (rule run_existing_none [OF assms] run_intros | (simp split: list.split sum.split; fail)
      | rule conjI impI | simp split: list.split sum.split | intro allI impI)+
  from run_ends [OF this _ prod.collapse [symmetric]]
  have 1: "isl (fst (FinalizeRetryDispatch s n w)) \<and> w_db (snd (FinalizeRetryDispatch s n w)) = ?d"
    by (auto split: sum.splits)
  have "run False (FinalizeDeadLetterReplay l n) ?d (\<lambda>_ d'. d' = ?d) (\<lambda>_ _. False)"
    unfolding FinalizeDeadLetterReplay_def lockDeadLetter_def
    by (rule run_existing_none [OF assms] run_intros | (simp split: list.split sum.split; fail)
      | rule conjI impI | simp split: list.split sum.split | intro allI impI)+
  from run_ends [OF this _ prod.collapse [symmetric]]
  have "isl (fst (FinalizeDeadLetterReplay l n w)) \<and> w_db (snd (FinalizeDeadLetterReplay l n w)) = ?d"
    by (auto split: sum.splits)
  with 1 show ?thesis by blast
qed

theorem older_finalizers_never_create_witness:
  "isl (fst (FinalizeRetryDispatch ''b'' ''x'' sample3)) \<and> \<not> isl (fst (EnsureRetryAttempt ''b'' ''x'' sample3))"
proof
  show "isl (fst (FinalizeRetryDispatch ''b'' ''x'' sample3))"
    using older_finalizers_never_create [where w = sample3 and n = "''x''" and s = "''b''"] by (simp add: sample3_def sample_defs lookup_def)
  show "\<not> isl (fst (EnsureRetryAttempt ''b'' ''x'' sample3))" by code_simp
qed



end
