(* ===== verification/Store_Operations.thy ===== *)
theory Store_Operations
  imports Store_Workflows
begin

text \<open>
  What the operations on whole notifications do: submission, the initial dispatch and its
  repair, promotion of what is due, cancellation, and the maintenance pass.
\<close>

subsection \<open>Maintenance\<close>

definition maintained :: "cleanup_params \<Rightarrow> time \<Rightarrow> db \<Rightarrow> db" where
  "maintained p now d = d\<lparr>
     db_audits := filter (\<lambda>e. \<not> old_audit (now - clp_AuditRetention p) e) (db_audits d),
     db_outbox := filter (\<lambda>i. \<not> old_intent (now - clp_OutboxRetention p) i) (db_outbox d),
     db_dead_letters := (if clp_DeadLetterRetention p > 0
       then filter (\<lambda>l. \<not> old_dead_letter (now - clp_DeadLetterRetention p) l) (db_dead_letters d)
       else db_dead_letters d)\<rparr>"

definition maintenance_report :: "cleanup_params \<Rightarrow> time \<Rightarrow> db \<Rightarrow> cleanup_result" where
  "maintenance_report p now d = \<lparr>clr_DryRun = clp_DryRun p,
     clr_AuditEventsDeleted = rows_where (old_audit (now - clp_AuditRetention p)) (db_audits d),
     clr_PublishedOutboxDeleted = rows_where (old_intent (now - clp_OutboxRetention p)) (db_outbox d),
     clr_DeadLettersDeleted = (if clp_DeadLetterRetention p > 0
       then rows_where (old_dead_letter (now - clp_DeadLetterRetention p)) (db_dead_letters d) else 0),
     clr_ExecutedAt = now\<rparr>"

lemma run_or_now [run_intros]: "(\<And>u. (t \<noteq> 0 \<Longrightarrow> u = t) \<Longrightarrow> Q u d) \<Longrightarrow> run ok (or_now t) d E Q"
  unfolding or_now_def by (intro run_intros) auto

lemma run_Let [run_intros]: "run ok (f x) d E Q \<Longrightarrow> run ok (let y = x in f y) d E Q"
  by simp

lemma run_RunMaintenance:
  assumes "0 < clp_AuditRetention p" "0 < clp_OutboxRetention p" "0 \<le> clp_DeadLetterRetention p"
  shows "run True (RunMaintenance p) d (\<lambda>_ _. False)
    (\<lambda>res d'. \<exists>now. (clp_Now p \<noteq> 0 \<longrightarrow> now = clp_Now p) \<and> res = maintenance_report p now d
       \<and> d' = (if clp_DryRun p then d else maintained p now d))"
  unfolding RunMaintenance_def
  by (rule run_intros | rule conjI impI | (use assms in \<open>simp; fail\<close>)
    | (auto simp: maintenance_report_def maintained_def; fail))+

text \<open>
  A maintenance pass with valid retentions reports exactly the rows older than its
  cutoffs: audit events by creation, intents by publication (only published ones), dead
  letters by replay (only replayed ones, and only when their retention is positive).  A dry
  run leaves the tables as they are, a real run deletes those rows and nothing else.
\<close>

theorem RunMaintenance_outcome:
  assumes "calm w" "0 < clp_AuditRetention p" "0 < clp_OutboxRetention p" "0 \<le> clp_DeadLetterRetention p"
    and "RunMaintenance p w = (r, w')"
  shows "\<exists>now. (clp_Now p \<noteq> 0 \<longrightarrow> now = clp_Now p) \<and> r = Inr (maintenance_report p now (w_db w))
    \<and> w_db w' = (if clp_DryRun p then w_db w else maintained p now (w_db w))"
  using run_ends [OF run_RunMaintenance [OF assms(2-4)] _ assms(5)] assms(1)
  by (auto split: sum.splits)

definition sample4 :: world where
  "sample4 = at_time (9 * second) ((sample_db Migrations [att_in ''a'' ''n'' 1 Sent, att_in ''c'' ''o'' 1 Pending]
     [(intent_for ''i'' (att_in ''a'' ''n'' 1 Sent))\<lparr>int_Status := IPublished, int_PublishedAt := Some 3\<rparr>])
     \<lparr>db_audits := [\<lparr>aud_ID = ''e'', aud_TenantID = ''t'', aud_Actor = ''x'', aud_Action = ''y'',
       aud_ResourceType = ''z'', aud_ResourceID = ''n'', aud_Metadata = JNull, aud_CreatedAt = 4\<rparr>]\<rparr>)"

definition cleanup :: "bool \<Rightarrow> cleanup_params" where
  "cleanup dry = \<lparr>clp_Now = 10, clp_AuditRetention = 7, clp_OutboxRetention = 5,
     clp_DeadLetterRetention = 0, clp_DryRun = dry\<rparr>"

theorem RunMaintenance_outcome_witness:
  "w_db (snd (RunMaintenance (cleanup False) sample4)) = maintained (cleanup False) 10 (w_db sample4)
   \<and> map int_ID (db_outbox (maintained (cleanup False) 10 (w_db sample4))) = []
   \<and> map aud_ID (db_audits (maintained (cleanup False) 10 (w_db sample4))) = [''e'']"
proof (intro conjI)
  have "calm sample4" "clp_Now (cleanup False) = 10" "0 < clp_AuditRetention (cleanup False)"
    "0 < clp_OutboxRetention (cleanup False)" "0 \<le> clp_DeadLetterRetention (cleanup False)"
    "\<not> clp_DryRun (cleanup False)"
    by (simp_all add: sample4_def cleanup_def)
  with RunMaintenance_outcome [of sample4 "cleanup False", OF _ _ _ _ prod.collapse [symmetric]]
  show "w_db (snd (RunMaintenance (cleanup False) sample4)) = maintained (cleanup False) 10 (w_db sample4)"
    by auto
qed (code_simp+)

subsection \<open>Cancellation\<close>

lemma run_missing_or_invalid [run_intros]:
  "(notification_exists d i \<Longrightarrow> E ErrInvalidStateTransition d) \<Longrightarrow> (\<not> notification_exists d i \<Longrightarrow> E ErrNotFound d) \<Longrightarrow>
     ok \<or> E ConnError d \<Longrightarrow> run ok (missing_or_invalid i) d E Q"
  unfolding missing_or_invalid_def by (intro run_intros) auto

lemma run_scanNotification [run_intros]:
  "case unmarshalVariables (ntf_Variables n) of Inl e \<Rightarrow> E e d | Inr v \<Rightarrow> Q (n\<lparr>ntf_Variables := v\<rparr>) d \<Longrightarrow>
     run ok (scanNotification n) d E Q"
  unfolding scanNotification_def by (auto split: sum.splits intro: run_intros)

lemma run_cancel:
  assumes wf: "wf_db d"
  shows "run True (CancelScheduledNotification i) d
    (\<lambda>e d'. \<exists>t. case notification_row d i of
        None \<Rightarrow> e = ErrNotFound \<and> d' = d
      | Some n \<Rightarrow> if cancellable t d n
          then unmarshalVariables (ntf_Variables n) = Inl e
            \<and> d' = d\<lparr>db_notifications := update_where (\<lambda>n. ntf_ID n = i) (cancelled_row t) (db_notifications d)\<rparr>
          else e = ErrInvalidStateTransition \<and> d' = d)
    (\<lambda>m d'. \<exists>t. case notification_row d i of
        None \<Rightarrow> False
      | Some n \<Rightarrow> cancellable t d n \<and> unmarshalVariables (ntf_Variables n) = Inr (ntf_Variables m)
            \<and> m = (cancelled_row t n)\<lparr>ntf_Variables := ntf_Variables m\<rparr>
            \<and> d' = d\<lparr>db_notifications := update_where (\<lambda>n. ntf_ID n = i) (cancelled_row t) (db_notifications d)\<rparr>)"
    (is "run True _ d ?E ?Q")
proof (cases "notification_row d i")
  case None
  have gone: "i \<notin> ntf_ID ` set (db_notifications d)" using None by (simp add: lookup_None)
  have 0: "rows_where (\<lambda>n. ntf_ID n = i \<and> cancellable t d n) (db_notifications d) = 0"
    "update_where (\<lambda>n. ntf_ID n = i \<and> cancellable t d n) f (db_notifications d) = db_notifications d" for t f
    using gone by (auto simp: rows_where_0 intro!: update_where_none)
  show ?thesis
    unfolding CancelScheduledNotification_def
    by (rule run_intros | rule conjI impI | simp add: None 0 gone notification_exists_def)+
next
  case (Some n)
  let ?P = "\<lambda>t m. ntf_ID m = i \<and> cancellable t d m"
  have n: "n \<in> set (db_notifications d)" "ntf_ID n = i" using lookup_Some [OF Some] by simp_all
  have uniq: "m = n" if "m \<in> set (db_notifications d)" "ntf_ID m = i" for m
    using notification_unique [OF wf that(1) n(1)] that(2) n(2) by simp
  have rows: "rows_where (?P t) (db_notifications d) = 0 \<longleftrightarrow> \<not> cancellable t d n" for t
    unfolding rows_where_0 using uniq n by blast
  have none: "update_where (?P t) f (db_notifications d) = db_notifications d" if "\<not> cancellable t d n" for t f
    by (rule update_where_none) (use that uniq in blast)
  have all: "update_where (?P t) f (db_notifications d) = update_where (\<lambda>m. ntf_ID m = i) f (db_notifications d)"
    if "cancellable t d n" for t f
    by (rule update_where_cong) (use that uniq in blast)
  have row: "filter (\<lambda>m. ntf_ID m = i) (update_where (\<lambda>m. ntf_ID m = i) (cancelled_row t) (db_notifications d))
      = [cancelled_row t n]" for t
  proof -
    have "filter (\<lambda>m. ntf_ID m = i) (update_where (\<lambda>m. ntf_ID m = i) (cancelled_row t) rs)
        = map (cancelled_row t) (filter (\<lambda>m. ntf_ID m = i) rs)" for rs
      by (induction rs) (simp_all add: update_where_def cancelled_row_def)
    then show ?thesis using filter_lookup1 [OF wf_distinct(2) [OF wf], of i] Some by simp
  qed
  have ex: "notification_exists d i" using n by (auto simp: notification_exists_def)
  have vars: "ntf_Variables (cancelled_row t n) = ntf_Variables n" for t by (simp add: cancelled_row_def)
  have free: "run True (GetNotificationByID i)
      (d\<lparr>db_notifications := update_where (\<lambda>m. ntf_ID m = i) (cancelled_row t) (db_notifications d)\<rparr>) ?E ?Q"
    if "cancellable t d n" for t
    unfolding GetNotificationByID_def
    by (rule run_intros | simp add: row)+ (use that in \<open>auto simp: Some vars split: sum.split intro!: exI [of _ t]\<close>)
  have refused: "run True (missing_or_invalid i) d ?E ?Q" if "\<not> cancellable t d n" for t
    by (rule run_intros) (use that in \<open>auto simp: Some ex intro!: exI [of _ t]\<close>)
  show ?thesis
    unfolding CancelScheduledNotification_def
    apply (rule run_andThen, rule run_updates(2), rule conjI)
      apply (rule run_If)
    subgoal for t using refused [of t] none [of t] rows [of t] by simp
    subgoal for t using free [of t] all [of t] rows [of t] by simp
    by simp_all
qed


definition sample5 :: world where
  "sample5 = at_time 7 (sample_db Migrations
     [att_in ''a'' ''n'' 1 Pending, att_in ''b'' ''n'' 2 RetryScheduled, att_in ''c'' ''o'' 1 Pending]
     [intent_for ''i'' (att_in ''a'' ''n'' 1 Pending)])"

lemma sample5_ok: "wf_db (w_db sample5)" "calm sample5"
  by (simp_all add: sample5_def sample_wf_defs calm_def)

lemma sample5_rows:
  "notification_row (w_db sample5) ''n'' = Some ntf1" "notification_row (w_db sample5) ''o'' = Some ntf2"
  by (simp_all add: sample5_def sample_defs lookup_def)


subsection \<open>Promotion\<close>

text \<open>What a promotion has done for the rows it chose, in the tables \<open>d'\<close>.\<close>

definition promoted_in :: "db \<Rightarrow> notification \<times> attempt \<Rightarrow> promoted \<Rightarrow> bool" where
  "promoted_in d' p item = (ntf_ID (prm_Notification item) = ntf_ID (fst p)
     \<and> prm_Attempt item = scanDeliveryAttempt (snd p)
     \<and> int_AttemptID (prm_Intent item) = att_ID (snd p)
     \<and> (\<exists>i \<in> set (db_outbox d'). int_AttemptID i = att_ID (snd p))
     \<and> (\<exists>n \<in> set (db_notifications d'). ntf_ID n = ntf_ID (fst p) \<and> ntf_PromotedAt n \<noteq> None))"

definition keeps_promoted :: "db \<Rightarrow> db \<Rightarrow> bool" where
  "keeps_promoted d d' = ((\<forall>i \<in> set (db_outbox d). i \<in> set (db_outbox d'))
     \<and> (\<forall>m \<in> set (db_notifications d). \<exists>n \<in> set (db_notifications d'). ntf_ID n = ntf_ID m
          \<and> set_once (ntf_PromotedAt m) (ntf_PromotedAt n)))"

interpretation kp: db_history keeps_promoted
proof unfold_locales
  show "keeps_promoted x x" for x by (auto simp: keeps_promoted_def)
  show "keeps_promoted x z" if "keeps_promoted x y" "keeps_promoted y z" for x y z
    using that unfolding keeps_promoted_def by (metis set_once_trans)
qed

lemma promoted_in_keeps: "promoted_in d p item \<Longrightarrow> keeps_promoted d d' \<Longrightarrow> promoted_in d' p item"
  unfolding promoted_in_def keeps_promoted_def set_once_def by (metis option.distinct(1))

lemma keeps_promoted_update:
  assumes "\<And>n. P n \<Longrightarrow> ntf_ID (f n) = ntf_ID n \<and> set_once (ntf_PromotedAt n) (ntf_PromotedAt (f n))"
  shows "keeps_promoted d (d\<lparr>db_notifications := update_where P f (db_notifications d)\<rparr>)"
  using assms unfolding keeps_promoted_def
  by (auto intro!: update_where_bex [where M = "\<lambda>m n. ntf_ID n = ntf_ID m \<and> set_once (ntf_PromotedAt m) (ntf_PromotedAt n)"])

lemma kp_Recalculate: "obeys keeps_promoted w_db (RecalculateNotificationStatus i)"
  unfolding RecalculateNotificationStatus_def ListDeliveryAttemptsByNotificationID_def is_later_def
    update_notifications_def
  by (intro kp.db_compose kp.stmt moves_case_prod) (auto intro!: keeps_promoted_update)

lemma gives_promote_one:
  assumes n: "\<exists>m \<in> set (db_notifications d). ntf_ID m = ntf_ID n" and old: "list_all2 (promoted_in d) pre items"
    and k: "keeps_promoted d0 d"
  shows "gives (andThen (scanNotification n) (\<lambda>n'.
         andThen (createDispatchIntentTx (promotion_intent n' a ''scheduled'')) (\<lambda>i.
         andThen (mark_promoted (ntf_ID n') now) (\<lambda>_.
         return \<lparr>prm_Notification = n'\<lparr>ntf_PromotedAt := Some now\<rparr>,
           prm_Attempt = scanDeliveryAttempt a, prm_Intent = i\<rparr>)))) d
     (\<lambda>item d'. list_all2 (promoted_in d') (pre @ [(n, a)]) (items @ [item]) \<and> keeps_promoted d0 d')"
proof -
  let ?f = "\<lambda>t m. m\<lparr>ntf_PromotedAt := Some (coalesce (ntf_PromotedAt m) now), ntf_UpdatedAt := t\<rparr>"
  let ?d = "\<lambda>os t. d\<lparr>db_outbox := os, db_notifications :=
      update_where (\<lambda>m. ntf_ID m = ntf_ID n) (?f t) (db_notifications d)\<rparr>"
  have step: "keeps_promoted d (?d os t)" if "set (db_outbox d) \<subseteq> set os" for os t
    using that keeps_promoted_update [of "\<lambda>m. ntf_ID m = ntf_ID n" "?f t" d]
    by (auto simp: keeps_promoted_def)
  obtain m where m: "m \<in> set (db_notifications d)" "ntf_ID m = ntf_ID n" using n by blast
  have marked: "\<exists>k \<in> set (update_where (\<lambda>m. ntf_ID m = ntf_ID n) (?f t) (db_notifications d)).
      ntf_ID k = ntf_ID n \<and> ntf_PromotedAt k \<noteq> None" for t
    by (rule bexI [of _ "?f t m"]) (use m in \<open>auto simp: update_where_def intro: rev_image_eqI\<close>)
  have after: "list_all2 (promoted_in (?d os t)) (pre @ [(n, a)]) (items @ [\<lparr>prm_Notification = n', 
        prm_Attempt = scanDeliveryAttempt a, prm_Intent = i\<rparr>]) \<and> keeps_promoted d0 (?d os t)"
    if "i \<in> set os" "int_AttemptID i = att_ID a" "set (db_outbox d) \<subseteq> set os" "ntf_ID n' = ntf_ID n" for os t n' i
  proof
    have "list_all2 (promoted_in (?d os t)) pre items"
      by (rule list_all2_mono [OF old]) (rule promoted_in_keeps [OF _ step [OF that(3)]])
    moreover have "promoted_in (?d os t) (n, a) \<lparr>prm_Notification = n', prm_Attempt = scanDeliveryAttempt a, prm_Intent = i\<rparr>"
      using that marked [of t] by (auto simp: promoted_in_def)
    ultimately show "list_all2 (promoted_in (?d os t)) (pre @ [(n, a)]) (items @ [\<lparr>prm_Notification = n', 
        prm_Attempt = scanDeliveryAttempt a, prm_Intent = i\<rparr>])"
      by (intro list_all2_appendI) simp_all
    show "keeps_promoted d0 (?d os t)" by (rule kp.trans [OF k step [OF that(3)]])
  qed
  have ids: "cip_AttemptID (promotion_intent k a s) = att_ID a" for k s by (simp add: promotion_intent_def)
  have rest: "gives (andThen (createDispatchIntentTx (promotion_intent (n\<lparr>ntf_Variables := v\<rparr>) a ''scheduled'')) (\<lambda>i.
         andThen (mark_promoted (ntf_ID n) now) (\<lambda>_.
         return \<lparr>prm_Notification = n\<lparr>ntf_Variables := v, ntf_PromotedAt := Some now\<rparr>,
           prm_Attempt = scanDeliveryAttempt a, prm_Intent = i\<rparr>))) d
     (\<lambda>item d'. list_all2 (promoted_in d') (pre @ [(n, a)]) (items @ [item]) \<and> keeps_promoted d0 d')" for v
    unfolding mark_promoted_def
    apply (rule run_andThen, rule gives_createDispatchIntentTx, rule run_andThen, rule run_updates(2))
     apply (rule conjI, rule run_return)
    subgoal for i os t using after [of i os "n\<lparr>ntf_Variables := v, ntf_PromotedAt := Some now\<rparr>" t] by (simp add: ids)
    by simp_all
  show ?thesis
    apply (rule run_andThen, rule run_scanNotification, cases "unmarshalVariables (ntf_Variables n)")
     apply simp
    subgoal for v using rest [of v] by simp
    done
qed

lemma gives_Promote:
  assumes wf: "wf_db d"
  shows "gives (PromoteDueScheduledNotifications limit now) d (\<lambda>items d'.
    list_all2 (promoted_in d') (take (limit_or 100 limit) (promotable now d)) items)"
proof -
  let ?rows = "take (limit_or 100 limit) (promotable now d)"
  have body: "gives (forEach ?rows (\<lambda>(n, a).
         andThen (scanNotification n) (\<lambda>n'.
         andThen (createDispatchIntentTx (promotion_intent n' a ''scheduled'')) (\<lambda>i.
         andThen (mark_promoted (ntf_ID n') now) (\<lambda>_.
         return \<lparr>prm_Notification = n'\<lparr>ntf_PromotedAt := Some now\<rparr>,
           prm_Attempt = scanDeliveryAttempt a, prm_Intent = i\<rparr>))))) d
     (\<lambda>items d'. list_all2 (promoted_in d') ?rows items \<and> keeps_promoted d d')"
  proof (rule run_forEach [where I = "\<lambda>pre items d'. list_all2 (promoted_in d') pre items \<and> keeps_promoted d d'"])
    fix pre post items d' and x :: "notification \<times> attempt"
    assume x: "?rows = pre @ x # post" and I: "list_all2 (promoted_in d') pre items \<and> keeps_promoted d d'"
    obtain n a where na: "x = (n, a)" by (cases x)
    have "(n, a) \<in> set ?rows" unfolding x na by simp
    then have "n \<in> set (db_notifications d)" using promotable_read by (meson in_set_takeD)
    then have n: "\<exists>m \<in> set (db_notifications d'). ntf_ID m = ntf_ID n"
      using I unfolding keeps_promoted_def by meson
    show "gives ((\<lambda>(n, a). andThen (scanNotification n) (\<lambda>n'.
         andThen (createDispatchIntentTx (promotion_intent n' a ''scheduled'')) (\<lambda>i.
         andThen (mark_promoted (ntf_ID n') now) (\<lambda>_.
         return \<lparr>prm_Notification = n'\<lparr>ntf_PromotedAt := Some now\<rparr>,
           prm_Attempt = scanDeliveryAttempt a, prm_Intent = i\<rparr>)))) x) d'
       (\<lambda>item d''. list_all2 (promoted_in d'') (pre @ [x]) (items @ [item]) \<and> keeps_promoted d d'')"
      unfolding na prod.case by (rule gives_promote_one [OF n]) (use I in simp_all)
  qed (simp add: kp.refl)
  have tail: "gives (andThen (forEach items (\<lambda>item. RecalculateNotificationStatus (ntf_ID (prm_Notification item)))) (\<lambda>_. return items)) d'
      (\<lambda>items d''. list_all2 (promoted_in d'') ?rows items)"
    if "list_all2 (promoted_in d') ?rows items" for items d'
  proof (rule run_andThen, rule run_mono)
    show "run False (forEach items (\<lambda>item. RecalculateNotificationStatus (ntf_ID (prm_Notification item)))) d'
        (\<lambda>_. keeps_promoted d') (\<lambda>_. keeps_promoted d')"
      by (rule run_obeys [where R = keeps_promoted]) (rule kp.forEach kp_Recalculate | assumption)+
    show "gives (return items) e (\<lambda>items d''. list_all2 (promoted_in d'') ?rows items)" if "keeps_promoted d' e" for e
      by (rule run_return, rule list_all2_mono [OF \<open>list_all2 _ _ items\<close>]) (rule promoted_in_keeps [OF _ that])
  qed simp
  show ?thesis
    unfolding PromoteDueScheduledNotifications_def
    apply (rule run_andThen, rule run_transaction, rule run_andThen, rule run_query, rule run_andThen)
       apply (rule run_mono [OF body])
        apply simp
       apply (rule run_commit_with)
       apply (simp add: tail)
    by simp_all
qed



subsection \<open>Submission\<close>

definition same_ids :: "db \<Rightarrow> db \<Rightarrow> bool" where
  "same_ids d d' = (\<exists>ns. d' = d\<lparr>db_notifications := ns\<rparr> \<and> map ntf_ID ns = map ntf_ID (db_notifications d))"

interpretation si: db_history same_ids
proof
  show "same_ids x x" for x
    unfolding same_ids_def by (rule exI [of _ "db_notifications x"]) simp
qed (auto simp: same_ids_def)

lemma si_Recalculate: "obeys same_ids w_db (RecalculateNotificationStatus i)"
  unfolding RecalculateNotificationStatus_def ListDeliveryAttemptsByNotificationID_def is_later_def
    update_notifications_def
  by (intro si.db_compose si.stmt moves_case_prod) (auto simp: same_ids_def intro!: update_where_key)

lemma si_GetNotificationByID: "obeys same_ids w_db (GetNotificationByID i)"
  unfolding GetNotificationByID_def scanNotification_def
  by (rule si.andThen) (auto intro: si.db_compose split: sum.split)

text \<open>All of a submission: the notification, its first attempt, and its intent unless it is later.\<close>

definition submitted :: "dispatch_params \<Rightarrow> db \<Rightarrow> db \<Rightarrow> bool" where
  "submitted p d d' = (\<exists>ns os t. d' = d\<lparr>db_notifications := ns,
       db_attempts := db_attempts d @ [new_attempt (pending_attempt (cdp_AttemptID p)
         (cnp_ID (cdp_Notification p)) (cdp_Channel p) 1 ''initial'') t],
       db_outbox := db_outbox d @ os\<rparr>
     \<and> map ntf_ID ns = map ntf_ID (db_notifications d) @ [cnp_ID (cdp_Notification p)]
     \<and> length os \<le> 1 \<and> (\<forall>i \<in> set os. int_AttemptID i = cdp_AttemptID p \<and> int_Status i = IPending)
     \<and> (cnp_ScheduledFor (cdp_Notification p) = None \<longrightarrow> os \<noteq> []))"

lemma submitted_same_ids: "submitted p d d' \<Longrightarrow> same_ids d' d'' \<Longrightarrow> submitted p d d''"
  unfolding submitted_def same_ids_def
  apply (elim exE conjE)
  subgoal for ns ns' os t
    by (rule exI [of _ ns'], rule exI [of _ os], rule exI [of _ t]) simp
  done

lemma gives_fresh_intent:
  assumes "cip_AttemptID p \<notin> int_AttemptID ` set (db_outbox d)"
    and "\<And>t. Q (new_intent p t) (d\<lparr>db_outbox := db_outbox d @ [new_intent p t]\<rparr>)"
  shows "gives (createDispatchIntentTx p) d Q"
proof -
  have new: "int_AttemptID (new_intent p t) = cip_AttemptID p" for t by (simp add: new_intent_def)
  show ?thesis
    unfolding createDispatchIntentTx_def insert_intent_def
    by (rule run_or_wrapped, rule run_andThen, rule run_insert_unless)
      (auto simp: assms new constrained_Inr split: sum.split intro!: run_intros)
qed

lemma gives_createNotificationTx:
  assumes "\<And>n t later. ntf_ID n = cnp_ID np \<Longrightarrow> ntf_ScheduledFor n = cnp_ScheduledFor np \<Longrightarrow>
     Q n (d\<lparr>db_notifications := db_notifications d @ [new_notification np later t]\<rparr>)"
  shows "gives (createNotificationTx np) d Q"
proof -
  have keep: "ntf_ID (new_notification np later t) = cnp_ID np"
    "ntf_ScheduledFor (new_notification np later t) = cnp_ScheduledFor np" for later t
    by (simp_all add: new_notification_def)
  show ?thesis
    unfolding createNotificationTx_def insert_notification_def
    by (rule run_intros)+ (auto simp: constrained_Inr keep split: sum.split intro!: run_scanNotification assms)
qed

lemma gives_fresh_attempt:
  assumes "\<And>t. cap_ID p \<notin> att_ID ` set (db_attempts d) \<Longrightarrow>
    Q (new_attempt p t) (d\<lparr>db_attempts := db_attempts d @ [new_attempt p t]\<rparr>)"
  shows "gives (createDeliveryAttemptTx p) d Q"
proof -
  have "att_ID (new_attempt p t) = cap_ID p" for t by (simp add: new_attempt_def)
  then show ?thesis
    unfolding createDeliveryAttemptTx_def insert_attempt_def
    by (rule_tac run_or_wrapped, rule_tac run_insert_returning)
      (auto split: sum.split simp: constrained_Inr intro: assms)
qed

lemma run_submission:
  assumes wf: "wf_db d"
  shows "run False (CreateNotificationWithInitialDispatch p) d
    (\<lambda>_ d'. d' = d \<or> submitted p d d') (\<lambda>_ d'. submitted p d d')"
proof -
  have fresh: "cdp_AttemptID p \<notin> int_AttemptID ` set (db_outbox d)"
    if "cdp_AttemptID p \<notin> att_ID ` set (db_attempts d)"
    using wf that by (auto simp: wf_db_defs attempt_exists_def)
  have ids: "att_ID (new_attempt (pending_attempt a n c k kind) t) = a"
    "cap_ID (pending_attempt a n c k kind) = a" for a n c k kind t
    by (simp_all add: new_attempt_def pending_attempt_def)
  have scheduled: "submitted p d (d\<lparr>db_notifications := db_notifications d @ [new_notification (cdp_Notification p) later t],
       db_attempts := db_attempts d @ [new_attempt (pending_attempt (cdp_AttemptID p)
         (cnp_ID (cdp_Notification p)) (cdp_Channel p) 1 ''initial'') u]\<rparr>)"
    if "cnp_ScheduledFor (cdp_Notification p) \<noteq> None" for later t u
    unfolding submitted_def
    by (rule exI [of _ "db_notifications d @ [new_notification (cdp_Notification p) later t]"],
        rule exI [of _ "[]"], rule exI [of _ u]) (use that in \<open>auto simp: new_notification_def\<close>)
  have immediate: "submitted p d (d\<lparr>db_notifications := db_notifications d @ [new_notification (cdp_Notification p) later t],
       db_attempts := db_attempts d @ [new_attempt (pending_attempt (cdp_AttemptID p)
         (cnp_ID (cdp_Notification p)) (cdp_Channel p) 1 ''initial'') u],
       db_outbox := db_outbox d @ [new_intent ip v]\<rparr>)"
    if "cip_AttemptID ip = cdp_AttemptID p" "cip_Status ip = None" for later t u ip v
    unfolding submitted_def
    by (rule exI [of _ "db_notifications d @ [new_notification (cdp_Notification p) later t]"],
        rule exI [of _ "[new_intent ip v]"], rule exI [of _ u])
      (use that in \<open>auto simp: new_notification_def new_intent_def dispatchIntentStatusOrDefault_def coalesce_def\<close>)
  let ?R = "\<lambda>_ d'. submitted p d d'"
  have tail: "run False (andThen m (\<lambda>_. andThen (GetNotificationByID k) (\<lambda>n'. return (n', a, i)))) d'
      (\<lambda>_ d'. d' = d \<or> submitted p d d') ?R"
    if "submitted p d d'" "obeys same_ids w_db m"
    for d' k and m :: "('x world_scheme, unit) sm" and a :: attempt and i :: "intent option"
    by (rule run_mono [OF run_obeys [where R = same_ids and Q = "same_ids d'"]])
      (auto intro!: si.andThen si.return si_GetNotificationByID that(2) intro: submitted_same_ids [OF that(1)])
  show ?thesis
    unfolding CreateNotificationWithInitialDispatch_def
    apply (rule run_andThen, rule run_transaction)
     apply (simp, rule run_andThen, rule gives_createNotificationTx, rule run_andThen, rule gives_fresh_attempt,
       rule run_andThen, rule run_is_later, rule run_If)
    subgoal for n t later ta b
      using scheduled [where later = later and t = t and u = ta]
      by (intro run_commit_with) (auto intro!: tail si.return)
    subgoal for n t later ta b
      apply (rule run_andThen, rule gives_fresh_intent)
       apply (use fresh in \<open>simp add: ids\<close>)
      subgoal for tb
        using immediate [where later = later and t = t and u = ta and v = tb]
        by (intro run_commit_with) (auto simp: ids intro!: tail si.return si_Recalculate)
      done
    by simp
qed

text \<open>
  C7.  A submission is all or nothing, whatever the connection does: after the call the tables
  are as before, or hold exactly the new notification, its first attempt (pending, number one)
  and, unless it is scheduled, one pending intent for that attempt; on success always the latter.
\<close>

theorem CreateNotificationWithInitialDispatch_atomic:
  assumes "wf_db (w_db w)" "CreateNotificationWithInitialDispatch p w = (r, w')"
  shows "submitted p (w_db w) (w_db w') \<or> (w_db w' = w_db w \<and> isl r)"
  using run_ends [OF run_submission [OF assms(1)] _ assms(2)] by (cases r) auto

lemma demo2_wf: "wf_db (w_db demo2)"
  by (rule reachable_wf) (rule reachable.next_call [OF reachable.next_call
    [OF reachable.start demo_steps(1) [simplified]] demo_steps(2)])

definition demo_submission :: dispatch_params where
  "demo_submission = \<lparr>cdp_Notification = \<lparr>cnp_ID = ''n'',
       cnp_TenantID = ''t'', cnp_TemplateID = ''m'', cnp_IdempotencyKey = Some ''k'',
       cnp_RecipientEmail = Some ''a@b'', cnp_RecipientWebhookURL = None,
       cnp_SecondaryWebhookURL = None, cnp_Variables = JNull, cnp_ScheduledFor = None\<rparr>,
     cdp_Channel = ''email'', cdp_AttemptID = ''a'', cdp_IntentID = ''i''\<rparr>"

lemma demo3_eq: "demo3 = snd (CreateNotificationWithInitialDispatch demo_submission demo2)"
  by (simp add: demo3_def demo_submission_def)

theorem CreateNotificationWithInitialDispatch_atomic_witness:
  "submitted demo_submission (w_db demo2) (w_db demo3) \<and> map int_AttemptID (db_outbox (w_db demo3)) = [''a'']"
proof
  have "\<not> isl (fst (CreateNotificationWithInitialDispatch demo_submission demo2))" by code_simp
  with CreateNotificationWithInitialDispatch_atomic [OF demo2_wf prod.collapse [symmetric], of demo_submission]
  show "submitted demo_submission (w_db demo2) (w_db demo3)" unfolding demo3_eq by blast
qed code_simp

subsection \<open>The initial attempt, repaired\<close>

text \<open>The first attempt of a channel exists and has an intent; one that existed is left alone.\<close>

definition initial_ensured :: "string \<Rightarrow> string \<Rightarrow> db \<Rightarrow> attempt \<Rightarrow> db \<Rightarrow> bool" where
  "initial_ensured n c d a d' =
     ((\<exists>b \<in> set (db_attempts d'). attempt_key b = (n, c, 1) \<and> a = scanDeliveryAttempt b
        \<and> (\<exists>j \<in> set (db_outbox d'). int_AttemptID j = att_ID b))
     \<and> ((n, c, 1) \<in> attempt_key ` set (db_attempts d) \<longrightarrow> db_attempts d' = db_attempts d))"

lemma initial_ensured_notifications [simp]:
  "initial_ensured n c d a (d'\<lparr>db_notifications := ns\<rparr>) = initial_ensured n c d a d'"
  by (simp add: initial_ensured_def)

lemma gives_intent_for_initial:
  assumes same: "(n, c, 1) \<in> attempt_key ` set (db_attempts d) \<longrightarrow> db_attempts e = db_attempts d"
  shows "gives (andThen (or_not_found (query_row (\<lambda>_ d. take 1 (map scanDeliveryAttempt
         (filter (\<lambda>a. attempt_key a = (n, c, 1)) (db_attempts d)))))) (\<lambda>a.
       andThen (or_wrapped (createDispatchIntentTx \<lparr>cip_ID = iid,
           cip_NotificationID = att_NotificationID a, cip_AttemptID = att_ID a,
           cip_TenantID = tid, cip_Channel = att_Channel a, cip_Source = ''initial'',
           cip_Status = Some (publishedIntentStatus (att_DispatchEnqueuedAt a)),
           cip_PublishedAt = att_DispatchEnqueuedAt a\<rparr>)) (\<lambda>i.
       commit_with (a, i)))) e (\<lambda>(cm, a, i) d'. cm \<and> initial_ensured n c d a d')"
proof (rule run_andThen, rule run_or_not_found, rule run_query_row)
  have scan: "att_ID (scanDeliveryAttempt b) = att_ID b" for b by (simp add: scanDeliveryAttempt_def)
  show "case take 1 (map scanDeliveryAttempt (filter (\<lambda>a. attempt_key a = (n, c, 1)) (db_attempts e))) of
      [] \<Rightarrow> True | a # _ \<Rightarrow> gives (andThen (or_wrapped (createDispatchIntentTx \<lparr>cip_ID = iid,
         cip_NotificationID = att_NotificationID a, cip_AttemptID = att_ID a,
         cip_TenantID = tid, cip_Channel = att_Channel a, cip_Source = ''initial'',
         cip_Status = Some (publishedIntentStatus (att_DispatchEnqueuedAt a)),
         cip_PublishedAt = att_DispatchEnqueuedAt a\<rparr>)) (\<lambda>i. commit_with (a, i))) e
        (\<lambda>(cm, a, i) d'. cm \<and> initial_ensured n c d a d')"
  proof (cases "filter (\<lambda>a. attempt_key a = (n, c, 1)) (db_attempts e)")
    case (Cons b bs)
    then have b: "b \<in> set (db_attempts e)" "attempt_key b = (n, c, 1)"
      by (auto simp: filter_eq_Cons_iff)
    show ?thesis unfolding Cons
      by (simp, rule run_andThen, rule run_or_wrapped, rule gives_createDispatchIntentTx, rule run_commit_with)
        (use b same in \<open>auto simp: scan initial_ensured_def intro!: bexI [of _ b]\<close>)
  qed simp
qed simp

lemma gives_insert_unless:
  assumes "\<And>t. conflict d (row t) \<Longrightarrow> Q None d"
    and "\<And>t d'. \<not> conflict d (row t) \<Longrightarrow> ins (row t) d = Inr d' \<Longrightarrow> Q (Some (row t)) d'"
  shows "gives (insert_unless conflict check row ins) d Q"
  by (rule run_insert_unless) (use assms in \<open>auto split: sum.split\<close>)

lemma gives_EnsureInitialAttempt:
  "gives (EnsureInitialAttempt n c aid iid) d (\<lambda>(a, i) d'. initial_ensured n c d a d')"
proof -
  have key: "attempt_key (new_attempt (pending_attempt i n c 1 kind) t) = (n, c, 1)" for i kind t
    by (simp add: attempt_key_def new_attempt_def pending_attempt_def)
  have tail: "gives (case x of (a, i) \<Rightarrow> andThen (RecalculateNotificationStatus n) (\<lambda>_. return (a, i))) d'
      (\<lambda>(a, i) d'. initial_ensured n c d a d')"
    if "case x of (a, i) \<Rightarrow> initial_ensured n c d a d'" for x :: "attempt \<times> intent" and d'
    using that by (cases x) (auto intro!: run_andThen gives_Recalculate run_return)
  show ?thesis
    unfolding EnsureInitialAttempt_def
    apply (rule run_andThen, rule run_transaction)
     apply (rule run_mono [where E = "\<lambda>_ _. True" and Q = "\<lambda>(cm, a, i) d'. cm \<and> initial_ensured n c d a d'"])
       apply (rule run_andThen, rule run_or_not_found, rule run_query_row)
        apply (rule list.split [THEN iffD2], intro conjI impI allI, simp)
        apply (rule run_andThen, rule run_or_wrapped, rule gives_insert_unless)
         apply (rule gives_intent_for_initial, simp)
        apply (rule gives_intent_for_initial, simp add: key)
       apply simp_all
    subgoal for x d' using tail [of d' "snd x"] by (cases x) auto
    done
qed

lemma filter_one:
  assumes "distinct (map key rs)" "r \<in> set rs" "key r = k"
  shows "filter (\<lambda>r. key r = k) rs = [r]"
  using filter_lookup1 [OF assms(1), of k] lookup_distinct [OF assms(1,2)] assms(3) by simp

text \<open>
  \<open>EnsureInitialAttempt\<close> repairs a submission whose answer was lost and never duplicates
  it: on success there is exactly one attempt number one on the channel, the one returned, and
  exactly one intent for it; if the attempt was there before, the attempts are untouched.
\<close>

theorem EnsureInitialAttempt_once:
  assumes "wf_db (w_db w)" "EnsureInitialAttempt n c aid iid w = (Inr (a, i), w')"
  shows "(\<exists>b. filter (\<lambda>b. attempt_key b = (n, c, 1)) (db_attempts (w_db w')) = [b] \<and> a = scanDeliveryAttempt b)
    \<and> length (filter (\<lambda>j. int_AttemptID j = att_ID a) (db_outbox (w_db w'))) = 1
    \<and> ((n, c, 1) \<in> attempt_key ` set (db_attempts (w_db w)) \<longrightarrow> db_attempts (w_db w') = db_attempts (w_db w))"
proof -
  have wf': "wf_db (w_db w')"
    using obeys_moves [OF assms(2) moves_EnsureInitialAttempt] assms(1) by (rule moves_wf)
  then have keys: "distinct (map attempt_key (db_attempts (w_db w')))" "distinct (map int_AttemptID (db_outbox (w_db w')))"
    by (simp_all add: wf_db_defs)
  from gives_Inr [OF gives_EnsureInitialAttempt assms(2)]
  have e: "initial_ensured n c (w_db w) a (w_db w')" by simp
  then obtain b j where b: "b \<in> set (db_attempts (w_db w'))" "attempt_key b = (n, c, 1)" "a = scanDeliveryAttempt b"
    and j: "j \<in> set (db_outbox (w_db w'))" "int_AttemptID j = att_ID b"
    unfolding initial_ensured_def by blast
  have "att_ID a = att_ID b" by (simp add: b(3) scanDeliveryAttempt_def)
  then show ?thesis
    using filter_one [OF keys(1) b(1,2)] b(3) filter_one [OF keys(2) j] e
    by (simp add: initial_ensured_def)
qed

theorem EnsureInitialAttempt_once_witness:
  "length (filter (\<lambda>j. int_AttemptID j = ''c'')
     (db_outbox (w_db (snd (EnsureInitialAttempt ''o'' ''email'' ''x'' ''y'' sample5))))) = 1"
proof -
  have "\<not> isl (fst (EnsureInitialAttempt ''o'' ''email'' ''x'' ''y'' sample5))"
    and id: "att_ID (fst (projr (fst (EnsureInitialAttempt ''o'' ''email'' ''x'' ''y'' sample5)))) = ''c''"
    by code_simp+
  then have "EnsureInitialAttempt ''o'' ''email'' ''x'' ''y'' sample5 =
     (Inr (fst (projr (fst (EnsureInitialAttempt ''o'' ''email'' ''x'' ''y'' sample5))),
       snd (projr (fst (EnsureInitialAttempt ''o'' ''email'' ''x'' ''y'' sample5)))),
      snd (EnsureInitialAttempt ''o'' ''email'' ''x'' ''y'' sample5))"
    by (metis prod.collapse sum.collapse(2))
  from EnsureInitialAttempt_once [OF sample5_ok(1) this] id show ?thesis by simp
qed

definition revived :: world where
  "revived = (let w1 = snd (CreateNotificationWithInitialDispatch (demo_submission
        \<lparr>cdp_Notification := (cdp_Notification demo_submission)\<lparr>cnp_ScheduledFor := Some 99\<rparr>\<rparr>) demo2);
      w2 = snd (CancelScheduledNotification ''n'' w1) in
    snd (EnsureInitialAttempt ''n'' ''email'' ''x'' ''y'' w2))"

lemma store_calls:
  "reachable sch (w_db w) \<Longrightarrow> reachable sch (w_db (snd (CreateNotificationWithInitialDispatch dp w)))"
  "reachable sch (w_db w) \<Longrightarrow> reachable sch (w_db (snd (CancelScheduledNotification i w)))"
  "reachable sch (w_db w) \<Longrightarrow> reachable sch (w_db (snd (EnsureInitialAttempt n c a j w)))" for w :: world
  by (erule reachable.next_call, rule store_step.intros, rule prod.collapse [symmetric])+

text \<open>
  The repair path does not look at the schedule: in a reachable state a notification is
  cancelled and yet has an intent that the next publisher will claim, because
  \<open>EnsureInitialAttempt\<close> was called for it after the cancellation.
\<close>

theorem cancelled_can_be_dispatched:
  "\<exists>d n i. reachable Migrations d \<and> n \<in> set (db_notifications d) \<and> ntf_CancelledAt n \<noteq> None
     \<and> i \<in> set (db_outbox d) \<and> int_NotificationID i = ntf_ID n \<and> claimable 1 20 d i"
proof (intro exI conjI)
  show "reachable Migrations (w_db revived)"
    unfolding revived_def Let_def
    by (intro store_calls reachable.next_call [OF reachable.next_call
      [OF reachable.start demo_steps(1) [simplified]] demo_steps(2)])
  let ?n = "hd (db_notifications (w_db revived))" and ?i = "hd (db_outbox (w_db revived))"
  have "db_notifications (w_db revived) \<noteq> []" "db_outbox (w_db revived) \<noteq> []" by code_simp+
  then show "?n \<in> set (db_notifications (w_db revived))" "?i \<in> set (db_outbox (w_db revived))" by simp_all
  show "ntf_CancelledAt ?n \<noteq> None" "int_NotificationID ?i = ntf_ID ?n" "claimable 1 20 (w_db revived) ?i"
    by code_simp+
qed

end
