(* ===== verification/Queue_Jobs.thy ===== *)
theory Queue_Jobs
  imports Store_Model
begin

text \<open>
  The data that travels through Redis (\<^verbatim>\<open>internal/queue/jobs.go\<close>): the dispatch job, the names
  of the queues, and the snapshot of their depths with its two thresholds.
\<close>

definition DispatchQueueName :: string where
  "DispatchQueueName = ''notify:dispatch''"

definition DispatchWebhookQueueName :: string where
  "DispatchWebhookQueueName = ''notify:dispatch:webhook''"

definition DispatchEmailQueueName :: string where
  "DispatchEmailQueueName = ''notify:dispatch:email''"

record dispatch_job =
  job_JobID :: string
  job_NotificationID :: string
  job_AttemptID :: string
  job_TenantID :: string
  job_Channel :: string
  job_CreatedAt :: time

text \<open>The map of depths is the list of its entries; the code only ranges over it.\<close>

record pressure_snapshot =
  prs_Depths :: "(string \<times> int) list"
  prs_SoftLimit :: int
  prs_HardLimit :: int
  prs_RetryAfter :: duration

definition AnySoftLimited :: "pressure_snapshot \<Rightarrow> bool" where
  "AnySoftLimited s = list_ex (\<lambda>(_, depth). depth \<ge> prs_SoftLimit s \<and> prs_SoftLimit s > 0) (prs_Depths s)"

definition AnyHardLimited :: "pressure_snapshot \<Rightarrow> bool" where
  "AnyHardLimited s = list_ex (\<lambda>(_, depth). depth \<ge> prs_HardLimit s \<and> prs_HardLimit s > 0) (prs_Depths s)"

definition AcceptingWrites :: "pressure_snapshot \<Rightarrow> bool" where
  "AcceptingWrites s = (\<not> AnyHardLimited s)"

definition ProcessingQueueName :: "string \<Rightarrow> string" where
  "ProcessingQueueName queueName = queueName @ '':processing''"

definition QueueNameForChannel :: "string \<Rightarrow> string option" where
  "QueueNameForChannel channel =
     (if channel = ''webhook'' then Some DispatchWebhookQueueName
      else if channel = ''email'' then Some DispatchEmailQueueName
      else None)"

lemmas queue_names = DispatchQueueName_def DispatchWebhookQueueName_def DispatchEmailQueueName_def

lemma ProcessingQueueName_inj [simp]: "ProcessingQueueName q = ProcessingQueueName r \<longleftrightarrow> q = r"
  by (simp add: ProcessingQueueName_def)

lemma not_own_processing [simp]: "ProcessingQueueName q \<noteq> q"
  by (simp add: ProcessingQueueName_def)

lemma processing_not_source:
  "ProcessingQueueName q \<notin> {DispatchQueueName, DispatchWebhookQueueName, DispatchEmailQueueName}"
proof -
  have "last (ProcessingQueueName q) = CHR ''g'' \<and> last (butlast (ProcessingQueueName q)) = CHR ''n''
      \<and> last (butlast (butlast (ProcessingQueueName q))) = CHR ''i''"
    by (simp add: ProcessingQueueName_def butlast_append)
  then show ?thesis by (auto simp: queue_names)
qed

end
