(* ===== verification/Strconv.thy ===== *)
theory Strconv
  imports Prelude
begin

text \<open>
  What the code uses of Go's \<^verbatim>\<open>strconv\<close> and \<^verbatim>\<open>strings\<close>: decimal numbers, booleans, joining and
  replacing.  \<^verbatim>\<open>int\<close> is the 64-bit integer.
\<close>

subsection \<open>Decimal numbers\<close>

definition digit_char :: "int \<Rightarrow> char" where
  "digit_char n = char_of (48 + n)"

definition digit_value :: "char \<Rightarrow> int" where
  "digit_value c = of_char c - 48"

definition is_digit :: "char \<Rightarrow> bool" where
  "is_digit c = (48 \<le> (of_char c :: int) \<and> (of_char c :: int) < 58)"

function digits_of :: "int \<Rightarrow> string" where
  "digits_of n = (if n < 10 then [digit_char n] else digits_of (n div 10) @ [digit_char (n mod 10)])"
  by auto
termination by (relation "measure nat") auto

declare digits_of.simps [simp del]

definition Itoa :: "int \<Rightarrow> string" where
  "Itoa n = (if n < 0 then CHR ''-'' # digits_of (- n) else digits_of n)"

definition digits_value :: "string \<Rightarrow> int" where
  "digits_value s = foldl (\<lambda>a c. a * 10 + digit_value c) 0 s"

definition parse_digits :: "string \<Rightarrow> int option" where
  "parse_digits s = (if s \<noteq> [] \<and> list_all is_digit s then Some (digits_value s) else None)"

text \<open>
  \<^verbatim>\<open>strconv.Atoi(s)\<close> and \<^verbatim>\<open>strconv.ParseInt(s, 10, 64)\<close>: an optional sign, at least one digit,
  nothing else, and a value in the range of 64 bits.
\<close>

definition in_int64 :: "int \<Rightarrow> bool" where
  "in_int64 n = (- (2 ^ 63) \<le> n \<and> n < 2 ^ 63)"

definition ranged :: "int option \<Rightarrow> int option" where
  "ranged v = (case v of None \<Rightarrow> None | Some n \<Rightarrow> if in_int64 n then Some n else None)"

definition Atoi :: "string \<Rightarrow> int option" where
  "Atoi s = ranged (case s of
     [] \<Rightarrow> None
   | c # cs \<Rightarrow>
       if c = CHR ''-'' then map_option uminus (parse_digits cs)
       else if c = CHR ''+'' then parse_digits cs
       else parse_digits s)"

lemma of_char_digit_char: "0 \<le> n \<Longrightarrow> n < 10 \<Longrightarrow> (of_char (digit_char n) :: int) = 48 + n"
  by (simp add: digit_char_def)

lemma digit_char [simp]:
  "0 \<le> n \<Longrightarrow> n < 10 \<Longrightarrow> is_digit (digit_char n)"
  "0 \<le> n \<Longrightarrow> n < 10 \<Longrightarrow> digit_value (digit_char n) = n"
  by (simp_all add: is_digit_def digit_value_def of_char_digit_char)

lemma digits_of_nonempty [simp]: "digits_of n \<noteq> []"
  by (simp add: digits_of.simps)

lemma digits_of_digits: "0 \<le> n \<Longrightarrow> list_all is_digit (digits_of n)"
proof (induction n rule: digits_of.induct)
  case (1 n)
  then show ?case by (subst digits_of.simps) simp
qed

lemma digits_value_snoc [simp]: "digits_value (s @ [c]) = digits_value s * 10 + digit_value c"
  by (simp add: digits_value_def)

lemma digits_value_single [simp]: "digits_value [c] = digit_value c"
  by (simp add: digits_value_def)

lemma digits_value_digits_of: "0 \<le> n \<Longrightarrow> digits_value (digits_of n) = n"
proof (induction n rule: digits_of.induct)
  case (1 n)
  then show ?case by (subst digits_of.simps) simp
qed

lemma parse_digits_of: "0 \<le> n \<Longrightarrow> parse_digits (digits_of n) = Some n"
  by (simp add: parse_digits_def digits_of_digits digits_value_digits_of)

lemma Atoi_Itoa [simp]: "in_int64 n \<Longrightarrow> Atoi (Itoa n) = Some n"
proof -
  assume n: "in_int64 n"
  show ?thesis
  proof (cases "n < 0")
    case True
    then show ?thesis using n by (simp add: Atoi_def Itoa_def parse_digits_of ranged_def)
  next
    case False
    obtain c cs where d: "digits_of n = c # cs" by (cases "digits_of n") simp_all
    have "is_digit c" using d digits_of_digits [of n] False by simp
    then have "c \<noteq> CHR ''-''" "c \<noteq> CHR ''+''" by (auto simp: is_digit_def)
    with False n d parse_digits_of [of n] show ?thesis
      by (simp add: Atoi_def Itoa_def ranged_def)
  qed
qed

lemma Atoi_range: "Atoi s = Some n \<Longrightarrow> in_int64 n"
  by (auto simp: Atoi_def ranged_def split: option.splits if_splits)

lemma Itoa_chars: "c \<in> set (Itoa n) \<Longrightarrow> is_digit c \<or> c = CHR ''-''"
  using digits_of_digits [of n] digits_of_digits [of "- n"] by (auto simp: Itoa_def list_all_iff split: if_splits)

lemma in_int64_length [simp]: "in_int64 (int n) \<longleftrightarrow> n < 2 ^ 63"
  by (auto simp: in_int64_def)

subsection \<open>Booleans\<close>

definition ParseBool :: "string \<Rightarrow> bool option" where
  "ParseBool s = (if s \<in> {''1'', ''t'', ''T'', ''TRUE'', ''true'', ''True''} then Some True
     else if s \<in> {''0'', ''f'', ''F'', ''FALSE'', ''false'', ''False''} then Some False else None)"

subsection \<open>Joining and replacing\<close>

definition CR :: char where "CR = CHR 0x0D"

definition LF :: char where "LF = CHR 0x0A"

definition crlf :: string where "crlf = [CR, LF]"

fun Join :: "string list \<Rightarrow> string \<Rightarrow> string" where
  "Join [] sep = []"
| "Join [s] sep = s"
| "Join (s # t # ts) sep = s @ sep @ Join (t # ts) sep"

text \<open>\<^verbatim>\<open>strings.ReplaceAll(s, "\n", "\r\n")\<close>\<close>

definition lf_to_crlf :: "string \<Rightarrow> string" where
  "lf_to_crlf s = concat (map (\<lambda>c. if c = LF then crlf else [c]) s)"

lemma CR_LF [simp]: "CR \<noteq> LF" "LF \<noteq> CR"
  by (simp_all add: CR_def LF_def)

end
