(* ===== verification/Queue_Protocol.thy ===== *)
theory Queue_Protocol
  imports Queue_Jobs Strconv
begin

text \<open>
  The Redis protocol as \<^verbatim>\<open>internal/queue/redis.go\<close> speaks it: writing a command
  (\<^verbatim>\<open>writeCommandLocked\<close>) and reading a reply (\<^verbatim>\<open>readResponseLocked\<close>) from the bytes that have
  arrived, with the number of arrays and items still to read as fuel.  A server that has closed
  the connection is the end of the bytes.
\<close>

subsection \<open>Commands\<close>

definition bulk :: "string \<Rightarrow> string" where
  "bulk part = ''$'' @ Itoa (int (length part)) @ crlf @ part @ crlf"

definition writeCommand :: "string list \<Rightarrow> string" where
  "writeCommand parts = ''*'' @ Itoa (int (length parts)) @ crlf @ concat (map bulk parts)"

subsection \<open>Replies\<close>

text \<open>The Go value \<^verbatim>\<open>any\<close>: nil, \<^verbatim>\<open>int64\<close>, \<^verbatim>\<open>string\<close> or \<^verbatim>\<open>[]any\<close>.\<close>

datatype reply = RNil | RInt int | RString string | RArray "reply list"

definition EOF :: err where "EOF = ErrText ''EOF''"

definition parse_failure :: err where "parse_failure = ErrText ''parse redis reply''"

definition redis_error :: "string \<Rightarrow> err" where
  "redis_error line = ErrText (''redis error: '' @ line)"

definition out_of_fuel :: err where "out_of_fuel = ErrText ''out of fuel''"

text \<open>\<^verbatim>\<open>ReadString('\n')\<close>: the line without its end, and the rest; \<open>None\<close> at the end of the bytes.\<close>

fun read_string :: "string \<Rightarrow> (string \<times> string) option" where
  "read_string [] = None"
| "read_string (c # s) = (if c = LF then Some ([], s)
     else map_option (\<lambda>(l, r). (c # l, r)) (read_string s))"

text \<open>\<^verbatim>\<open>strings.TrimSuffix(line, "\r")\<close>\<close>

definition without_cr :: "string \<Rightarrow> string" where
  "without_cr l = (if l \<noteq> [] \<and> last l = CR then butlast l else l)"

text \<open>
  The part of a reply before its items: a whole reply, or the number of items of an array.
\<close>

datatype head = Whole "err + reply" | Items nat

definition read_head :: "string \<Rightarrow> head \<times> string" where
  "read_head s = (case s of
     [] \<Rightarrow> (Whole (Inl EOF), [])
   | prefix # t \<Rightarrow> (case read_string t of
       None \<Rightarrow> (Whole (Inl EOF), [])
     | Some (l, rest) \<Rightarrow>
         let line = without_cr l in
         if prefix = CHR ''+'' then (Whole (Inr (RString line)), rest)
         else if prefix = CHR ''-'' then (Whole (Inl (redis_error line)), rest)
         else if prefix = CHR '':'' then
           (case Atoi line of None \<Rightarrow> (Whole (Inl parse_failure), rest) | Some v \<Rightarrow> (Whole (Inr (RInt v)), rest))
         else if prefix = CHR ''$'' then
           (case Atoi line of None \<Rightarrow> (Whole (Inl parse_failure), rest) | Some sz \<Rightarrow>
             if sz < 0 then (Whole (Inr RNil), rest)
             else if int (length rest) < sz + 2 then (Whole (Inl EOF), [])
             else (Whole (Inr (RString (take (nat sz) rest))), drop (nat sz + 2) rest))
         else if prefix = CHR ''*'' then
           (case Atoi line of None \<Rightarrow> (Whole (Inl parse_failure), rest) | Some count \<Rightarrow>
             if count < 0 then (Whole (Inr RNil), rest) else (Items (nat count), rest))
         else (Whole (Inl parse_failure), rest)))"

fun read_response :: "nat \<Rightarrow> string \<Rightarrow> (err + reply) \<times> string"
  and read_items :: "nat \<Rightarrow> nat \<Rightarrow> string \<Rightarrow> (err + reply list) \<times> string" where
  "read_response 0 s = (Inl out_of_fuel, s)"
| "read_response (Suc f) s = (case read_head s of
     (Whole v, r) \<Rightarrow> (v, r)
   | (Items n, r) \<Rightarrow> (case read_items f n r of
       (Inl e, r') \<Rightarrow> (Inl e, r') | (Inr vs, r') \<Rightarrow> (Inr (RArray vs), r')))"
| "read_items f 0 s = (Inr [], s)"
| "read_items 0 (Suc n) s = (Inl out_of_fuel, s)"
| "read_items (Suc f) (Suc n) s = (case read_response f s of
     (Inl e, r) \<Rightarrow> (Inl e, r)
   | (Inr v, r) \<Rightarrow> (case read_items f n r of
       (Inl e, r') \<Rightarrow> (Inl e, r') | (Inr vs, r') \<Rightarrow> (Inr (v # vs), r')))"

text \<open>Twice the number of bytes is fuel enough (see below): each reply takes at least one byte.\<close>

definition readResponse :: "string \<Rightarrow> (err + reply) \<times> string" where
  "readResponse s = read_response (Suc (2 * length s)) s"

subsection \<open>The fuel is enough\<close>

lemma read_string_shorter: "read_string s = Some (l, r) \<Longrightarrow> length r < length s"
  by (induction s arbitrary: l r) (auto split: if_splits)

lemma redis_error_not_fuel [simp]: "redis_error l \<noteq> out_of_fuel" "EOF \<noteq> out_of_fuel" "parse_failure \<noteq> out_of_fuel"
  by (simp_all add: redis_error_def out_of_fuel_def EOF_def parse_failure_def)

lemma read_head_progress:
  "read_head s = (h, r) \<Longrightarrow> length r \<le> length s \<and> h \<noteq> Whole (Inl out_of_fuel)
     \<and> (\<forall>v. h = Whole (Inr v) \<longrightarrow> length r < length s) \<and> (\<forall>n. h = Items n \<longrightarrow> length r + 2 \<le> length s)"
  by (cases s) (auto simp: read_head_def Let_def dest!: read_string_shorter split: if_splits option.splits)

lemma read_progress:
  "read_response f s = (x, r) \<Longrightarrow> length r \<le> length s \<and> (\<forall>v. x = Inr v \<longrightarrow> length r < length s)"
  "read_items f n s = (y, r') \<Longrightarrow> length r' \<le> length s"
proof (induction f s and f n s arbitrary: x r and y r' rule: read_response_read_items.induct)
  case (2 f s)
  obtain h r0 where h: "read_head s = (h, r0)" by (cases "read_head s")
  note p = read_head_progress [OF h]
  show ?case
  proof (cases h)
    case (Whole v)
    then show ?thesis using 2(2) h p by auto
  next
    case (Items n)
    then show ?thesis using 2(2) h p 2(1) [OF h [symmetric] Items]
      by (auto split: prod.splits sum.splits)
  qed
next
  case (5 f n s)
  obtain a b where ab: "read_response f s = (a, b)" by (cases "read_response f s")
  then have "length b \<le> length s" using 5(1) by blast
  then show ?case using 5(2) [OF ab [symmetric]] 5(3) ab
    by (auto split: sum.splits prod.splits) (meson le_trans)+
qed auto

lemma enough_fuel:
  "2 * length s < f \<Longrightarrow> fst (read_response f s) \<noteq> Inl out_of_fuel"
  "2 * length s + 1 < f \<Longrightarrow> fst (read_items f n s) \<noteq> Inl out_of_fuel"
proof (induction f s and f n s rule: read_response_read_items.induct)
  case (2 f s)
  obtain h r0 where h: "read_head s = (h, r0)" by (cases "read_head s")
  note p = read_head_progress [OF h]
  show ?case
  proof (cases h)
    case (Whole v)
    then show ?thesis using h p by auto
  next
    case (Items n)
    then have "fst (read_items f n r0) \<noteq> Inl out_of_fuel"
      using 2(1) [OF h [symmetric] Items] 2(2) p by auto
    then show ?thesis using h Items by (auto split: prod.split sum.split)
  qed
next
  case (5 f n s)
  obtain a b where ab: "read_response f s = (a, b)" by (cases "read_response f s")
  have a: "a \<noteq> Inl out_of_fuel" using 5(1,3) ab by simp
  show ?case
  proof (cases a)
    case (Inr v)
    then have "length b < length s" using read_progress(1) [OF ab] by blast
    then have "fst (read_items f n b) \<noteq> Inl out_of_fuel" using 5(2) [OF ab [symmetric] Inr] 5(3) by simp
    then show ?thesis using ab Inr by (auto split: prod.split sum.split)
  qed (use ab a in auto)
qed auto

lemma more_fuel:
  "fst (read_response f s) \<noteq> Inl out_of_fuel \<Longrightarrow> read_response (f + k) s = read_response f s"
  "fst (read_items f n s) \<noteq> Inl out_of_fuel \<Longrightarrow> read_items (f + k) n s = read_items f n s"
proof (induction f s and f n s rule: read_response_read_items.induct)
  case (2 f s)
  obtain h r0 where h: "read_head s = (h, r0)" by (cases "read_head s")
  show ?case
  proof (cases h)
    case (Items n)
    have "fst (read_items f n r0) \<noteq> Inl out_of_fuel"
      using 2(2) h Items by (auto split: prod.splits sum.splits)
    then have "read_items (f + k) n r0 = read_items f n r0" using 2(1) [OF h [symmetric] Items] by simp
    then show ?thesis using h Items by simp
  qed (use h in simp)
next
  case (5 f n s)
  obtain a b where ab: "read_response f s = (a, b)" by (cases "read_response f s")
  have 1: "read_response (f + k) s = (a, b)"
    using 5(1,3) ab by (cases a) auto
  show ?case
  proof (cases a)
    case (Inr v)
    have "fst (read_items f n b) \<noteq> Inl out_of_fuel"
      using 5(3) ab Inr by (auto split: prod.splits sum.splits)
    then have "read_items (f + k) n b = read_items f n b" using 5(2) [OF ab [symmetric] Inr] by simp
    then show ?thesis using ab 1 Inr by simp
  qed (use ab 1 in simp)
qed auto

text \<open>
  Reading a reply terminates: whatever bytes arrive, twice their number is enough fuel (so the
  nested loops of \<open>readResponseLocked\<close> end), and more fuel does not change what is read.
\<close>

theorem readResponse_terminates:
  "fst (readResponse s) \<noteq> Inl out_of_fuel \<and> read_response (Suc (2 * length s) + k) s = readResponse s"
  unfolding readResponse_def
  using enough_fuel(1) [of s "Suc (2 * length s)"] more_fuel(1) [of "Suc (2 * length s)" s k] by auto

subsection \<open>What the server writes is what the client reads\<close>

text \<open>The replies of a server, their bytes, and the Go value or error they stand for.\<close>

datatype resp = Status string | Failure string | Number int | Bulk string | NullBulk | NullMulti
  | Multi "resp list"

fun encode_resp :: "resp \<Rightarrow> string" where
  "encode_resp (Status l) = ''+'' @ l @ crlf"
| "encode_resp (Failure l) = ''-'' @ l @ crlf"
| "encode_resp (Number n) = '':'' @ Itoa n @ crlf"
| "encode_resp (Bulk b) = bulk b"
| "encode_resp NullBulk = ''$-1'' @ crlf"
| "encode_resp NullMulti = ''*-1'' @ crlf"
| "encode_resp (Multi vs) = ''*'' @ Itoa (int (length vs)) @ crlf @ concat (map encode_resp vs)"

fun go_value :: "resp \<Rightarrow> reply" where
  "go_value (Status l) = RString l"
| "go_value (Failure l) = RNil"
| "go_value (Number n) = RInt n"
| "go_value (Bulk b) = RString b"
| "go_value NullBulk = RNil"
| "go_value NullMulti = RNil"
| "go_value (Multi vs) = RArray (map go_value vs)"

definition read_as :: "resp \<Rightarrow> err + reply" where
  "read_as v = (case v of Failure l \<Rightarrow> Inl (redis_error l) | _ \<Rightarrow> Inr (go_value v))"

text \<open>Replies of the protocol: single lines, 64-bit numbers, and no error inside an array.\<close>

definition plain_line :: "string \<Rightarrow> bool" where
  "plain_line l = list_all (\<lambda>c. c \<noteq> CR \<and> c \<noteq> LF) l"

definition refused :: "resp \<Rightarrow> bool" where
  "refused v = (case v of Failure _ \<Rightarrow> True | _ \<Rightarrow> False)"

lemma refused_iff: "refused v \<longleftrightarrow> (\<exists>l. v = Failure l)"
  by (cases v) (simp_all add: refused_def)

fun sound_resp :: "resp \<Rightarrow> bool" where
  "sound_resp (Status l) = plain_line l"
| "sound_resp (Failure l) = plain_line l"
| "sound_resp (Number n) = in_int64 n"
| "sound_resp (Bulk b) = in_int64 (int (length b))"
| "sound_resp NullBulk = True"
| "sound_resp NullMulti = True"
| "sound_resp (Multi vs) = (in_int64 (int (length vs)) \<and> (\<forall>v \<in> set vs. sound_resp v \<and> \<not> refused v))"

lemma read_string_line: "plain_line l \<Longrightarrow> read_string (l @ crlf @ r) = Some (l @ [CR], r)"
  by (induction l) (auto simp: crlf_def plain_line_def)

lemma without_cr_line [simp]: "without_cr (l @ [CR]) = l"
  by (simp add: without_cr_def)

lemma plain_Itoa [simp]: "plain_line (Itoa n)"
  by (auto simp: plain_line_def list_all_iff is_digit_def CR_def LF_def dest!: Itoa_chars)

lemma read_head_line:
  assumes "plain_line l"
  shows "read_head (p # l @ crlf @ r) =
    (if p = CHR ''+'' then (Whole (Inr (RString l)), r)
     else if p = CHR ''-'' then (Whole (Inl (redis_error l)), r)
     else if p = CHR '':'' then (case Atoi l of None \<Rightarrow> (Whole (Inl parse_failure), r) | Some v \<Rightarrow> (Whole (Inr (RInt v)), r))
     else if p = CHR ''$'' then
       (case Atoi l of None \<Rightarrow> (Whole (Inl parse_failure), r) | Some sz \<Rightarrow>
         if sz < 0 then (Whole (Inr RNil), r)
         else if int (length r) < sz + 2 then (Whole (Inl EOF), [])
         else (Whole (Inr (RString (take (nat sz) r))), drop (nat sz + 2) r))
     else if p = CHR ''*'' then
       (case Atoi l of None \<Rightarrow> (Whole (Inl parse_failure), r) | Some count \<Rightarrow>
         if count < 0 then (Whole (Inr RNil), r) else (Items (nat count), r))
     else (Whole (Inl parse_failure), r))"
  using read_string_line [OF assms, of r] by (simp add: read_head_def)

lemma Atoi_minus_one: "Atoi ''-1'' = Some (- 1)"
  by code_simp

lemma read_items_encoded:
  assumes "\<And>v r. v \<in> set vs \<Longrightarrow> \<exists>f. read_response f (encode_resp v @ r) = (Inr (go_value v), r)"
  shows "\<exists>f. read_items f (length vs) (concat (map encode_resp vs) @ r) = (Inr (map go_value vs), r)"
  using assms
proof (induction vs)
  case (Cons v vs)
  let ?rest = "concat (map encode_resp vs) @ r"
  obtain f g where f: "read_response f (encode_resp v @ ?rest) = (Inr (go_value v), ?rest)"
    and g: "read_items g (length vs) ?rest = (Inr (map go_value vs), r)"
    using Cons.IH Cons.prems by (metis list.set_intros)
  have "read_response (f + g) (encode_resp v @ ?rest) = (Inr (go_value v), ?rest)"
    "read_items (g + f) (length vs) ?rest = (Inr (map go_value vs), r)"
    using more_fuel(1) [of f "encode_resp v @ ?rest" g] more_fuel(2) [of g "length vs" ?rest f] f g by auto
  then show ?case by (intro exI [of _ "Suc (f + g)"]) (simp add: add.commute)
qed simp

lemma read_encoded: "sound_resp v \<Longrightarrow> \<exists>f. read_response f (encode_resp v @ r) = (read_as v, r)"
proof (induction v arbitrary: r rule: encode_resp.induct)
  case (4 b)
  have "length crlf = 2" "nat (int (length b)) = length b" by (simp_all add: crlf_def)
  with 4 have "read_head (bulk b @ r) = (Whole (Inr (RString b)), r)"
    using read_head_line [of "Itoa (int (length b))" "CHR ''$''" "b @ crlf @ r"]
    by (simp add: bulk_def)
  then show ?case by (intro exI [of _ "Suc 0"]) (simp add: read_as_def)
next
  case (5)
  have "read_head (''$'' @ ''-1'' @ crlf @ r) = (Whole (Inr RNil), r)"
    using read_head_line [of "''-1''" "CHR ''$''" r] by (simp add: Atoi_minus_one plain_line_def CR_def LF_def)
  then show ?case by (intro exI [of _ "Suc 0"]) (simp add: read_as_def)
next
  case (6)
  have "read_head (''*'' @ ''-1'' @ crlf @ r) = (Whole (Inr RNil), r)"
    using read_head_line [of "''-1''" "CHR ''*''" r] by (simp add: Atoi_minus_one plain_line_def CR_def LF_def)
  then show ?case by (intro exI [of _ "Suc 0"]) (simp add: read_as_def)
next
  case (7 vs)
  have "\<exists>f. read_response f (encode_resp v @ r) = (Inr (go_value v), r)" if "v \<in> set vs" for v r
  proof -
    have "sound_resp v" "\<not> refused v" using 7(2) that by auto
    with 7(1) [OF that, of r] show ?thesis by (cases v) (auto simp: read_as_def refused_def)
  qed
  from read_items_encoded [OF this, of vs r] obtain f where
    "read_items f (length vs) (concat (map encode_resp vs) @ r) = (Inr (map go_value vs), r)" by blast
  moreover have "length vs < 2 ^ 63" using 7(2) by simp
  ultimately show ?case
    by (intro exI [of _ "Suc f"]) (simp add: read_head_line read_as_def)
qed (auto simp: read_head_line read_as_def intro!: exI [of _ "Suc 0"])

lemma readResponse_encoded: "sound_resp v \<Longrightarrow> readResponse (encode_resp v @ r) = (read_as v, r)"
proof -
  assume v: "sound_resp v"
  then obtain f where f: "read_response f (encode_resp v @ r) = (read_as v, r)" using read_encoded by blast
  let ?s = "encode_resp v @ r" and ?n = "Suc (2 * length (encode_resp v @ r))"
  have "read_as v \<noteq> Inl out_of_fuel" by (cases v) (simp_all add: read_as_def)
  then have "read_response (f + ?n) ?s = (read_as v, r)" using more_fuel(1) [of f ?s ?n] f by simp
  moreover have "read_response (?n + f) ?s = read_response ?n ?s"
    using enough_fuel(1) [of ?s ?n] by (intro more_fuel) simp
  ultimately show ?thesis unfolding readResponse_def by (simp add: add.commute)
qed

text \<open>
  C35.  The protocol: a reply is read back as the value or error it stands for, with exactly its
  bytes consumed; and a command, read by the same rules, is the array of its parts, whatever bytes
  they contain.
\<close>

theorem resp_roundtrip:
  assumes "sound_resp v" "length parts < 2 ^ 63" "\<forall>part \<in> set parts. length part < 2 ^ 63"
  shows "readResponse (encode_resp v @ r) = (read_as v, r)
    \<and> readResponse (writeCommand parts @ r) = (Inr (RArray (map RString parts)), r)"
proof -
  have "writeCommand parts = encode_resp (Multi (map Bulk parts))"
    by (simp add: writeCommand_def comp_def)
  moreover have "sound_resp (Multi (map Bulk parts))" using assms(2,3) by (auto simp: refused_def)
  ultimately show ?thesis
    using readResponse_encoded [OF assms(1)] readResponse_encoded [of "Multi (map Bulk parts)" r]
    by (simp add: read_as_def comp_def)
qed

theorem resp_roundtrip_witness:
  "readResponse (encode_resp (Multi [Number (-3), Bulk [CR, LF], NullBulk]) @ ''tail'')
     = (Inr (RArray [RInt (-3), RString [CR, LF], RNil]), ''tail'')
   \<and> readResponse (writeCommand [''RPUSH'', ''q'', [LF]]) = (Inr (RArray [RString ''RPUSH'', RString ''q'', RString [LF]]), [])"
  using resp_roundtrip [of "Multi [Number (-3), Bulk [CR, LF], NullBulk]" "[''RPUSH'', ''q'', [LF]]" "''tail''"]
    resp_roundtrip [of NullBulk "[''RPUSH'', ''q'', [LF]]" "[]"]
  by (simp add: read_as_def in_int64_def refused_def)

end
