(* ===== verification/Go_Time.thy ===== *)
theory Go_Time
  imports Strconv
begin

text \<open>
  The calendar of Go's \<^verbatim>\<open>time\<close> in UTC, as far as the code formats instants with it: the date
  of an instant, and the layouts \<^verbatim>\<open>time.DateOnly\<close>, \<^verbatim>\<open>time.RFC3339Nano\<close> and the one of the
  generated identifiers.
\<close>

definition is_leap :: "int \<Rightarrow> bool" where
  "is_leap y = (y mod 4 = 0 \<and> (y mod 100 \<noteq> 0 \<or> y mod 400 = 0))"

definition month_lengths :: "bool \<Rightarrow> int list" where
  "month_lengths leap = [31, if leap then 29 else 28, 31, 30, 31, 30, 31, 31, 30, 31, 30, 31]"

fun month_day :: "int list \<Rightarrow> int \<Rightarrow> int \<Rightarrow> int \<times> int" where
  "month_day [] m d = (m, d + 1)"
| "month_day (l # ls) m d = (if d < l then (m, d + 1) else month_day ls (m + 1) (d - l))"

text \<open>The year, month and day of the \<open>d\<close>-th day after 1 January of the year 1.\<close>

definition date_of_day :: "int \<Rightarrow> int \<times> int \<times> int" where
  "date_of_day d =
     (let n400 = d div 146097; d1 = d mod 146097;
          n100 = min 3 (d1 div 36524); d2 = d1 - n100 * 36524;
          n4 = d2 div 1461; d3 = d2 mod 1461;
          n1 = min 3 (d3 div 365); yday = d3 - n1 * 365;
          year = 400 * n400 + 100 * n100 + 4 * n4 + n1 + 1
      in (year, month_day (month_lengths (is_leap year)) 1 yday))"

definition nanos_per_day :: int where
  "nanos_per_day = 86400 * second"

definition padded :: "nat \<Rightarrow> int \<Rightarrow> string" where
  "padded width n = (let s = Itoa n in replicate (width - length s) (CHR ''0'') @ s)"

definition Format_DateOnly :: "time \<Rightarrow> string" where
  "Format_DateOnly t = (case date_of_day (t div nanos_per_day) of
     (y, m, d) \<Rightarrow> padded 4 y @ ''-'' @ padded 2 m @ ''-'' @ padded 2 d)"

definition clock_fields :: "time \<Rightarrow> int \<times> int \<times> int \<times> int" where
  "clock_fields t = (let s = t mod nanos_per_day div second in
     (s div 3600, s div 60 mod 60, s mod 60, t mod second))"

text \<open>The fraction without its trailing zeros, and without its point if nothing is left.\<close>

definition short_fraction :: "int \<Rightarrow> string" where
  "short_fraction n = (let ds = rev (dropWhile (\<lambda>c. c = CHR ''0'') (rev (padded 9 n))) in
     if ds = [] then [] else ''.'' @ ds)"

definition Format_RFC3339Nano :: "time \<Rightarrow> string" where
  "Format_RFC3339Nano t = (case clock_fields t of (h, m, s, n) \<Rightarrow>
     Format_DateOnly t @ ''T'' @ padded 2 h @ '':'' @ padded 2 m @ '':'' @ padded 2 s
       @ short_fraction n @ ''Z'')"

definition Format_stamp :: "time \<Rightarrow> string" where
  "Format_stamp t = (case date_of_day (t div nanos_per_day) of (y, mo, d) \<Rightarrow>
     case clock_fields t of (h, m, s, n) \<Rightarrow>
       padded 4 y @ padded 2 mo @ padded 2 d @ padded 2 h @ padded 2 m @ padded 2 s @ ''.'' @ padded 9 n)"

lemma date_examples:
  "date_of_day 0 = (1, 1, 1)" "date_of_day 719162 = (1970, 1, 1)" "date_of_day 738944 = (2024, 2, 29)"
  "date_of_day 730118 = (1999, 12, 31)" "date_of_day 730119 = (2000, 1, 1)"
  by code_simp+

lemma format_examples:
  "Format_RFC3339Nano ((719162 * 86400 + 3661) * second + 120000000) = ''1970-01-01T01:01:01.12Z''"
  "Format_RFC3339Nano (738944 * nanos_per_day) = ''2024-02-29T00:00:00Z''"
  "Format_stamp (738944 * nanos_per_day + 7) = ''20240229000000.000000007''"
  by code_simp+

end
