(* ===== verification/Queue_Client.thy ===== *)
theory Queue_Client
  imports Queue_Protocol Go_Time
begin

text \<open>
  The Redis client (\<^verbatim>\<open>internal/queue/redis.go\<close>): the connection and the operations over it.

  A world holds the fields of \<^verbatim>\<open>RedisQueue\<close> (\<^verbatim>\<open>mu\<close> makes every operation atomic among the
  goroutines of the process; \<^verbatim>\<open>addr\<close> is in the outcome of the dials), the server's side of the
  connection, its data, and what the network will do: the outcomes of the coming dials and
  commands, all well where the lists end.  The server is a parameter: how it executes a command on
  the session of the connection and the data.
\<close>

subsection \<open>The connection\<close>

text \<open>
  A link that is \<open>Closed\<close> still takes what is written, and nothing arrives any more.  \<open>Broken\<close>
  is the state of a \<^verbatim>\<open>bufio.Writer\<close> after a failed write: every later write fails.
\<close>

datatype link = Up | Closed | Broken

record conn =
  cn_link :: link
  cn_input :: string

datatype net_event = Works | WriteFails | CommandLost | AnswerLost

record ('t, 'r) redis_server =
  rs_fresh :: 't
  rs_exec :: "string list \<Rightarrow> 't \<times> 'r \<Rightarrow> resp \<times> 't \<times> 'r"

record ('t, 'r) redis_world =
  rq_password :: string
  rq_db :: int
  rq_conn :: "conn option"
  rw_session :: 't
  rw_data :: 'r
  rw_dials :: "bool list"
  rw_events :: "net_event list"

type_synonym ('t, 'r, 'x, 'a) qm = "(('t, 'r, 'x) redis_world_scheme, 'a) sm"

definition not_initialized :: err where
  "not_initialized = ErrText ''redis connection is not initialized''"

definition write_failure :: err where
  "write_failure = ErrText ''write redis command''"

definition unexpected_response :: err where
  "unexpected_response = ErrText ''unexpected response''"

definition errRedisNil :: err where
  "errRedisNil = ErrText ''redis nil response''"

definition next_event :: "('t, 'r, 'x) redis_world_scheme \<Rightarrow> net_event" where
  "next_event w = (case rw_events w of [] \<Rightarrow> Works | e # _ \<Rightarrow> e)"

definition set_conn :: "conn option \<Rightarrow> ('t, 'r, 'x) redis_world_scheme \<Rightarrow> ('t, 'r, 'x) redis_world_scheme" where
  "set_conn c w = w\<lparr>rq_conn := c\<rparr>"

text \<open>The server's part of a command that reaches it.\<close>

definition executed ::
    "('t, 'r) redis_server \<Rightarrow> string list \<Rightarrow> ('t, 'r, 'x) redis_world_scheme \<Rightarrow> resp \<times> ('t, 'r, 'x) redis_world_scheme" where
  "executed srv parts w = (case rs_exec srv parts (rw_session w, rw_data w) of
     (v, t, r) \<Rightarrow> (v, w\<lparr>rw_session := t, rw_data := r\<rparr>))"

definition writeCommandLocked :: "('t, 'r) redis_server \<Rightarrow> string list \<Rightarrow> ('t, 'r, 'x, unit) qm" where
  "writeCommandLocked srv parts w = (case rq_conn w of
     None \<Rightarrow> (Inl not_initialized, w)
   | Some c \<Rightarrow> (case cn_link c of
       Broken \<Rightarrow> (Inl write_failure, w)
     | Closed \<Rightarrow> (Inr (), w)
     | Up \<Rightarrow>
         let e = next_event w; w' = w\<lparr>rw_events := tl (rw_events w)\<rparr> in
         (case e of
            WriteFails \<Rightarrow> (Inl write_failure, set_conn (Some (c\<lparr>cn_link := Broken\<rparr>)) w')
          | CommandLost \<Rightarrow> (Inr (), set_conn (Some (c\<lparr>cn_link := Closed\<rparr>)) w')
          | AnswerLost \<Rightarrow> (Inr (), set_conn (Some (c\<lparr>cn_link := Closed\<rparr>)) (snd (executed srv parts w')))
          | Works \<Rightarrow> (case executed srv parts w' of (v, w'') \<Rightarrow>
              (Inr (), set_conn (Some (c\<lparr>cn_input := cn_input c @ encode_resp v\<rparr>)) w'')))))"

definition readResponseLocked :: "('t, 'r, 'x, reply) qm" where
  "readResponseLocked w = (case rq_conn w of
     None \<Rightarrow> (Inl not_initialized, w)
   | Some c \<Rightarrow> (case readResponse (cn_input c) of
       (x, rest) \<Rightarrow> (x, set_conn (Some (c\<lparr>cn_input := rest\<rparr>)) w)))"

definition resetConnLocked :: "('t, 'r, 'x, unit) qm" where
  "resetConnLocked w = (Inr (), set_conn None w)"

text \<open>\<^verbatim>\<open>Close\<close>; the error of closing the socket is left out: the fields are cleared before it.\<close>

definition Close :: "('t, 'r, 'x, unit) qm" where
  "Close = resetConnLocked"

text \<open>
  The lines that every operation repeats: write a command, and read its reply; an error of the
  write is returned, an error of the read resets the connection first.
\<close>

definition answered :: "('t, 'r, 'x, reply) qm" where
  "answered = handle readResponseLocked (\<lambda>e. andThen resetConnLocked (\<lambda>_. fail e)) return"

definition exchange :: "('t, 'r) redis_server \<Rightarrow> string list \<Rightarrow> ('t, 'r, 'x, reply) qm" where
  "exchange srv parts = andThen (writeCommandLocked srv parts) (\<lambda>_. answered)"

text \<open>While the connection is set up, an error of the write resets it too.\<close>

definition setup_exchange :: "('t, 'r) redis_server \<Rightarrow> string list \<Rightarrow> ('t, 'r, 'x, unit) qm" where
  "setup_exchange srv parts =
     handle (writeCommandLocked srv parts) (\<lambda>e. andThen resetConnLocked (\<lambda>_. fail e))
       (\<lambda>_. andThen answered (\<lambda>_. return ()))"

definition DialContext :: "('t, 'r) redis_server \<Rightarrow> ('t, 'r, 'x, unit) qm" where
  "DialContext srv w =
     (let ok = (case rw_dials w of [] \<Rightarrow> True | b # _ \<Rightarrow> b); w' = w\<lparr>rw_dials := tl (rw_dials w)\<rparr> in
      if ok then (Inr (), w'\<lparr>rq_conn := Some \<lparr>cn_link = Up, cn_input = []\<rparr>, rw_session := rs_fresh srv\<rparr>)
      else (Inl ConnError, w'))"

definition ensureConnLocked :: "('t, 'r) redis_server \<Rightarrow> ('t, 'r, 'x, unit) qm" where
  "ensureConnLocked srv w =
     (if rq_conn w \<noteq> None then return ()
      else andThen (DialContext srv) (\<lambda>_.
        andThen (if rq_password w \<noteq> [] then setup_exchange srv [''AUTH'', rq_password w] else return ()) (\<lambda>_.
          if rq_db w \<noteq> 0 then setup_exchange srv [''SELECT'', Itoa (rq_db w)] else return ()))) w"

definition request :: "('t, 'r) redis_server \<Rightarrow> string list \<Rightarrow> ('t, 'r, 'x, reply) qm" where
  "request srv parts = andThen (ensureConnLocked srv) (\<lambda>_. exchange srv parts)"

text \<open>The type assertions \<^verbatim>\<open>v, ok := response.(int64)\<close> and \<^verbatim>\<open>response.(string)\<close>.\<close>

definition as_int64 :: "reply \<Rightarrow> ('s, int) sm" where
  "as_int64 v = (case v of RInt n \<Rightarrow> return n | _ \<Rightarrow> fail unexpected_response)"

definition as_string :: "reply \<Rightarrow> ('s, string) sm" where
  "as_string v = (case v of RString s \<Rightarrow> return s | _ \<Rightarrow> fail unexpected_response)"

subsection \<open>The commands\<close>

definition Ping :: "('t, 'r) redis_server \<Rightarrow> ('t, 'r, 'x, unit) qm" where
  "Ping srv = andThen (request srv [''PING'']) (\<lambda>response.
     if response \<noteq> RString ''PONG'' then fail unexpected_response else return ())"

definition llen :: "('t, 'r) redis_server \<Rightarrow> string \<Rightarrow> ('t, 'r, 'x, int) qm" where
  "llen srv key = andThen (request srv [''LLEN'', key]) as_int64"

definition incr :: "('t, 'r) redis_server \<Rightarrow> string \<Rightarrow> ('t, 'r, 'x, int) qm" where
  "incr srv key = andThen (request srv [''INCR'', key]) as_int64"

definition expire_seconds :: "duration \<Rightarrow> int" where
  "expire_seconds ttl = max 1 (wrap64 (wrap64 (ttl + second) - 1) div second)"

definition expire :: "('t, 'r) redis_server \<Rightarrow> string \<Rightarrow> duration \<Rightarrow> ('t, 'r, 'x, unit) qm" where
  "expire srv key ttl =
     andThen (request srv [''EXPIRE'', key, Itoa (expire_seconds ttl)]) (\<lambda>_. return ())"

definition ttl :: "('t, 'r) redis_server \<Rightarrow> string \<Rightarrow> ('t, 'r, 'x, duration) qm" where
  "ttl srv key = andThen (request srv [''TTL'', key]) (\<lambda>response.
     andThen (as_int64 response) (\<lambda>v. return (wrap64 (v * second))))"

text \<open>A nil reply is \<^verbatim>\<open>errRedisNil\<close>.\<close>

definition popped :: "reply \<Rightarrow> ('s, string) sm" where
  "popped response = (if response = RNil then fail errRedisNil else as_string response)"

definition brpoplpush :: "('t, 'r) redis_server \<Rightarrow> string \<Rightarrow> string \<Rightarrow> int \<Rightarrow> ('t, 'r, 'x, string) qm" where
  "brpoplpush srv sourceQueue destinationQueue timeoutSeconds =
     andThen (request srv [''BRPOPLPUSH'', sourceQueue, destinationQueue, Itoa timeoutSeconds]) popped"

definition rpoplpush :: "('t, 'r) redis_server \<Rightarrow> string \<Rightarrow> string \<Rightarrow> ('t, 'r, 'x, string) qm" where
  "rpoplpush srv sourceQueue destinationQueue =
     andThen (request srv [''RPOPLPUSH'', sourceQueue, destinationQueue]) popped"

definition not_in_processing :: err where
  "not_in_processing = ErrText ''remove reserved job: job not found''"

definition lrem :: "('t, 'r) redis_server \<Rightarrow> string \<Rightarrow> int \<Rightarrow> string \<Rightarrow> ('t, 'r, 'x, unit) qm" where
  "lrem srv queueName count payload =
     andThen (request srv [''LREM'', queueName, Itoa count, payload]) (\<lambda>response.
       andThen (as_int64 response) (\<lambda>removed.
         if removed = 0 then fail not_in_processing else return ()))"

subsection \<open>The operations\<close>

text \<open>
  \<^verbatim>\<open>encoding/json\<close> on a job: the coding is a parameter, with the two errors it may return.
\<close>

record job_codec =
  jc_marshal :: "dispatch_job \<Rightarrow> string option"
  jc_unmarshal :: "string \<Rightarrow> dispatch_job option"

record reserved_job =
  rsv_Job :: dispatch_job
  rsv_queueName :: string
  rsv_processingQueue :: string
  rsv_payload :: string

definition enqueue :: "job_codec \<Rightarrow> ('t, 'r) redis_server \<Rightarrow> string \<Rightarrow> dispatch_job \<Rightarrow> ('t, 'r, 'x, unit) qm" where
  "enqueue jc srv queueName job = (case jc_marshal jc job of
     None \<Rightarrow> fail JsonError
   | Some payload \<Rightarrow> andThen (request srv [''RPUSH'', queueName, payload]) (\<lambda>_. return ()))"

definition EnqueueDispatch :: "job_codec \<Rightarrow> ('t, 'r) redis_server \<Rightarrow> dispatch_job \<Rightarrow> ('t, 'r, 'x, unit) qm" where
  "EnqueueDispatch jc srv job = enqueue jc srv DispatchQueueName job"

definition unsupported_channel :: err where
  "unsupported_channel = ErrText ''unsupported channel''"

definition EnqueueChannel :: "job_codec \<Rightarrow> ('t, 'r) redis_server \<Rightarrow> dispatch_job \<Rightarrow> ('t, 'r, 'x, unit) qm" where
  "EnqueueChannel jc srv job = (case QueueNameForChannel (job_Channel job) of
     None \<Rightarrow> fail unsupported_channel
   | Some queueName \<Rightarrow> enqueue jc srv queueName job)"

definition QueueDepth :: "('t, 'r) redis_server \<Rightarrow> string \<Rightarrow> ('t, 'r, 'x, int) qm" where
  "QueueDepth srv queueName = llen srv queueName"

definition PressureSnapshot :: "('t, 'r) redis_server \<Rightarrow> ('t, 'r, 'x, pressure_snapshot) qm" where
  "PressureSnapshot srv =
     andThen (forEach [DispatchQueueName, DispatchEmailQueueName, DispatchWebhookQueueName]
         (\<lambda>name. andThen (QueueDepth srv name) (\<lambda>depth. return (name, depth))))
       (\<lambda>depths. return \<lparr>prs_Depths = depths, prs_SoftLimit = 0, prs_HardLimit = 0, prs_RetryAfter = 0\<rparr>)"

definition rate_key :: "string \<Rightarrow> string" where
  "rate_key tenantID = ''notify:rate:'' @ tenantID"

definition AllowTenant :: "('t, 'r) redis_server \<Rightarrow> string \<Rightarrow> int \<Rightarrow> duration \<Rightarrow> ('t, 'r, 'x, bool \<times> duration) qm" where
  "AllowTenant srv tenantID limit window =
     (if limit \<le> 0 \<or> tenantID = [] then return (True, 0)
      else andThen (incr srv (rate_key tenantID)) (\<lambda>count.
        andThen (if count = 1 then expire srv (rate_key tenantID) window else return ()) (\<lambda>_.
          if count \<le> limit then return (True, 0)
          else handle (ttl srv (rate_key tenantID))
            (\<lambda>_. return (False, window))
            (\<lambda>left. return (False, if left \<le> 0 then window else left)))))"

text \<open>
  \<^verbatim>\<open>ReserveChannel\<close> polls until there is a job or the context is done; the first argument is the
  number of polls before it is.
\<close>

definition context_canceled :: err where
  "context_canceled = ErrText ''context canceled''"

fun reserve_loop ::
    "nat \<Rightarrow> job_codec \<Rightarrow> ('t, 'r) redis_server \<Rightarrow> string \<Rightarrow> string \<Rightarrow> int \<Rightarrow> ('t, 'r, 'x, reserved_job) qm" where
  "reserve_loop 0 jc srv queueName processingQueue timeoutSeconds = fail context_canceled"
| "reserve_loop (Suc n) jc srv queueName processingQueue timeoutSeconds =
     handle (brpoplpush srv queueName processingQueue timeoutSeconds)
       (\<lambda>e. if e = errRedisNil then reserve_loop n jc srv queueName processingQueue timeoutSeconds else fail e)
       (\<lambda>payload. case jc_unmarshal jc payload of
          None \<Rightarrow> fail JsonError
        | Some job \<Rightarrow> return \<lparr>rsv_Job = job, rsv_queueName = queueName,
            rsv_processingQueue = processingQueue, rsv_payload = payload\<rparr>)"

definition ReserveChannel ::
    "nat \<Rightarrow> job_codec \<Rightarrow> ('t, 'r) redis_server \<Rightarrow> string \<Rightarrow> int \<Rightarrow> ('t, 'r, 'x, reserved_job) qm" where
  "ReserveChannel polls jc srv queueName timeoutSeconds =
     reserve_loop polls jc srv queueName (ProcessingQueueName queueName)
       (if timeoutSeconds \<le> 0 then 1 else timeoutSeconds)"

definition ReserveDispatch ::
    "nat \<Rightarrow> job_codec \<Rightarrow> ('t, 'r) redis_server \<Rightarrow> int \<Rightarrow> ('t, 'r, 'x, reserved_job) qm" where
  "ReserveDispatch polls jc srv timeoutSeconds = ReserveChannel polls jc srv DispatchQueueName timeoutSeconds"

definition AckReserved :: "('t, 'r) redis_server \<Rightarrow> reserved_job \<Rightarrow> ('t, 'r, 'x, unit) qm" where
  "AckReserved srv reserved = lrem srv (rsv_processingQueue reserved) 1 (rsv_payload reserved)"

definition ConsumeChannel ::
    "nat \<Rightarrow> job_codec \<Rightarrow> ('t, 'r) redis_server \<Rightarrow> string \<Rightarrow> int \<Rightarrow> ('t, 'r, 'x, dispatch_job) qm" where
  "ConsumeChannel polls jc srv queueName timeoutSeconds =
     andThen (ReserveChannel polls jc srv queueName timeoutSeconds) (\<lambda>reserved.
       andThen (AckReserved srv reserved) (\<lambda>_. return (rsv_Job reserved)))"

definition ConsumeDispatch :: "nat \<Rightarrow> job_codec \<Rightarrow> ('t, 'r) redis_server \<Rightarrow> ('t, 'r, 'x, dispatch_job) qm" where
  "ConsumeDispatch polls jc srv = ConsumeChannel polls jc srv DispatchQueueName 1"

definition requeue_result :: "reply \<Rightarrow> ('s, unit) sm" where
  "requeue_result response = (case response of
     RArray [v0, v1] \<Rightarrow> andThen (as_int64 v0) (\<lambda>removed.
       if removed = 0 then fail not_in_processing
       else andThen (as_int64 v1) (\<lambda>_. return ()))
   | _ \<Rightarrow> fail unexpected_response)"

definition RequeueReserved :: "('t, 'r) redis_server \<Rightarrow> reserved_job \<Rightarrow> ('t, 'r, 'x, unit) qm" where
  "RequeueReserved srv reserved =
     andThen (ensureConnLocked srv) (\<lambda>_.
     andThen (exchange srv [''MULTI'']) (\<lambda>_.
     andThen (exchange srv [''LREM'', rsv_processingQueue reserved, ''1'', rsv_payload reserved]) (\<lambda>_.
     andThen (exchange srv [''LPUSH'', rsv_queueName reserved, rsv_payload reserved]) (\<lambda>_.
     andThen (exchange srv [''EXEC'']) requeue_result))))"

text \<open>
  The recovery of a processing queue: the pops until there is none left, with the number of jobs
  recovered also when an error ends the loop.  The first argument bounds the number of pops.
\<close>

fun recover_loop ::
    "nat \<Rightarrow> ('t, 'r) redis_server \<Rightarrow> string \<Rightarrow> string \<Rightarrow> int \<Rightarrow> ('t, 'r, 'x, int \<times> err option) qm" where
  "recover_loop 0 srv processingQueue queueName recovered = return (recovered, Some out_of_fuel)"
| "recover_loop (Suc n) srv processingQueue queueName recovered =
     handle (rpoplpush srv processingQueue queueName)
       (\<lambda>e. if e = errRedisNil then return (recovered, None) else return (recovered, Some e))
       (\<lambda>_. recover_loop n srv processingQueue queueName (recovered + 1))"

definition RecoverProcessingQueue ::
    "nat \<Rightarrow> ('t, 'r) redis_server \<Rightarrow> string \<Rightarrow> ('t, 'r, 'x, int \<times> err option) qm" where
  "RecoverProcessingQueue fuel srv queueName =
     recover_loop fuel srv (ProcessingQueueName queueName) queueName 0"

fun recover_all ::
    "nat \<Rightarrow> ('t, 'r) redis_server \<Rightarrow> string list \<Rightarrow> (string \<times> int) list \<Rightarrow> ('t, 'r, 'x, (string \<times> int) list \<times> err option) qm" where
  "recover_all fuel srv [] results = return (results, None)"
| "recover_all fuel srv (queueName # queues) results =
     andThen (RecoverProcessingQueue fuel srv queueName) (\<lambda>(recovered, e).
       if e \<noteq> None then return (results, e)
       else recover_all fuel srv queues (results @ [(queueName, recovered)]))"

definition RecoverKnownProcessingQueues ::
    "nat \<Rightarrow> ('t, 'r) redis_server \<Rightarrow> ('t, 'r, 'x, (string \<times> int) list \<times> err option) qm" where
  "RecoverKnownProcessingQueues fuel srv =
     recover_all fuel srv [DispatchQueueName, DispatchWebhookQueueName, DispatchEmailQueueName] []"

subsection \<open>The rate limiter\<close>

record tenant_limiter =
  tl_limit :: int
  tl_window :: duration

definition NewTenantRateLimiter :: "int \<Rightarrow> duration \<Rightarrow> tenant_limiter" where
  "NewTenantRateLimiter limit window = \<lparr>tl_limit = limit, tl_window = window\<rparr>"

definition limiter_Allow ::
    "tenant_limiter option \<Rightarrow> ('t, 'r) redis_server \<Rightarrow> string \<Rightarrow> ('t, 'r, 'x, bool \<times> duration) qm" where
  "limiter_Allow l srv tenantID = (case l of
     None \<Rightarrow> return (True, 0)
   | Some l \<Rightarrow> AllowTenant srv tenantID (tl_limit l) (tl_window l))"

end
