(* ===== verification/Worker_Scheduler.thy ===== *)
theory Worker_Scheduler
  imports Queue_Client
begin

text \<open>
  The tenant-fair scheduler of a worker process (\<^verbatim>\<open>fairScheduler\<close> in
  \<^verbatim>\<open>internal/worker/runner.go\<close>): jobs wait in one queue for each tenant, the tenants with waiting
  jobs stand in a ring, and a tenant hands out at most a burst of jobs in a row and keeps at most a
  number of them in flight.  The maps are total, with the zero values for missing keys.
\<close>

subsection \<open>The scheduler\<close>

record fair_scheduler =
  fs_burst :: int
  fs_inflight :: "string \<Rightarrow> int"
  fs_pending :: "string \<Rightarrow> reserved_job list"
  fs_order :: "string list"
  fs_next :: nat
  fs_maxFlight :: int
  fs_lastTenant :: string
  fs_currentBurst :: int

definition newFairScheduler :: "int \<Rightarrow> int \<Rightarrow> fair_scheduler" where
  "newFairScheduler burst maxFlight =
     \<lparr>fs_burst = (if burst \<le> 0 then 1 else burst), fs_inflight = (\<lambda>_. 0), fs_pending = (\<lambda>_. []),
      fs_order = [], fs_next = 0, fs_maxFlight = (if maxFlight \<le> 0 then 1 else maxFlight),
      fs_lastTenant = [], fs_currentBurst = 0\<rparr>"

abbreviation tenant_of :: "reserved_job \<Rightarrow> string" where
  "tenant_of j \<equiv> job_TenantID (rsv_Job j)"

definition sched_add :: "reserved_job \<Rightarrow> fair_scheduler \<Rightarrow> fair_scheduler" where
  "sched_add job s = (let t = tenant_of job in
     s\<lparr>fs_order := (if fs_pending s t = [] then fs_order s @ [t] else fs_order s),
       fs_pending := (fs_pending s)(t := fs_pending s t @ [job])\<rparr>)"

definition sched_complete :: "string \<Rightarrow> fair_scheduler \<Rightarrow> fair_scheduler" where
  "sched_complete tenant s = (if fs_inflight s tenant > 0
     then s\<lparr>fs_inflight := (fs_inflight s)(tenant := fs_inflight s tenant - 1)\<rparr> else s)"

definition removeTenant :: "string list \<Rightarrow> string \<Rightarrow> string list" where
  "removeTenant order tenant = filter (\<lambda>item. item \<noteq> tenant) order"

text \<open>The job of the tenant at the index is handed out.\<close>

definition counted_burst :: "string \<Rightarrow> fair_scheduler \<Rightarrow> fair_scheduler" where
  "counted_burst t s = (if fs_lastTenant s = t then s\<lparr>fs_currentBurst := fs_currentBurst s + 1\<rparr>
     else s\<lparr>fs_lastTenant := t, fs_currentBurst := 1\<rparr>)"

definition advanced :: "nat \<Rightarrow> string \<Rightarrow> fair_scheduler \<Rightarrow> fair_scheduler" where
  "advanced idx t s =
     (if fs_pending s t = [] then
        let order = removeTenant (fs_order s) t in
        s\<lparr>fs_order := order, fs_next := (if order = [] then 0
          else (if idx \<ge> length order then 0 else idx) mod length order)\<rparr>
      else if fs_lastTenant s = t \<and> fs_currentBurst s < fs_burst s then s\<lparr>fs_next := idx\<rparr>
      else s\<lparr>fs_next := (idx + 1) mod length (fs_order s)\<rparr>)"

definition hand_out :: "nat \<Rightarrow> string \<Rightarrow> fair_scheduler \<Rightarrow> reserved_job \<times> fair_scheduler" where
  "hand_out idx t s =
     (hd (fs_pending s t), advanced idx t (counted_burst t
        (s\<lparr>fs_pending := (fs_pending s)(t := tl (fs_pending s t)),
           fs_inflight := (fs_inflight s)(t := fs_inflight s t + 1)\<rparr>)))"

text \<open>A tenant is passed over: nothing waits, enough is in flight, or its burst is used up.\<close>

definition passed_over :: "fair_scheduler \<Rightarrow> string \<Rightarrow> bool" where
  "passed_over s t = (fs_pending s t = [] \<or> fs_inflight s t \<ge> fs_maxFlight s
     \<or> fs_lastTenant s = t \<and> fs_currentBurst s \<ge> fs_burst s \<and> length (fs_order s) > 1)"

fun next_loop :: "nat \<Rightarrow> fair_scheduler \<Rightarrow> reserved_job option \<times> fair_scheduler" where
  "next_loop 0 s = (None, s)"
| "next_loop (Suc n) s =
     (let idx = fs_next s mod length (fs_order s); t = fs_order s ! idx in
      if passed_over s t then next_loop n (s\<lparr>fs_next := (idx + 1) mod length (fs_order s)\<rparr>)
      else case hand_out idx t s of (job, s') \<Rightarrow> (Some job, s'))"

definition nextJob :: "fair_scheduler \<Rightarrow> reserved_job option \<times> fair_scheduler" where
  "nextJob s = (if fs_order s = [] then (None, s) else next_loop (length (fs_order s)) s)"

subsection \<open>Its contract\<close>

text \<open>
  What the loop of the worker relies on: a queue for each tenant, first in first out, with a bound
  on the jobs in flight.
\<close>

locale fair_queue =
  fixes add :: "reserved_job \<Rightarrow> 's \<Rightarrow> 's" and "next" :: "'s \<Rightarrow> reserved_job option \<times> 's"
    and complete :: "string \<Rightarrow> 's \<Rightarrow> 's" and invar :: "'s \<Rightarrow> bool"
    and waiting :: "'s \<Rightarrow> string \<Rightarrow> reserved_job list" and inflight :: "'s \<Rightarrow> string \<Rightarrow> int" and bound :: "'s \<Rightarrow> int"
  assumes add: "invar s \<Longrightarrow> invar (add j s) \<and> inflight (add j s) = inflight s \<and> bound (add j s) = bound s
      \<and> waiting (add j s) = (waiting s)(tenant_of j := waiting s (tenant_of j) @ [j])"
    and next_none: "invar s \<Longrightarrow> next s = (None, s') \<Longrightarrow>
      invar s' \<and> inflight s' = inflight s \<and> bound s' = bound s \<and> waiting s' = waiting s"
    and next_some: "invar s \<Longrightarrow> next s = (Some j, s') \<Longrightarrow> invar s' \<and> bound s' = bound s
      \<and> inflight s (tenant_of j) < bound s
      \<and> inflight s' = (inflight s)(tenant_of j := inflight s (tenant_of j) + 1)
      \<and> (\<exists>js. waiting s (tenant_of j) = j # js \<and> waiting s' = (waiting s)(tenant_of j := js))"
    and complete: "invar s \<Longrightarrow> invar (complete t s) \<and> bound (complete t s) = bound s \<and> waiting (complete t s) = waiting s
      \<and> inflight (complete t s) = (inflight s)(t := max 0 (inflight s t - 1))"

text \<open>The ring has exactly the tenants with waiting jobs, each once, and no count is beyond its bound.\<close>

definition sched_invar :: "fair_scheduler \<Rightarrow> bool" where
  "sched_invar s = (distinct (fs_order s) \<and> (\<forall>t. t \<in> set (fs_order s) \<longleftrightarrow> fs_pending s t \<noteq> [])
     \<and> (\<forall>t. \<forall>j \<in> set (fs_pending s t). tenant_of j = t)
     \<and> (\<forall>t. 0 \<le> fs_inflight s t \<and> fs_inflight s t \<le> fs_maxFlight s) \<and> 1 \<le> fs_burst s \<and> 1 \<le> fs_maxFlight s)"

lemma new_invar: "sched_invar (newFairScheduler burst maxFlight)"
  by (simp add: sched_invar_def newFairScheduler_def)

lemma add_invar: "sched_invar s \<Longrightarrow> sched_invar (sched_add j s)"
  by (auto simp: sched_invar_def sched_add_def Let_def)

lemma complete_keeps [simp]:
  "fs_pending (sched_complete t s) = fs_pending s" "fs_order (sched_complete t s) = fs_order s"
  "fs_maxFlight (sched_complete t s) = fs_maxFlight s" "fs_burst (sched_complete t s) = fs_burst s"
  by (simp_all add: sched_complete_def)

lemma complete_inflight:
  "0 \<le> fs_inflight s t \<Longrightarrow> fs_inflight (sched_complete t s) = (fs_inflight s)(t := max 0 (fs_inflight s t - 1))"
  by (auto simp: sched_complete_def fun_eq_iff)

lemma sched_invar_range: "sched_invar s \<Longrightarrow> 0 \<le> fs_inflight s t \<and> fs_inflight s t \<le> fs_maxFlight s \<and> 1 \<le> fs_maxFlight s"
  by (simp add: sched_invar_def)

lemma complete_invar: "sched_invar s \<Longrightarrow> sched_invar (sched_complete t s)"
proof -
  assume s: "sched_invar s"
  then have "fs_inflight s t - 1 \<le> fs_maxFlight s" using sched_invar_range [of s t] by simp
  with s show ?thesis by (simp add: sched_invar_def complete_inflight)
qed

lemma next_invar [simp]: "sched_invar (s\<lparr>fs_next := n\<rparr>) = sched_invar s"
  by (simp add: sched_invar_def)

lemma counted_burst_keeps [simp]:
  "fs_pending (counted_burst t s) = fs_pending s" "fs_inflight (counted_burst t s) = fs_inflight s"
  "fs_order (counted_burst t s) = fs_order s" "fs_maxFlight (counted_burst t s) = fs_maxFlight s"
  "fs_burst (counted_burst t s) = fs_burst s" "fs_lastTenant (counted_burst t s) = t"
  "fs_next (counted_burst t s) = fs_next s"
  by (simp_all add: counted_burst_def)

lemma advanced_keeps [simp]:
  "fs_pending (advanced i t s) = fs_pending s" "fs_inflight (advanced i t s) = fs_inflight s"
  "fs_maxFlight (advanced i t s) = fs_maxFlight s" "fs_burst (advanced i t s) = fs_burst s"
  "fs_lastTenant (advanced i t s) = fs_lastTenant s" "fs_currentBurst (advanced i t s) = fs_currentBurst s"
  "fs_order (advanced i t s) = (if fs_pending s t = [] then removeTenant (fs_order s) t else fs_order s)"
  by (simp_all add: advanced_def Let_def)

lemma hand_out_invar:
  assumes "sched_invar s" "\<not> passed_over s t"
  shows "sched_invar (snd (hand_out idx t s))"
proof -
  have p: "fs_pending s t \<noteq> []" "fs_inflight s t < fs_maxFlight s"
    using assms(2) by (auto simp: passed_over_def)
  have t: "\<forall>j \<in> set (tl (fs_pending s t)). tenant_of j = t"
    using assms(1) p(1) by (auto simp: sched_invar_def dest: list.set_sel(2))
  show ?thesis using assms(1) p t
    by (auto simp: sched_invar_def hand_out_def removeTenant_def)
qed

lemma next_loop_some:
  "sched_invar s \<Longrightarrow> next_loop n s = (Some j, s') \<Longrightarrow>
     \<exists>idx k t. \<not> passed_over s t \<and> t = fs_order s ! idx \<and> (j, s') = hand_out idx t (s\<lparr>fs_next := k\<rparr>) \<and> fs_pending s t \<noteq> []"
proof (induction n arbitrary: s)
  case (Suc n)
  let ?idx = "fs_next s mod length (fs_order s)"
  let ?t = "fs_order s ! ?idx"
  show ?case
  proof (cases "passed_over s ?t")
    case True
    let ?s = "s\<lparr>fs_next := (?idx + 1) mod length (fs_order s)\<rparr>"
    have "next_loop n ?s = (Some j, s')" using Suc.prems(2) True by (simp add: Let_def)
    then obtain idx k t where "\<not> passed_over ?s t" "t = fs_order ?s ! idx"
      "(j, s') = hand_out idx t (?s\<lparr>fs_next := k\<rparr>)" "fs_pending ?s t \<noteq> []"
      using Suc.IH [of ?s] Suc.prems(1) by auto
    then show ?thesis by (auto simp: passed_over_def)
  next
    case False
    then have "(j, s') = hand_out ?idx ?t s" using Suc.prems(2) by (simp add: Let_def split: prod.splits)
    then have "(j, s') = hand_out ?idx ?t (s\<lparr>fs_next := fs_next s\<rparr>)" by simp
    with False show ?thesis by (intro exI [of _ ?idx] exI [of _ "fs_next s"] exI [of _ ?t]) (auto simp: passed_over_def)
  qed
qed simp

lemma next_loop_none: "next_loop n s = (None, s') \<Longrightarrow> \<exists>k. s' = s\<lparr>fs_next := k\<rparr>"
proof (induction n arbitrary: s)
  case 0
  then show ?case by (intro exI [of _ "fs_next s"]) auto
next
  case (Suc n)
  then show ?case by (fastforce simp: Let_def split: if_splits prod.splits)
qed

lemma nextJob_none: "nextJob s = (None, s') \<Longrightarrow> \<exists>k. s' = s\<lparr>fs_next := k\<rparr>"
  using next_loop_none [of "length (fs_order s)" s s']
  by (auto simp: nextJob_def split: if_splits intro: exI [of _ "fs_next s"])

interpretation fair: fair_queue sched_add nextJob sched_complete sched_invar fs_pending fs_inflight fs_maxFlight
proof
  fix s j
  assume "sched_invar s"
  then show "sched_invar (sched_add j s) \<and> fs_inflight (sched_add j s) = fs_inflight s \<and> fs_maxFlight (sched_add j s) = fs_maxFlight s
      \<and> fs_pending (sched_add j s) = (fs_pending s)(tenant_of j := fs_pending s (tenant_of j) @ [j])"
    using add_invar by (simp add: sched_add_def Let_def)
next
  fix s s'
  assume "sched_invar s" "nextJob s = (None, s')"
  then show "sched_invar s' \<and> fs_inflight s' = fs_inflight s \<and> fs_maxFlight s' = fs_maxFlight s \<and> fs_pending s' = fs_pending s"
    using nextJob_none by fastforce
next
  fix s j s'
  assume s: "sched_invar s" and n: "nextJob s = (Some j, s')"
  then have "next_loop (length (fs_order s)) s = (Some j, s')" by (simp add: nextJob_def split: if_splits)
  from next_loop_some [OF s this] obtain idx k t where
    h: "\<not> passed_over s t" "(j, s') = hand_out idx t (s\<lparr>fs_next := k\<rparr>)" "fs_pending s t \<noteq> []" by blast
  then have s': "s' = snd (hand_out idx t (s\<lparr>fs_next := k\<rparr>))" and j: "j = hd (fs_pending s t)"
    by (auto simp: hand_out_def)
  have t: "tenant_of j = t" using s h(3) j by (auto simp: sched_invar_def)
  have "sched_invar s'" unfolding s' using s h(1) by (intro hand_out_invar) (auto simp: passed_over_def)
  with h(1,3) j t s' show "sched_invar s' \<and> fs_maxFlight s' = fs_maxFlight s
      \<and> fs_inflight s (tenant_of j) < fs_maxFlight s
      \<and> fs_inflight s' = (fs_inflight s)(tenant_of j := fs_inflight s (tenant_of j) + 1)
      \<and> (\<exists>js. fs_pending s (tenant_of j) = j # js \<and> fs_pending s' = (fs_pending s)(tenant_of j := js))"
    by (auto simp: passed_over_def hand_out_def intro: exI [of _ "tl (fs_pending s t)"])
next
  fix s t
  assume "sched_invar s"
  then show "sched_invar (sched_complete t s) \<and> fs_maxFlight (sched_complete t s) = fs_maxFlight s
      \<and> fs_pending (sched_complete t s) = fs_pending s
      \<and> fs_inflight (sched_complete t s) = (fs_inflight s)(t := max 0 (fs_inflight s t - 1))"
    using complete_invar sched_invar_range [of s t] by (simp add: complete_inflight)
qed

subsection \<open>Which tenant is served\<close>

lemma passed_over_next [simp]: "passed_over (s\<lparr>fs_next := n\<rparr>) t = passed_over s t"
  by (simp add: passed_over_def)

lemma next_loop_None_iff:
  "fst (next_loop n s) = None \<longleftrightarrow> (\<forall>i < n. passed_over s (fs_order s ! ((fs_next s + i) mod length (fs_order s))))"
proof (induction n arbitrary: s)
  case (Suc n)
  let ?l = "length (fs_order s)"
  have shift: "((fs_next s mod ?l + 1) mod ?l + i) mod ?l = (fs_next s + Suc i) mod ?l" for i
    by (metis Suc_eq_plus1 add_Suc_shift mod_Suc_eq mod_add_left_eq)
  show ?case
  proof (cases "passed_over s (fs_order s ! (fs_next s mod ?l))")
    case True
    then have "fst (next_loop (Suc n) s) = fst (next_loop n (s\<lparr>fs_next := (fs_next s mod ?l + 1) mod ?l\<rparr>))"
      by (simp add: Let_def)
    then have "fst (next_loop (Suc n) s) = None \<longleftrightarrow> (\<forall>i < n. passed_over s (fs_order s ! ((fs_next s + Suc i) mod ?l)))"
      using Suc.IH [of "s\<lparr>fs_next := (fs_next s mod ?l + 1) mod ?l\<rparr>"] shift by simp
    with True show ?thesis by (auto simp: less_Suc_eq_0_disj)
  next
    case False
    then have "fst (next_loop (Suc n) s) \<noteq> None" by (simp add: Let_def hand_out_def)
    then show ?thesis using False by (auto intro: exI [of _ 0])
  qed
qed simp

lemma ring_covered:
  assumes "k < (l :: nat)"
  shows "\<exists>i < l. (n + i) mod l = k"
proof (intro exI conjI)
  show "(k + l - n mod l) mod l < l" using assms by simp
  have "n mod l < l" using assms by simp
  then have "n mod l \<le> k + l" by simp
  then have "(n mod l + (k + l - n mod l)) mod l = k" using assms by simp
  then show "(n + (k + l - n mod l) mod l) mod l = k" by (metis mod_add_left_eq mod_add_right_eq)
qed

lemma nextJob_None_iff: "fst (nextJob s) = None \<longleftrightarrow> (\<forall>t \<in> set (fs_order s). passed_over s t)"
proof (cases "fs_order s = []")
  case False
  let ?l = "length (fs_order s)"
  have "fst (nextJob s) = None \<longleftrightarrow> (\<forall>i < ?l. passed_over s (fs_order s ! ((fs_next s + i) mod ?l)))"
    using False next_loop_None_iff by (simp add: nextJob_def)
  also have "\<dots> \<longleftrightarrow> (\<forall>k < ?l. passed_over s (fs_order s ! k))"
    using ring_covered [of _ ?l "fs_next s"] False by (metis length_greater_0_conv mod_less_divisor)
  also have "\<dots> \<longleftrightarrow> (\<forall>t \<in> set (fs_order s). passed_over s t)" by (simp add: all_set_conv_all_nth)
  finally show ?thesis .
qed (simp add: nextJob_def)

text \<open>
  C29.  When the scheduler has a job and does not hand one out.  \<open>nextJob\<close> answers no exactly when
  every tenant with waiting jobs either has its maximum in flight or was served last, has used up its
  burst, and is not alone.  So capacity is left idle only then: in particular a tenant with nothing in
  flight waits, when it used up its burst and all the others are at their maximum, until one of their
  jobs completes.
\<close>

theorem nextJob_stalls:
  assumes "sched_invar s"
  shows "fst (nextJob s) = None \<longleftrightarrow> (\<forall>t. fs_pending s t \<noteq> [] \<longrightarrow>
    fs_inflight s t = fs_maxFlight s
    \<or> fs_lastTenant s = t \<and> fs_burst s \<le> fs_currentBurst s \<and> (\<exists>u. u \<noteq> t \<and> fs_pending s u \<noteq> []))"
proof -
  have more: "length (fs_order s) > 1 \<longleftrightarrow> (\<exists>u. u \<noteq> t \<and> fs_pending s u \<noteq> [])" if "fs_pending s t \<noteq> []" for t
  proof -
    have t: "t \<in> set (fs_order s)" and d: "distinct (fs_order s)" using that assms by (auto simp: sched_invar_def)
    have "length (fs_order s) > 1 \<longleftrightarrow> card (set (fs_order s)) > 1" using d distinct_card by metis
    also have "\<dots> \<longleftrightarrow> (\<exists>a \<in> set (fs_order s). \<exists>b \<in> set (fs_order s). a \<noteq> b)"
      using arg_cong [OF card_le_Suc0_iff_eq [OF List.finite_set [of "fs_order s"]], of Not] by (simp add: linorder_not_le)
    also have "\<dots> \<longleftrightarrow> (\<exists>u \<in> set (fs_order s). u \<noteq> t)" using t by metis
    also have "\<dots> \<longleftrightarrow> (\<exists>u. u \<noteq> t \<and> fs_pending s u \<noteq> [])"
      using assms by (simp add: sched_invar_def Bex_def conj_commute)
    finally show ?thesis .
  qed
  have full: "fs_maxFlight s \<le> fs_inflight s t \<longleftrightarrow> fs_inflight s t = fs_maxFlight s" for t
    using sched_invar_range [OF assms, of t] by auto
  have "passed_over s t \<longleftrightarrow> fs_inflight s t = fs_maxFlight s
      \<or> fs_lastTenant s = t \<and> fs_burst s \<le> fs_currentBurst s \<and> (\<exists>u. u \<noteq> t \<and> fs_pending s u \<noteq> [])"
    if "fs_pending s t \<noteq> []" for t
    unfolding passed_over_def full more [OF that] using that by simp
  moreover have "t \<in> set (fs_order s) \<longleftrightarrow> fs_pending s t \<noteq> []" for t using assms by (simp add: sched_invar_def)
  ultimately show ?thesis unfolding nextJob_None_iff by (simp add: Ball_def)
qed

text \<open>A sample: \<open>a\<close> used up its burst of one, and the one job \<open>b\<close> may have is in flight.\<close>

definition sample_job :: "string \<Rightarrow> string \<Rightarrow> reserved_job" where
  "sample_job t i = \<lparr>rsv_Job = \<lparr>job_JobID = i, job_NotificationID = i, job_AttemptID = i, job_TenantID = t,
      job_Channel = ''email'', job_CreatedAt = 0\<rparr>,
     rsv_queueName = DispatchEmailQueueName, rsv_processingQueue = ProcessingQueueName DispatchEmailQueueName,
     rsv_payload = i\<rparr>"

definition stalled_sample :: fair_scheduler where
  "stalled_sample = sched_complete ''a'' (snd (nextJob (snd (nextJob
     (fold sched_add [sample_job ''b'' ''1'', sample_job ''b'' ''2'', sample_job ''a'' ''3'', sample_job ''a'' ''4'']
       (newFairScheduler 1 1))))))"

lemma nextJob_invar: "sched_invar s \<Longrightarrow> sched_invar (snd (nextJob s))"
proof -
  assume s: "sched_invar s"
  obtain x s' where n: "nextJob s = (x, s')" by (cases "nextJob s")
  show ?thesis using fair.next_none [OF s, of s'] fair.next_some [OF s, of _ s'] n by (cases x) auto
qed

lemma stalled_sample_invar: "sched_invar stalled_sample"
  by (simp add: stalled_sample_def complete_invar nextJob_invar add_invar new_invar)

theorem nextJob_stalls_witness:
  "fs_inflight stalled_sample ''a'' = 0 \<and> fs_pending stalled_sample ''a'' = [sample_job ''a'' ''4'']
   \<and> fs_maxFlight stalled_sample = 1 \<and> fst (nextJob stalled_sample) = None
   \<and> (fst (nextJob stalled_sample) = None \<longleftrightarrow> (\<forall>t. fs_pending stalled_sample t = []
      \<or> fs_inflight stalled_sample t = fs_maxFlight stalled_sample
      \<or> fs_lastTenant stalled_sample = t \<and> fs_burst stalled_sample \<le> fs_currentBurst stalled_sample
        \<and> (\<exists>u. u \<noteq> t \<and> fs_pending stalled_sample u \<noteq> [])))"
proof -
  have "fs_inflight stalled_sample ''a'' = 0" "fs_pending stalled_sample ''a'' = [sample_job ''a'' ''4'']"
    "fs_maxFlight stalled_sample = 1" "fst (nextJob stalled_sample) = None" by code_simp+
  with nextJob_stalls [OF stalled_sample_invar] show ?thesis by blast
qed

subsection \<open>Runs\<close>

text \<open>The operations in any order, with the jobs handed out, the latest first.\<close>

datatype sched_op = SchedAdd reserved_job | SchedNext | SchedComplete string

fun sched_step :: "sched_op \<Rightarrow> fair_scheduler \<times> reserved_job list \<Rightarrow> fair_scheduler \<times> reserved_job list" where
  "sched_step (SchedAdd j) (s, log) = (sched_add j s, log)"
| "sched_step SchedNext (s, log) = (case nextJob s of (None, s') \<Rightarrow> (s', log) | (Some j, s') \<Rightarrow> (s', j # log))"
| "sched_step (SchedComplete t) (s, log) = (sched_complete t s, log)"

definition sched_run :: "int \<Rightarrow> int \<Rightarrow> sched_op list \<Rightarrow> fair_scheduler \<times> reserved_job list" where
  "sched_run burst maxFlight ops = fold sched_step ops (newFairScheduler burst maxFlight, [])"

fun added :: "sched_op list \<Rightarrow> reserved_job list" where
  "added [] = []"
| "added (SchedAdd j # ops) = j # added ops"
| "added (_ # ops) = added ops"

lemma added_snoc [simp]: "added (ops @ [op]) = added ops @ (case op of SchedAdd j \<Rightarrow> [j] | _ \<Rightarrow> [])"
  by (induction ops rule: added.induct) (simp_all split: sched_op.split)

definition of_tenant :: "string \<Rightarrow> reserved_job list \<Rightarrow> reserved_job list" where
  "of_tenant t l = filter (\<lambda>j. tenant_of j = t) l"

lemma of_tenant_simps [simp]:
  "of_tenant t [] = []" "of_tenant t (l @ l') = of_tenant t l @ of_tenant t l'"
  "of_tenant t (j # l) = (if tenant_of j = t then j # of_tenant t l else of_tenant t l)"
  by (simp_all add: of_tenant_def)

text \<open>The number of jobs of a tenant that were handed out last, in a row.\<close>

definition streak :: "string \<Rightarrow> reserved_job list \<Rightarrow> nat" where
  "streak t log = length (takeWhile (\<lambda>j. tenant_of j = t) log)"

definition burst_counted :: "fair_scheduler \<Rightarrow> reserved_job list \<Rightarrow> bool" where
  "burst_counted s log = (fs_currentBurst s = int (streak (fs_lastTenant s) log)
     \<and> (log \<noteq> [] \<longrightarrow> fs_lastTenant s = tenant_of (hd log)))"

lemma nextJob_handed:
  assumes "sched_invar s" "nextJob s = (Some j, s')"
  shows "\<exists>idx k t. \<not> passed_over s t \<and> (j, s') = hand_out idx t (s\<lparr>fs_next := k\<rparr>) \<and> tenant_of j = t \<and> fs_pending s t \<noteq> []"
proof -
  have "next_loop (length (fs_order s)) s = (Some j, s')" using assms(2) by (simp add: nextJob_def split: if_splits)
  from next_loop_some [OF assms(1) this] obtain idx k t where
    h: "\<not> passed_over s t" "(j, s') = hand_out idx t (s\<lparr>fs_next := k\<rparr>)" "fs_pending s t \<noteq> []" by blast
  then have "tenant_of j = t" using assms(1) by (auto simp: hand_out_def sched_invar_def)
  with h show ?thesis by blast
qed

lemma burst_counted_handed:
  assumes "sched_invar s" "nextJob s = (Some j, s')" "burst_counted s log"
  shows "burst_counted s' (j # log)"
proof -
  from nextJob_handed [OF assms(1,2)] obtain idx k t where
    h: "(j, s') = hand_out idx t (s\<lparr>fs_next := k\<rparr>)" "tenant_of j = t" by blast
  then have "fs_lastTenant s' = t" "fs_currentBurst s' = (if fs_lastTenant s = t then fs_currentBurst s + 1 else 1)"
    by (simp_all add: hand_out_def counted_burst_def)
  then show ?thesis using assms(3) h(2) by (cases log) (auto simp: burst_counted_def streak_def)
qed

lemma sched_run_sound:
  "case sched_run burst maxFlight ops of (s, log) \<Rightarrow> sched_invar s \<and> burst_counted s log
     \<and> fs_maxFlight s = max 1 maxFlight \<and> fs_burst s = max 1 burst
     \<and> (\<forall>t. of_tenant t (rev log) @ fs_pending s t = of_tenant t (added ops))"
proof (induction ops rule: rev_induct)
  case Nil
  then show ?case using new_invar
    by (simp add: sched_run_def burst_counted_def streak_def) (simp add: newFairScheduler_def max_def)
next
  case (snoc op ops)
  obtain s log where r: "sched_run burst maxFlight ops = (s, log)" by (cases "sched_run burst maxFlight ops")
  then have run: "sched_run burst maxFlight (ops @ [op]) = sched_step op (s, log)" by (simp add: sched_run_def)
  note i = snoc.IH [unfolded r prod.case]
  show ?case
  proof (cases op)
    case (SchedAdd j)
    with i fair.add [of s j] show ?thesis unfolding run
      by (auto simp: burst_counted_def sched_add_def Let_def)
  next
    case (SchedComplete t)
    with i fair.complete [of s t] show ?thesis unfolding run
      by (auto simp: burst_counted_def sched_complete_def)
  next
    case SchedNext
    obtain x s' where n: "nextJob s = (x, s')" by (cases "nextJob s")
    show ?thesis
    proof (cases x)
      case None
      with n nextJob_none obtain k where "s' = s\<lparr>fs_next := k\<rparr>" by blast
      with None SchedNext i n show ?thesis unfolding run by (simp add: burst_counted_def)
    next
      case (Some j)
      note c = burst_counted_handed [OF _ n [unfolded Some]] fair.next_some [OF _ n [unfolded Some]]
      from nextJob_handed [OF _ n [unfolded Some]] i have b: "fs_burst s' = fs_burst s"
        by (auto simp: hand_out_def)
      have "of_tenant t (rev (j # log)) @ fs_pending s' t = of_tenant t (added ops)" for t
      proof -
        have "of_tenant t (rev log) @ fs_pending s t = of_tenant t (added ops)" using i by blast
        then show ?thesis using c(2) [OF conjunct1 [OF i]] by (cases "t = tenant_of j") auto
      qed
      with c i b SchedNext n Some show ?thesis unfolding run by auto
    qed
  qed
qed

text \<open>
  C28.  Whatever jobs are added and completed, in any order, the scheduler hands out the jobs of every
  tenant exactly once and in the order they came; never more than the maximum of a tenant is in
  flight; and no tenant gets more than its burst in a row while another one waits.
\<close>

theorem scheduler_fair_fifo:
  assumes "sched_run burst maxFlight ops = (s, log)"
  shows "of_tenant t (rev log) @ fs_pending s t = of_tenant t (added ops)
    \<and> fs_inflight s t \<le> max 1 maxFlight
    \<and> (\<forall>j s'. nextJob s = (Some j, s') \<and> max 1 burst \<le> int (streak (tenant_of j) log) \<longrightarrow>
        (\<forall>u. u \<noteq> tenant_of j \<longrightarrow> fs_pending s u = []))"
proof -
  note i = sched_run_sound [where burst = burst and maxFlight = maxFlight and ops = ops, unfolded assms prod.case]
  have "fs_pending s u = []" if n: "nextJob s = (Some j, s')" and b: "max 1 burst \<le> int (streak (tenant_of j) log)"
    and u: "u \<noteq> tenant_of j" for j s' u
  proof (rule ccontr)
    assume "fs_pending s u \<noteq> []"
    from nextJob_handed [OF conjunct1 [OF i] n] have p: "\<not> passed_over s (tenant_of j)" "fs_pending s (tenant_of j) \<noteq> []" by blast+
    then have "{u, tenant_of j} \<subseteq> set (fs_order s)" using i \<open>fs_pending s u \<noteq> []\<close> by (auto simp: sched_invar_def)
    then have "card {u, tenant_of j} \<le> length (fs_order s)"
      by (meson List.finite_set card_length card_mono le_trans)
    then have "length (fs_order s) > 1" using u by simp
    moreover have "log \<noteq> []" using b by (auto simp: streak_def)
    then have "fs_lastTenant s = tenant_of (hd log)" using i by (simp add: burst_counted_def)
    moreover have "tenant_of (hd log) = tenant_of j" using b \<open>log \<noteq> []\<close> by (cases log) (auto simp: streak_def split: if_splits)
    ultimately show False using p(1) i b by (auto simp: passed_over_def burst_counted_def)
  qed
  with i sched_invar_range [of s t] show ?thesis by auto
qed

theorem scheduler_fair_fifo_witness:
  "case sched_run 1 1 [SchedAdd (sample_job ''b'' ''1''), SchedAdd (sample_job ''a'' ''2''), SchedNext] of (s, log) \<Rightarrow>
     of_tenant ''b'' (rev log) @ fs_pending s ''b'' = of_tenant ''b'' [sample_job ''b'' ''1'', sample_job ''a'' ''2'']"
  using scheduler_fair_fifo [of 1 1 "[SchedAdd (sample_job ''b'' ''1''), SchedAdd (sample_job ''a'' ''2''), SchedNext]",
      OF prod.collapse [symmetric], of "''b''"]
  by (simp add: prod.case_eq_if)

end
