(* ===== verification/Queue_Broker.thy ===== *)
theory Queue_Broker
  imports Queue_Client
begin

text \<open>
  What one command of the client does to the server and to the connection: either it is not
  executed, or it is executed once, and its reply is read or the connection is dropped.
\<close>

subsection \<open>One command over the connection\<close>

definition idle :: "('t, 'r, 'x) redis_world_scheme \<Rightarrow> bool" where
  "idle w = (rq_conn w = Some \<lparr>cn_link = Up, cn_input = []\<rparr>)"

definition broken :: "('t, 'r, 'x) redis_world_scheme \<Rightarrow> bool" where
  "broken w = (\<exists>c. rq_conn w = Some c \<and> cn_link c = Broken)"

definition down :: "('t, 'r, 'x) redis_world_scheme \<Rightarrow> bool" where
  "down w = (rq_conn w = None \<or> broken w)"

text \<open>
  An error of the connection or of the server; the other two errors are answers about the queue.
\<close>

definition failed :: "err + 'a \<Rightarrow> bool" where
  "failed x = (\<exists>e. x = Inl e \<and> e \<noteq> errRedisNil \<and> e \<noteq> not_in_processing \<and> e \<noteq> out_of_fuel)"

definition same_client :: "('t, 'r, 'x) redis_world_scheme \<Rightarrow> ('t, 'r, 'x) redis_world_scheme \<Rightarrow> bool" where
  "same_client w w' = (rq_password w' = rq_password w \<and> rq_db w' = rq_db w)"

lemma failed_simps [simp]:
  "failed (Inl EOF)" "failed (Inl write_failure)" "failed (Inl not_initialized)" "failed (Inl ConnError)"
  "failed (Inl (redis_error l))" "failed (Inl unexpected_response)" "\<not> failed (Inl not_in_processing)"
  "failed (Inl JsonError)" "\<not> failed (Inr y)" "\<not> failed (Inl errRedisNil)" "\<not> failed (Inl out_of_fuel)"
  by (simp_all add: failed_def errRedisNil_def EOF_def write_failure_def not_initialized_def redis_error_def
      unexpected_response_def not_in_processing_def out_of_fuel_def)

lemma queue_errors [simp]:
  "errRedisNil \<noteq> not_in_processing" "not_in_processing \<noteq> errRedisNil" "errRedisNil \<noteq> out_of_fuel"
  "out_of_fuel \<noteq> errRedisNil" "not_in_processing \<noteq> out_of_fuel" "out_of_fuel \<noteq> not_in_processing"
  by (simp_all add: errRedisNil_def not_in_processing_def out_of_fuel_def)

lemma same_client_refl [simp]: "same_client w w"
  by (simp add: same_client_def)

lemma same_client_trans [trans]: "same_client w w' \<Longrightarrow> same_client w' w'' \<Longrightarrow> same_client w w''"
  by (simp add: same_client_def)

lemma down_reset [simp]: "down (set_conn None w)" "\<not> down (set_conn (Some \<lparr>cn_link = Up, cn_input = i\<rparr>) w)"
  by (simp_all add: down_def broken_def set_conn_def)

lemma broken_set [simp]: "broken (set_conn (Some c) w) \<longleftrightarrow> cn_link c = Broken"
  by (simp add: broken_def set_conn_def)

lemma idle_set [simp]: "idle (set_conn c w) \<longleftrightarrow> c = Some \<lparr>cn_link = Up, cn_input = []\<rparr>"
  by (simp add: idle_def set_conn_def)

lemma set_conn_data [simp]:
  "rw_data (set_conn c w) = rw_data w" "rw_session (set_conn c w) = rw_session w"
  "rq_conn (set_conn c w) = c" "rq_password (set_conn c w) = rq_password w" "rq_db (set_conn c w) = rq_db w"
  "set_conn c (set_conn d w) = set_conn c w"
  by (simp_all add: set_conn_def)

lemma readResponse_empty: "readResponse [] = (Inl EOF, [])"
  by (simp add: readResponse_def read_head_def)

lemma answered_lost:
  "rq_conn w = Some \<lparr>cn_link = l, cn_input = []\<rparr> \<Longrightarrow> answered w = (Inl EOF, set_conn None w)"
  by (simp add: answered_def readResponseLocked_def readResponse_empty handle_def andThen_def
      resetConnLocked_def fail_def)

lemma answered_read:
  assumes "sound_resp v" "rq_conn w = Some \<lparr>cn_link = Up, cn_input = encode_resp v\<rparr>"
  shows "answered w = (read_as v, set_conn (case read_as v of Inl _ \<Rightarrow> None
    | Inr _ \<Rightarrow> Some \<lparr>cn_link = Up, cn_input = []\<rparr>) w)"
  using readResponse_encoded [OF assms(1), of "[]"] assms(2)
  by (auto simp: answered_def readResponseLocked_def handle_def andThen_def resetConnLocked_def fail_def
      return_def split: sum.split)

lemma read_as_failed: "read_as v = Inl e \<Longrightarrow> failed (Inl e :: err + reply)"
  by (auto simp: read_as_def split: resp.splits)

lemmas replied = andThen_def handle_def fail_def return_def as_int64_def as_string_def popped_def

locale resp_server =
  fixes srv :: "('t, 'r) redis_server"
  assumes sound: "rs_exec srv cmd s = (v, s') \<Longrightarrow> sound_resp v"
begin

lemma exchange_outcome:
  assumes "idle w" "exchange srv cmd w = (x, w')"
  obtains (lost) "same_client w w'" "failed x" "down w'" "rw_data w' = rw_data w"
  | (ran) v t r where "same_client w w'" "rs_exec srv cmd (rw_session w, rw_data w) = (v, t, r)" "rw_data w' = r"
      "failed x \<and> down w' \<or> x = read_as v \<and> (\<exists>y. x = Inr y) \<and> idle w' \<and> rw_session w' = t"
proof -
  obtain v t r where e: "rs_exec srv cmd (rw_session w, rw_data w) = (v, t, r)"
    by (cases "rs_exec srv cmd (rw_session w, rw_data w)")
  have v: "sound_resp v" using sound [of cmd "(rw_session w, rw_data w)" v "(t, r)"] e by simp
  note c = assms(1) [unfolded idle_def]
  show ?thesis
  proof (cases "next_event w")
    case Works
    have "exchange srv cmd w = answered (set_conn (Some \<lparr>cn_link = Up, cn_input = encode_resp v\<rparr>)
        (w\<lparr>rw_events := tl (rw_events w), rw_session := t, rw_data := r\<rparr>))"
      using c e Works by (simp add: exchange_def writeCommandLocked_def Let_def executed_def
          andThen_def handle_def)
    then have "(x, w') = (read_as v, set_conn (case read_as v of Inl _ \<Rightarrow> None
        | Inr _ \<Rightarrow> Some \<lparr>cn_link = Up, cn_input = []\<rparr>)
        (w\<lparr>rw_events := tl (rw_events w), rw_session := t, rw_data := r\<rparr>))"
      using assms(2) by (simp add: answered_read [OF v])
    then show ?thesis using ran [of v t r] e read_as_failed [of v]
      by (auto simp: same_client_def split: sum.splits)
  next
    case WriteFails
    then show ?thesis using lost c assms(2)
      by (auto simp: exchange_def writeCommandLocked_def Let_def andThen_def handle_def fail_def
          same_client_def down_def)
  next
    case CommandLost
    then show ?thesis using lost c assms(2)
      by (auto simp: exchange_def writeCommandLocked_def Let_def andThen_def handle_def fail_def
          answered_lost same_client_def)
  next
    case AnswerLost
    then show ?thesis using ran [of v t r] c assms(2) e
      by (auto simp: exchange_def writeCommandLocked_def Let_def andThen_def handle_def fail_def
          answered_lost same_client_def executed_def)
  qed
qed

lemma setup_exchange_outcome:
  assumes "idle w" "setup_exchange srv cmd w = (x, w')"
    "rs_exec srv cmd (rw_session w, rw_data w) = (Status l, t, rw_data w)"
  shows "same_client w w' \<and> rw_data w' = rw_data w \<and>
    (failed x \<and> rq_conn w' = None \<or> x = Inr () \<and> idle w' \<and> rw_session w' = t)"
proof -
  have v: "sound_resp (Status l)" using sound assms(3) by (metis prod.collapse)
  note c = assms(1) [unfolded idle_def]
  have r: "read_as (Status l) = Inr (RString l)" by (simp add: read_as_def)
  show ?thesis using c assms(2,3)
    by (cases "next_event w") (auto simp: setup_exchange_def writeCommandLocked_def Let_def andThen_def
        handle_def fail_def return_def resetConnLocked_def executed_def answered_lost
        answered_read [OF v] r same_client_def)
qed

end

text \<open>A writer that failed once is never replaced: no command is sent any more.\<close>

lemma broken_write: "broken w \<Longrightarrow> writeCommandLocked srv parts w = (Inl write_failure, w)"
  by (auto simp: broken_def writeCommandLocked_def)

lemma broken_ensure: "broken w \<Longrightarrow> ensureConnLocked srv w = (Inr (), w)"
  by (auto simp: broken_def ensureConnLocked_def return_def)

lemma broken_request: "broken w \<Longrightarrow> request srv parts w = (Inl write_failure, w)"
  by (simp add: request_def exchange_def andThen_def handle_def fail_def broken_write broken_ensure)

subsection \<open>A connection that is ready\<close>

text \<open>
  Between operations the client has no connection, or one with a broken writer, or one that is
  logged in with nothing left to read.
\<close>

definition settled :: "'t \<Rightarrow> string \<Rightarrow> int \<Rightarrow> ('t, 'r, 'x) redis_world_scheme \<Rightarrow> bool" where
  "settled ready password db w =
     (rq_password w = password \<and> rq_db w = db \<and> (down w \<or> idle w \<and> rw_session w = ready))"

lemma settled_data [simp]: "settled ready password db (w\<lparr>rw_data := r\<rparr>) \<longleftrightarrow> settled ready password db w"
  by (simp add: settled_def down_def idle_def broken_def)

text \<open>The documented login: the credentials are right and the database exists.\<close>

locale redis_login = resp_server srv for srv :: "('t, 'r) redis_server" +
  fixes authed ready :: 't and password :: string and db :: int
  assumes auth: "password \<noteq> [] \<Longrightarrow> \<exists>l. rs_exec srv [''AUTH'', password] (rs_fresh srv, r) = (Status l, authed, r)"
    and no_auth: "password = [] \<Longrightarrow> authed = rs_fresh srv"
    and select: "db \<noteq> 0 \<Longrightarrow> \<exists>l. rs_exec srv [''SELECT'', Itoa db] (authed, r) = (Status l, ready, r)"
    and no_select: "db = 0 \<Longrightarrow> ready = authed"
begin

lemma select_outcome:
  assumes "idle w" "rw_session w = authed" "rq_db w = db" "rq_password w = password"
    "(if db \<noteq> 0 then setup_exchange srv [''SELECT'', Itoa db] else return ()) w = (x, w')"
  shows "settled ready password db w' \<and> rw_data w' = rw_data w \<and> (failed x \<or> x = Inr () \<and> idle w')"
proof (cases "db = 0")
  case False
  then obtain l where "rs_exec srv [''SELECT'', Itoa db] (authed, rw_data w) = (Status l, ready, rw_data w)"
    using select by blast
  then show ?thesis using setup_exchange_outcome [OF assms(1), of "[''SELECT'', Itoa db]" x w' l ready] assms False
    by (auto simp: settled_def same_client_def down_def)
qed (use assms no_select in \<open>simp add: settled_def return_def\<close>)

lemma login_outcome:
  assumes "idle w" "rw_session w = rs_fresh srv" "rq_db w = db" "rq_password w = password"
    "andThen (if password \<noteq> [] then setup_exchange srv [''AUTH'', password] else return ()) (\<lambda>_.
       if db \<noteq> 0 then setup_exchange srv [''SELECT'', Itoa db] else return ()) w = (x, w')"
  shows "settled ready password db w' \<and> rw_data w' = rw_data w \<and> (failed x \<or> x = Inr () \<and> idle w')"
proof (cases "password = []")
  case True
  then show ?thesis using select_outcome [of w x w'] assms no_auth
    by (simp add: andThen_def handle_def return_def)
next
  case False
  then obtain l where l: "rs_exec srv [''AUTH'', password] (rs_fresh srv, rw_data w) = (Status l, authed, rw_data w)"
    using auth by blast
  obtain y v where y: "setup_exchange srv [''AUTH'', password] w = (y, v)"
    by (cases "setup_exchange srv [''AUTH'', password] w")
  have s: "same_client w v \<and> rw_data v = rw_data w \<and>
      (failed y \<and> rq_conn v = None \<or> y = Inr () \<and> idle v \<and> rw_session v = authed)"
    using setup_exchange_outcome [OF assms(1) y, of l authed] l assms(2) by simp
  show ?thesis
  proof (cases y)
    case (Inl e)
    then show ?thesis using s y assms False
      by (auto simp: andThen_def handle_def fail_def settled_def same_client_def down_def failed_def)
  next
    case (Inr u)
    then show ?thesis using select_outcome [of v x w'] s y assms False
      by (simp add: andThen_def handle_def same_client_def)
  qed
qed

lemma ensure_outcome:
  assumes "settled ready password db w" "ensureConnLocked srv w = (x, w')"
  shows "settled ready password db w' \<and> rw_data w' = rw_data w \<and> (failed x \<or> x = Inr () \<and> (idle w' \<or> broken w'))"
proof (cases "rq_conn w")
  case None
  then have c: "rq_db w = db" "rq_password w = password" using assms(1) by (simp_all add: settled_def)
  let ?w = "w\<lparr>rw_dials := tl (rw_dials w)\<rparr>"
  let ?v = "?w\<lparr>rq_conn := Some \<lparr>cn_link = Up, cn_input = []\<rparr>, rw_session := rs_fresh srv\<rparr>"
  have d: "DialContext srv w = (Inr (), ?v) \<or> DialContext srv w = (Inl ConnError, ?w)"
    by (simp add: DialContext_def Let_def)
  have "idle ?v" by (simp add: idle_def)
  then show ?thesis using d None c assms(2) login_outcome [of ?v x w']
    by (auto simp: ensureConnLocked_def andThen_def handle_def fail_def settled_def down_def)
next
  case (Some c)
  then have "x = Inr () \<and> w' = w" using assms(2) by (simp add: ensureConnLocked_def return_def)
  then show ?thesis using assms(1) Some by (auto simp: settled_def down_def)
qed

lemma request_outcome:
  assumes "settled ready password db w" "request srv cmd w = (x, w')"
  obtains (lost) "failed x" "settled ready password db w'" "rw_data w' = rw_data w"
  | (ran) v t r where "rs_exec srv cmd (ready, rw_data w) = (v, t, r)" "rw_data w' = r"
      "failed x \<and> settled ready password db w' \<or>
       x = read_as v \<and> (\<exists>y. x = Inr y) \<and> (t = ready \<longrightarrow> settled ready password db w')"
proof -
  obtain y u where y: "ensureConnLocked srv w = (y, u)" by (cases "ensureConnLocked srv w")
  note e = ensure_outcome [OF assms(1) y]
  show ?thesis
  proof (cases y)
    case (Inl b)
    then show ?thesis using lost e assms(2) y by (auto simp: request_def andThen_def handle_def fail_def failed_def)
  next
    case (Inr b)
    then have x: "exchange srv cmd u = (x, w')" using assms(2) y by (simp add: request_def andThen_def handle_def)
    show ?thesis
    proof (cases "idle u")
      case True
      then have s: "rw_session u = ready" using e by (auto simp: settled_def down_def idle_def broken_def)
      from True x show ?thesis
      proof (cases rule: exchange_outcome)
        case lost
        then show ?thesis using that(1) e by (simp add: settled_def same_client_def)
      next
        case (ran v t r)
        then show ?thesis using that(2) [of v t r] e s by (auto simp: settled_def same_client_def)
      qed
    next
      case False
      then have "broken u" using e Inr by simp
      then show ?thesis using lost x e
        by (auto simp: exchange_def andThen_def handle_def fail_def broken_write)
    qed
  qed
qed

end

end
