(* ===== verification/Queue_Spec.thy ===== *)
theory Queue_Spec
  imports Queue_Broker
begin

text \<open>
  The contract of the job queues: an abstract broker with one list of payloads for each key, the
  refinement of the client's operations to it over a server that keeps the documented behaviour of
  the Redis list commands, and what follows for the jobs when many clients share the server.
\<close>

subsection \<open>The abstract broker\<close>

type_synonym broker = "string \<Rightarrow> string list"

definition pushed :: "string \<Rightarrow> string \<Rightarrow> broker \<Rightarrow> broker" where
  "pushed k v B = B(k := B k @ [v])"

definition moved :: "string \<Rightarrow> string \<Rightarrow> broker \<Rightarrow> broker" where
  "moved a b B = (if B a = [] then B else B(a := butlast (B a), b := last (B a) # B b))"

definition removed :: "string \<Rightarrow> string \<Rightarrow> broker \<Rightarrow> broker" where
  "removed k v B = B(k := remove1 v (B k))"

definition returned :: "string \<Rightarrow> string \<Rightarrow> string \<Rightarrow> broker \<Rightarrow> broker" where
  "returned p q v B = (removed p v B)(q := v # removed p v B q)"

text \<open>The source queues of the service, and the keys that hold lists.\<close>

definition sources :: "string set" where
  "sources = {DispatchQueueName, DispatchWebhookQueueName, DispatchEmailQueueName}"

definition list_keys :: "string set" where
  "list_keys = sources \<union> ProcessingQueueName ` sources"

text \<open>
  The atomic operations of a client, with the queue they work on: one poll of the loop of
  \<open>ReserveChannel\<close>, one pop of the loop of \<open>RecoverProcessingQueue\<close>, and the operations that are
  one command or one transaction.
\<close>

datatype queue_op =
    OpEnqueue string dispatch_job
  | OpPoll string int
  | OpSweep string
  | OpAck string string
  | OpRequeue string string
  | OpDepth string

fun op_queue :: "queue_op \<Rightarrow> string" where
  "op_queue (OpEnqueue q _) = q"
| "op_queue (OpPoll q _) = q"
| "op_queue (OpSweep q) = q"
| "op_queue (OpAck q _) = q"
| "op_queue (OpRequeue q _) = q"
| "op_queue (OpDepth q) = q"

text \<open>A job that was reserved from a queue, by its payload.\<close>

definition reservation :: "string \<Rightarrow> dispatch_job \<Rightarrow> string \<Rightarrow> reserved_job" where
  "reservation q job payload = \<lparr>rsv_Job = job, rsv_queueName = q,
     rsv_processingQueue = ProcessingQueueName q, rsv_payload = payload\<rparr>"

datatype answer = Done | Got string | Count int

definition some_job :: dispatch_job where
  "some_job = \<lparr>job_JobID = [], job_NotificationID = [], job_AttemptID = [], job_TenantID = [],
     job_Channel = [], job_CreatedAt = 0\<rparr>"

fun run_op :: "job_codec \<Rightarrow> ('t, 'r) redis_server \<Rightarrow> queue_op \<Rightarrow> ('t, 'r, 'x, answer) qm" where
  "run_op jc srv (OpEnqueue q job) = andThen (enqueue jc srv q job) (\<lambda>_. return Done)"
| "run_op jc srv (OpPoll q seconds) =
     andThen (brpoplpush srv q (ProcessingQueueName q) seconds) (\<lambda>v. return (Got v))"
| "run_op jc srv (OpSweep q) =
     andThen (rpoplpush srv (ProcessingQueueName q) q) (\<lambda>v. return (Got v))"
| "run_op jc srv (OpAck q v) = andThen (AckReserved srv (reservation q some_job v)) (\<lambda>_. return Done)"
| "run_op jc srv (OpRequeue q v) = andThen (RequeueReserved srv (reservation q some_job v)) (\<lambda>_. return Done)"
| "run_op jc srv (OpDepth q) = andThen (QueueDepth srv q) (\<lambda>n. return (Count n))"

text \<open>What the abstract operation does, and what it answers.\<close>

fun op_effect :: "job_codec \<Rightarrow> queue_op \<Rightarrow> broker \<Rightarrow> broker" where
  "op_effect jc (OpEnqueue q job) B = (case jc_marshal jc job of None \<Rightarrow> B | Some v \<Rightarrow> pushed q v B)"
| "op_effect jc (OpPoll q _) B = moved q (ProcessingQueueName q) B"
| "op_effect jc (OpSweep q) B = moved (ProcessingQueueName q) q B"
| "op_effect jc (OpAck q v) B = removed (ProcessingQueueName q) v B"
| "op_effect jc (OpRequeue q v) B = returned (ProcessingQueueName q) q v B"
| "op_effect jc (OpDepth q) B = B"

definition taken :: "string list \<Rightarrow> err + answer" where
  "taken l = (if l = [] then Inl errRedisNil else Inr (Got (last l)))"

fun op_answer :: "job_codec \<Rightarrow> queue_op \<Rightarrow> broker \<Rightarrow> err + answer" where
  "op_answer jc (OpEnqueue q job) B = (if jc_marshal jc job = None then Inl JsonError else Inr Done)"
| "op_answer jc (OpPoll q _) B = taken (B q)"
| "op_answer jc (OpSweep q) B = taken (B (ProcessingQueueName q))"
| "op_answer jc (OpAck q v) B =
     (if v \<in> set (B (ProcessingQueueName q)) then Inr Done else Inl not_in_processing)"
| "op_answer jc (OpRequeue q v) B =
     (if v \<in> set (B (ProcessingQueueName q)) then Inr Done else Inl not_in_processing)"
| "op_answer jc (OpDepth q) B = Inr (Count (int (length (B q))))"

text \<open>
  The contract: the abstract operation with its answer, or an error of the connection or the
  server, after which the operation was done or was not.
\<close>

definition refined :: "job_codec \<Rightarrow> queue_op \<Rightarrow> broker \<Rightarrow> err + answer \<Rightarrow> broker \<Rightarrow> bool" where
  "refined jc op B x B' = (x = op_answer jc op B \<and> B' = op_effect jc op B
     \<or> failed x \<and> (B' = B \<or> B' = op_effect jc op B))"

subsection \<open>The documented list commands\<close>

lemma refused_read: "refused v \<Longrightarrow> failed (read_as v)"
  by (auto simp: refused_iff read_as_def)

definition popped_from :: "string list \<Rightarrow> resp \<Rightarrow> bool" where
  "popped_from l v = (if l = [] then v = NullBulk \<or> v = NullMulti else v = Bulk (last l))"

locale redis_lists = redis_login srv authed ready password db
  for srv :: "('t, 'r) redis_server" and authed ready :: 't and password :: string and db :: int +
  fixes contents :: "'r \<Rightarrow> broker"
    and queued :: "string list list \<Rightarrow> 't"
  assumes rpush: "k \<in> list_keys \<Longrightarrow> rs_exec srv [''RPUSH'', k, v] (ready, r) = (a, t, r') \<Longrightarrow> t = ready
      \<and> (refused a \<and> contents r' = contents r \<or> (\<exists>n. a = Number n) \<and> contents r' = pushed k v (contents r))"
    and rpoplpush: "k \<in> list_keys \<Longrightarrow> k' \<in> list_keys \<Longrightarrow> k \<noteq> k' \<Longrightarrow>
      rs_exec srv [''RPOPLPUSH'', k, k'] (ready, r) = (a, t, r') \<Longrightarrow> t = ready
      \<and> (refused a \<and> contents r' = contents r \<or> popped_from (contents r k) a \<and> contents r' = moved k k' (contents r))"
    and brpoplpush: "k \<in> list_keys \<Longrightarrow> k' \<in> list_keys \<Longrightarrow> k \<noteq> k' \<Longrightarrow>
      rs_exec srv [''BRPOPLPUSH'', k, k', Itoa seconds] (ready, r) = (a, t, r') \<Longrightarrow> t = ready
      \<and> (refused a \<and> contents r' = contents r \<or> popped_from (contents r k) a \<and> contents r' = moved k k' (contents r))"
    and lrem: "k \<in> list_keys \<Longrightarrow> rs_exec srv [''LREM'', k, ''1'', v] (ready, r) = (a, t, r') \<Longrightarrow> t = ready
      \<and> (refused a \<and> contents r' = contents r
         \<or> a = Number (if v \<in> set (contents r k) then 1 else 0) \<and> contents r' = removed k v (contents r))"
    and llen: "k \<in> list_keys \<Longrightarrow> rs_exec srv [''LLEN'', k] (ready, r) = (a, t, r') \<Longrightarrow> t = ready
      \<and> contents r' = contents r \<and> (refused a \<or> a = Number (int (length (contents r k))))"
    and multi: "rs_exec srv [''MULTI''] (ready, r) = (a, t, r') \<Longrightarrow> contents r' = contents r
      \<and> (refused a \<or> (\<exists>l. a = Status l) \<and> t = queued [])"
    and queue: "cmd \<in> {[''LREM'', k, ''1'', v], [''LPUSH'', k, v]} \<Longrightarrow>
      rs_exec srv cmd (queued cs, r) = (a, t, r') \<Longrightarrow> contents r' = contents r
      \<and> (refused a \<or> (\<exists>l. a = Status l) \<and> t = queued (cs @ [cmd]))"
    and exec: "k \<in> list_keys \<Longrightarrow> k' \<in> list_keys \<Longrightarrow>
      rs_exec srv [''EXEC''] (queued [[''LREM'', k, ''1'', v], [''LPUSH'', k', v]], r) = (a, t, r') \<Longrightarrow> t = ready
      \<and> (refused a \<and> contents r' = contents r
         \<or> (\<exists>n. a = Multi [Number (if v \<in> set (contents r k) then 1 else 0), Number n])
           \<and> contents r' = returned k k' v (contents r))"
begin

abbreviation steady :: "('t, 'r, 'x) redis_world_scheme \<Rightarrow> bool" where
  "steady \<equiv> settled ready password db"

lemma refined_failed: "failed x \<Longrightarrow> B' = B \<or> B' = op_effect jc op B \<Longrightarrow> refined jc op B x B'"
  by (auto simp: refined_def)

text \<open>
  The operations that are one command: it is enough to look at what the command does and at what
  is made of the reply.
\<close>

lemma one_command:
  assumes "steady w" "andThen (request srv cmd) (\<lambda>y u. (g y, u)) w = (x, w')"
    and cmd: "\<And>a t r. rs_exec srv cmd (ready, rw_data w) = (a, t, r) \<Longrightarrow>
      t = ready \<and> (refused a \<and> contents r = contents (rw_data w)
        \<or> \<not> refused a \<and> g (go_value a) = op_answer jc op (contents (rw_data w))
          \<and> contents r = op_effect jc op (contents (rw_data w)))"
  shows "steady w' \<and> refined jc op (contents (rw_data w)) x (contents (rw_data w'))"
proof -
  obtain y u where y: "request srv cmd w = (y, u)" by (cases "request srv cmd w")
  have u: "u = w'" and x: "failed y \<Longrightarrow> failed x" "y = Inr v \<Longrightarrow> x = g v" for v
    using assms(2) y by (auto simp: andThen_def handle_def fail_def failed_def split: sum.splits)
  from assms(1) y show ?thesis
  proof (cases rule: request_outcome)
    case lost
    then show ?thesis using x u refined_failed by simp
  next
    case (ran v t r)
    note c = cmd [OF ran(1)]
    from ran(3) show ?thesis
    proof
      assume "failed y \<and> steady u"
      then show ?thesis using x u c ran(2) by (auto intro: refined_failed)
    next
      assume "y = read_as v \<and> (\<exists>z. y = Inr z) \<and> (t = ready \<longrightarrow> steady u)"
      then have "\<not> refused v" "y = Inr (go_value v)" "steady u"
        using c by (auto simp: refused_iff read_as_def split: resp.splits)
      then show ?thesis using x u c ran(2) by (auto simp: refined_def)
    qed
  qed
qed

lemma enqueue_refined:
  assumes "steady w" "q \<in> list_keys" "run_op jc srv (OpEnqueue q job) w = (x, w')"
  shows "steady w' \<and> refined jc (OpEnqueue q job) (contents (rw_data w)) x (contents (rw_data w'))"
proof (cases "jc_marshal jc job")
  case None
  then show ?thesis using assms by (simp add: enqueue_def andThen_def handle_def fail_def refined_def)
next
  case (Some v)
  show ?thesis
  proof (rule one_command [where cmd = "[''RPUSH'', q, v]" and g = "\<lambda>_. Inr Done"])
    show "andThen (request srv [''RPUSH'', q, v]) (\<lambda>y u. (Inr Done, u)) w = (x, w')"
      using assms(3) Some by (auto simp: enqueue_def replied split: prod.splits sum.splits)
    fix a t r
    assume "rs_exec srv [''RPUSH'', q, v] (ready, rw_data w) = (a, t, r)"
    from rpush [OF assms(2) this] show "t = ready \<and> (refused a \<and> contents r = contents (rw_data w) \<or>
        \<not> refused a \<and> Inr Done = op_answer jc (OpEnqueue q job) (contents (rw_data w)) \<and>
        contents r = op_effect jc (OpEnqueue q job) (contents (rw_data w)))"
      using Some by (auto simp: refused_iff)
  qed (rule assms(1))
qed

text \<open>What a pop and a removal make of the replies.\<close>

definition pop_answer :: "reply \<Rightarrow> err + answer" where
  "pop_answer y = (case y of RNil \<Rightarrow> Inl errRedisNil | RString v \<Rightarrow> Inr (Got v) | _ \<Rightarrow> Inl unexpected_response)"

definition lrem_answer :: "reply \<Rightarrow> err + answer" where
  "lrem_answer y = (case y of RInt n \<Rightarrow> if n = 0 then Inl not_in_processing else Inr Done
     | _ \<Rightarrow> Inl unexpected_response)"

lemma popped_from_answer: "popped_from l a \<Longrightarrow> \<not> refused a \<and> pop_answer (go_value a) = taken l"
  by (auto simp: popped_from_def taken_def pop_answer_def refused_iff split: if_splits)

lemma poll_refined:
  assumes "steady w" "q \<in> list_keys" "ProcessingQueueName q \<in> list_keys" "run_op jc srv (OpPoll q n) w = (x, w')"
  shows "steady w' \<and> refined jc (OpPoll q n) (contents (rw_data w)) x (contents (rw_data w'))"
proof (rule one_command [where cmd = "[''BRPOPLPUSH'', q, ProcessingQueueName q, Itoa n]" and g = pop_answer])
  show "andThen (request srv [''BRPOPLPUSH'', q, ProcessingQueueName q, Itoa n]) (\<lambda>y u. (pop_answer y, u)) w = (x, w')"
    using assms(4) by (auto simp: brpoplpush_def pop_answer_def replied split: prod.splits sum.splits reply.splits)
  fix a t r
  assume "rs_exec srv [''BRPOPLPUSH'', q, ProcessingQueueName q, Itoa n] (ready, rw_data w) = (a, t, r)"
  from brpoplpush [OF assms(2,3) _ this]
  show "t = ready \<and> (refused a \<and> contents r = contents (rw_data w) \<or>
      \<not> refused a \<and> pop_answer (go_value a) = op_answer jc (OpPoll q n) (contents (rw_data w)) \<and>
      contents r = op_effect jc (OpPoll q n) (contents (rw_data w)))"
    using not_own_processing [of q] by (auto dest: popped_from_answer)
qed (rule assms(1))

lemma sweep_refined:
  assumes "steady w" "q \<in> list_keys" "ProcessingQueueName q \<in> list_keys" "run_op jc srv (OpSweep q) w = (x, w')"
  shows "steady w' \<and> refined jc (OpSweep q) (contents (rw_data w)) x (contents (rw_data w'))"
proof (rule one_command [where cmd = "[''RPOPLPUSH'', ProcessingQueueName q, q]" and g = pop_answer])
  show "andThen (request srv [''RPOPLPUSH'', ProcessingQueueName q, q]) (\<lambda>y u. (pop_answer y, u)) w = (x, w')"
    using assms(4) by (auto simp: rpoplpush_def pop_answer_def replied split: prod.splits sum.splits reply.splits)
  fix a t r
  assume "rs_exec srv [''RPOPLPUSH'', ProcessingQueueName q, q] (ready, rw_data w) = (a, t, r)"
  from rpoplpush [OF assms(3,2) not_own_processing this]
  show "t = ready \<and> (refused a \<and> contents r = contents (rw_data w) \<or>
      \<not> refused a \<and> pop_answer (go_value a) = op_answer jc (OpSweep q) (contents (rw_data w)) \<and>
      contents r = op_effect jc (OpSweep q) (contents (rw_data w)))"
    by (auto dest: popped_from_answer)
qed (rule assms(1))

lemma ack_refined:
  assumes "steady w" "ProcessingQueueName q \<in> list_keys" "run_op jc srv (OpAck q v) w = (x, w')"
  shows "steady w' \<and> refined jc (OpAck q v) (contents (rw_data w)) x (contents (rw_data w'))"
proof (rule one_command [where cmd = "[''LREM'', ProcessingQueueName q, ''1'', v]" and g = lrem_answer])
  have "Itoa 1 = ''1''" by code_simp
  then show "andThen (request srv [''LREM'', ProcessingQueueName q, ''1'', v]) (\<lambda>y u. (lrem_answer y, u)) w = (x, w')"
    using assms(3) by (auto simp: AckReserved_def reservation_def lrem_def lrem_answer_def replied
        split: prod.splits sum.splits reply.splits if_splits)
  fix a t r
  assume "rs_exec srv [''LREM'', ProcessingQueueName q, ''1'', v] (ready, rw_data w) = (a, t, r)"
  from lrem [OF assms(2) this]
  show "t = ready \<and> (refused a \<and> contents r = contents (rw_data w) \<or>
      \<not> refused a \<and> lrem_answer (go_value a) = op_answer jc (OpAck q v) (contents (rw_data w)) \<and>
      contents r = op_effect jc (OpAck q v) (contents (rw_data w)))"
    by (auto simp: refused_iff lrem_answer_def)
qed (rule assms(1))

lemma depth_refined:
  assumes "steady w" "q \<in> list_keys" "run_op jc srv (OpDepth q) w = (x, w')"
  shows "steady w' \<and> refined jc (OpDepth q) (contents (rw_data w)) x (contents (rw_data w'))"
proof (rule one_command [where cmd = "[''LLEN'', q]" and
      g = "\<lambda>y. case y of RInt n \<Rightarrow> Inr (Count n) | _ \<Rightarrow> Inl unexpected_response"])
  show "andThen (request srv [''LLEN'', q]) (\<lambda>y u. (case y of RInt n \<Rightarrow> Inr (Count n)
      | _ \<Rightarrow> Inl unexpected_response, u)) w = (x, w')"
    using assms(3) by (auto simp: QueueDepth_def llen_def replied split: prod.splits sum.splits reply.splits)
  fix a t r
  assume "rs_exec srv [''LLEN'', q] (ready, rw_data w) = (a, t, r)"
  from llen [OF assms(2) this]
  show "t = ready \<and> (refused a \<and> contents r = contents (rw_data w) \<or>
      \<not> refused a \<and> (case go_value a of RInt n \<Rightarrow> Inr (Count n) | _ \<Rightarrow> Inl unexpected_response)
         = op_answer jc (OpDepth q) (contents (rw_data w)) \<and>
      contents r = op_effect jc (OpDepth q) (contents (rw_data w)))"
    by (auto simp: refused_iff)
qed (rule assms(1))

text \<open>The transaction: every command before the last leaves the lists as they are.\<close>

definition in_session :: "'t \<Rightarrow> ('t, 'r, 'x) redis_world_scheme \<Rightarrow> bool" where
  "in_session t w = (idle w \<and> rw_session w = t \<and> rq_password w = password \<and> rq_db w = db)"

lemma in_session_ready: "in_session ready w \<Longrightarrow> steady w"
  by (simp add: in_session_def settled_def)

lemma tx_step:
  assumes "in_session s w" "exchange srv cmd w = (x, w')"
    and cmd: "\<And>a t r. rs_exec srv cmd (s, rw_data w) = (a, t, r) \<Longrightarrow> contents r = contents (rw_data w)
      \<and> (refused a \<or> (\<exists>l. a = Status l) \<and> t = s')"
  shows "contents (rw_data w') = contents (rw_data w) \<and> (failed x \<and> steady w' \<or> (\<exists>y. x = Inr y) \<and> in_session s' w')"
proof -
  have w: "idle w" "rw_session w = s" using assms(1) by (simp_all add: in_session_def)
  from w(1) assms(2) show ?thesis
  proof (cases rule: exchange_outcome)
    case lost
    then show ?thesis using assms(1) by (simp add: in_session_def settled_def same_client_def)
  next
    case (ran a t r)
    then have c: "contents r = contents (rw_data w) \<and> (refused a \<or> (\<exists>l. a = Status l) \<and> t = s')"
      using cmd w(2) by simp
    with ran assms(1) refused_read [of a] show ?thesis
      by (auto simp: in_session_def settled_def same_client_def)
  qed
qed

definition requeued ::
    "string \<Rightarrow> string \<Rightarrow> string \<Rightarrow> broker \<Rightarrow> err + unit \<Rightarrow> ('t, 'r, 'x) redis_world_scheme \<Rightarrow> bool" where
  "requeued k k' v B x w = (steady w \<and>
     (failed x \<and> (contents (rw_data w) = B \<or> contents (rw_data w) = returned k k' v B)
      \<or> x = (if v \<in> set (B k) then Inr () else Inl not_in_processing) \<and> contents (rw_data w) = returned k k' v B))"

lemmas queue_lrem = queue [where cmd = "[''LREM'', k, ''1'', v]" for k v, OF insertI1]

lemmas queue_lpush = queue [where cmd = "[''LPUSH'', k, v]" for k v, OF insertI2 [OF insertI1]]

lemma tx_chain:
  assumes "in_session s w" "andThen (exchange srv cmd) (\<lambda>_. m) w = (x, w')"
    and "\<And>a t r. rs_exec srv cmd (s, rw_data w) = (a, t, r) \<Longrightarrow> contents r = contents (rw_data w)
      \<and> (refused a \<or> (\<exists>l. a = Status l) \<and> t = s')"
    and "\<And>u. in_session s' u \<Longrightarrow> contents (rw_data u) = contents (rw_data w) \<Longrightarrow> m u = (x, w') \<Longrightarrow>
      requeued k k' v (contents (rw_data w)) x w'"
  shows "requeued k k' v (contents (rw_data w)) x w'"
proof -
  obtain y u where y: "exchange srv cmd w = (y, u)" by (cases "exchange srv cmd w")
  have s: "contents (rw_data u) = contents (rw_data w) \<and> (failed y \<and> steady u \<or> (\<exists>z. y = Inr z) \<and> in_session s' u)"
    by (rule tx_step [OF assms(1) y assms(3)])
  show ?thesis
  proof (cases y)
    case (Inl e)
    then show ?thesis using s assms(2) y
      by (auto simp: andThen_def handle_def fail_def failed_def requeued_def)
  next
    case (Inr z)
    with s assms(2) y have "in_session s' u" "contents (rw_data u) = contents (rw_data w)" "m u = (x, w')"
      by (simp_all add: andThen_def handle_def)
    then show ?thesis by (rule assms(4))
  qed
qed

lemma exec_step:
  assumes "in_session (queued [[''LREM'', k, ''1'', v], [''LPUSH'', k', v]]) w" "k \<in> list_keys" "k' \<in> list_keys"
    "andThen (exchange srv [''EXEC'']) requeue_result w = (x, w')"
  shows "requeued k k' v (contents (rw_data w)) x w'"
proof -
  have w: "idle w" "rw_session w = queued [[''LREM'', k, ''1'', v], [''LPUSH'', k', v]]"
    using assms(1) by (simp_all add: in_session_def)
  obtain y u where y: "exchange srv [''EXEC''] w = (y, u)" by (cases "exchange srv [''EXEC''] w")
  have u: "u = w'" "failed y \<Longrightarrow> failed x" using assms(4) y
    by (auto simp: replied requeue_result_def failed_def split: sum.splits reply.splits list.splits if_splits)
  from w(1) y show ?thesis
  proof (cases rule: exchange_outcome)
    case lost
    then show ?thesis unfolding requeued_def using u assms(1) by (simp add: in_session_def settled_def same_client_def)
  next
    case (ran a t r)
    note e = exec [OF assms(2,3) ran(2) [unfolded w(2)]]
    from ran(4) show ?thesis
    proof
      assume "failed y \<and> down u"
      then show ?thesis unfolding requeued_def using u e ran(1,3) assms(1)
        by (auto simp: in_session_def settled_def same_client_def)
    next
      assume a: "y = read_as a \<and> (\<exists>z. y = Inr z) \<and> idle u \<and> rw_session u = t"
      then obtain n where "a = Multi [Number (if v \<in> set (contents (rw_data w) k) then 1 else 0), Number n]"
        using e refused_read [of a] by auto
      then have "x = (if v \<in> set (contents (rw_data w) k) then Inr () else Inl not_in_processing)"
        using a assms(4) y by (auto simp: read_as_def replied requeue_result_def)
      then show ?thesis unfolding requeued_def using a e u ran(1,3) assms(1) refused_read [of a]
        by (auto simp: in_session_def settled_def same_client_def)
    qed
  qed
qed

lemma transaction:
  assumes "in_session ready w" "k \<in> list_keys" "k' \<in> list_keys"
    "andThen (exchange srv [''MULTI'']) (\<lambda>_. andThen (exchange srv [''LREM'', k, ''1'', v]) (\<lambda>_.
       andThen (exchange srv [''LPUSH'', k', v]) (\<lambda>_. andThen (exchange srv [''EXEC'']) requeue_result))) w = (x, w')"
  shows "requeued k k' v (contents (rw_data w)) x w'"
proof (rule tx_chain [OF assms(1,4), of "queued []"])
  fix u1
  assume 1: "in_session (queued []) u1" "contents (rw_data u1) = contents (rw_data w)"
    "andThen (exchange srv [''LREM'', k, ''1'', v]) (\<lambda>_.
       andThen (exchange srv [''LPUSH'', k', v]) (\<lambda>_. andThen (exchange srv [''EXEC'']) requeue_result)) u1 = (x, w')"
  show "requeued k k' v (contents (rw_data w)) x w'"
    unfolding 1(2) [symmetric]
  proof (rule tx_chain [OF 1(1,3), of "queued [[''LREM'', k, ''1'', v]]"])
    fix u2
    assume 2: "in_session (queued [[''LREM'', k, ''1'', v]]) u2" "contents (rw_data u2) = contents (rw_data u1)"
      "andThen (exchange srv [''LPUSH'', k', v]) (\<lambda>_. andThen (exchange srv [''EXEC'']) requeue_result) u2 = (x, w')"
    show "requeued k k' v (contents (rw_data u1)) x w'"
      unfolding 2(2) [symmetric]
    proof (rule tx_chain [OF 2(1,3), of "queued [[''LREM'', k, ''1'', v], [''LPUSH'', k', v]]"])
      fix u3
      assume 3: "in_session (queued [[''LREM'', k, ''1'', v], [''LPUSH'', k', v]]) u3"
        "contents (rw_data u3) = contents (rw_data u2)"
        "andThen (exchange srv [''EXEC'']) requeue_result u3 = (x, w')"
      from exec_step [OF 3(1) assms(2,3) 3(3)] show "requeued k k' v (contents (rw_data u2)) x w'"
        unfolding 3(2) .
    qed (use queue_lpush [of k' v "[[''LREM'', k, ''1'', v]]"] in simp)
  qed (use queue_lrem [of k v "[]"] in simp)
qed (use multi in simp)

lemma RequeueReserved_outcome:
  assumes "steady w" "q \<in> list_keys" "ProcessingQueueName q \<in> list_keys"
    "RequeueReserved srv (reservation q job v) w = (x, w')"
  shows "requeued (ProcessingQueueName q) q v (contents (rw_data w)) x w'"
proof -
  obtain x0 w0 where 0: "ensureConnLocked srv w = (x0, w0)" by (cases "ensureConnLocked srv w")
  note e0 = ensure_outcome [OF assms(1) 0]
  consider "failed x0" | "broken w0" "x0 = Inr ()" | "in_session ready w0" "x0 = Inr ()"
    using e0 by (auto simp: in_session_def settled_def down_def idle_def broken_def)
  then show ?thesis
  proof cases
    case 1
    then show ?thesis using assms(4) 0 e0
      by (auto simp: RequeueReserved_def andThen_def handle_def fail_def failed_def requeued_def)
  next
    case 2
    then show ?thesis using assms(4) 0 e0
      by (auto simp: RequeueReserved_def andThen_def handle_def fail_def exchange_def broken_write requeued_def)
  next
    case 3
    then have "andThen (exchange srv [''MULTI'']) (\<lambda>_. andThen (exchange srv [''LREM'', ProcessingQueueName q, ''1'', v]) (\<lambda>_.
       andThen (exchange srv [''LPUSH'', q, v]) (\<lambda>_. andThen (exchange srv [''EXEC'']) requeue_result))) w0 = (x, w')"
      using assms(4) 0 by (simp add: RequeueReserved_def reservation_def andThen_eq)
    from transaction [OF 3(1) assms(3,2) this] show ?thesis using e0 by simp
  qed
qed

lemma requeue_refined:
  assumes "steady w" "q \<in> list_keys" "ProcessingQueueName q \<in> list_keys" "run_op jc srv (OpRequeue q v) w = (x, w')"
  shows "steady w' \<and> refined jc (OpRequeue q v) (contents (rw_data w)) x (contents (rw_data w'))"
proof -
  obtain y u where y: "RequeueReserved srv (reservation q some_job v) w = (y, u)"
    by (cases "RequeueReserved srv (reservation q some_job v) w")
  have "u = w'" "x = (case y of Inl e \<Rightarrow> Inl e | Inr _ \<Rightarrow> Inr Done)"
    using assms(4) y by (auto simp: replied split: sum.splits)
  then show ?thesis using RequeueReserved_outcome [OF assms(1-3) y]
    by (auto simp: requeued_def refined_def failed_def split: if_splits)
qed

text \<open>Together: every operation refines the abstract one.\<close>

lemma op_refined:
  assumes "steady w" "op_queue op \<in> sources" "run_op jc srv op w = (x, w')"
  shows "steady w' \<and> refined jc op (contents (rw_data w)) x (contents (rw_data w'))"
proof -
  have "op_queue op \<in> list_keys" "ProcessingQueueName (op_queue op) \<in> list_keys"
    using assms(2) by (auto simp: list_keys_def)
  with assms(1,3) show ?thesis
    by (cases op) (use enqueue_refined poll_refined sweep_refined ack_refined requeue_refined depth_refined
        in \<open>simp_all del: run_op.simps\<close>)
qed

end

end
