(* ===== verification/Queue_Safety.thy ===== *)
theory Queue_Safety
  imports Queue_Spec
begin

text \<open>
  Many clients over one server: what the refinement of the single operations gives for the jobs,
  in every interleaving, and the recovery of a processing queue.
\<close>

subsection \<open>Copies of a payload\<close>

definition held :: "string \<Rightarrow> string \<Rightarrow> broker \<Rightarrow> nat" where
  "held q v B = count_list (B q) v + count_list (B (ProcessingQueueName q)) v"

lemma count_list_butlast: "l \<noteq> [] \<Longrightarrow> count_list (butlast l) v + (if last l = v then 1 else 0) = count_list l v"
  by (induction l rule: rev_induct) auto

lemma count_list_remove1 [simp]: "count_list (remove1 a l) v = count_list l v - (if a = v then 1 else 0)"
  by (induction l) (auto simp: count_list_0_iff Suc_diff_Suc)

lemma processing_apart [simp]: "ProcessingQueueName q \<notin> sources"
  using processing_not_source [of q] by (simp add: sources_def)

lemma source_apart: "q \<in> sources \<Longrightarrow> q' \<in> sources \<Longrightarrow> q' \<noteq> ProcessingQueueName q \<and> ProcessingQueueName q \<noteq> q'"
  by auto

lemma held_moved:
  assumes "q \<in> sources" "q' \<in> sources" "(a, b) \<in> {(q', ProcessingQueueName q'), (ProcessingQueueName q', q')}"
  shows "held q v (moved a b B) = held q v B"
proof (cases "B a = []")
  case False
  then show ?thesis using assms count_list_butlast [OF False, of v] source_apart [of q q']
    by (auto simp: held_def moved_def)
qed (simp add: moved_def)

fun enqueues :: "job_codec \<Rightarrow> string \<Rightarrow> string \<Rightarrow> queue_op \<Rightarrow> bool" where
  "enqueues jc q v (OpEnqueue q' job) = (q' = q \<and> jc_marshal jc job = Some v)"
| "enqueues jc q v _ = False"

fun acknowledges :: "string \<Rightarrow> string \<Rightarrow> queue_op \<Rightarrow> bool" where
  "acknowledges q v (OpAck q' v') = (q' = q \<and> v' = v)"
| "acknowledges q v _ = False"

fun requeues :: "string \<Rightarrow> string \<Rightarrow> queue_op \<Rightarrow> bool" where
  "requeues q v (OpRequeue q' v') = (q' = q \<and> v' = v)"
| "requeues q v _ = False"

lemma held_effect:
  assumes "q \<in> sources" "op_queue op \<in> sources"
  shows "held q v B + of_bool (enqueues jc q v op) \<le> held q v (op_effect jc op B) + of_bool (acknowledges q v op)"
    and "held q v (op_effect jc op B) \<le> held q v B + of_bool (enqueues jc q v op) + of_bool (requeues q v op)"
  using assms source_apart [OF assms] held_moved [OF assms]
  by (cases op; auto simp: held_def pushed_def removed_def returned_def split: option.splits)+

subsection \<open>The fleet\<close>

type_synonym ('t, 'r, 'x) clients = "nat \<Rightarrow> ('t, 'r, 'x) redis_world_scheme"

definition serve :: "job_codec \<Rightarrow> ('t, 'r) redis_server \<Rightarrow> nat \<Rightarrow> queue_op \<Rightarrow> ('t, 'r, 'x) clients \<times> 'r \<Rightarrow>
    (err + answer) \<times> ('t, 'r, 'x) clients \<times> 'r" where
  "serve jc srv i op s = (case run_op jc srv op (fst s i\<lparr>rw_data := snd s\<rparr>) of
     (x, w) \<Rightarrow> (x, (fst s)(i := w), rw_data w))"

fun serve_all :: "job_codec \<Rightarrow> ('t, 'r) redis_server \<Rightarrow> (nat \<times> queue_op) list \<Rightarrow> ('t, 'r, 'x) clients \<times> 'r \<Rightarrow>
    (queue_op \<times> (err + answer)) list \<times> ('t, 'r, 'x) clients \<times> 'r" where
  "serve_all jc srv [] s = ([], s)"
| "serve_all jc srv ((i, op) # ops) s = (case serve jc srv i op s of (x, s') \<Rightarrow>
     case serve_all jc srv ops s' of (log, s'') \<Rightarrow> ((op, x) # log, s''))"

text \<open>The operations of a log, and those that reported success.\<close>

definition number :: "('a \<Rightarrow> bool) \<Rightarrow> 'a list \<Rightarrow> nat" where
  "number P l = length (filter P l)"

lemma number_simps [simp]: "number P [] = 0" "number P (x # l) = of_bool (P x) + number P l"
  by (simp_all add: number_def)

definition confirmed :: "job_codec \<Rightarrow> string \<Rightarrow> string \<Rightarrow> queue_op \<times> (err + answer) \<Rightarrow> bool" where
  "confirmed jc q v e = (enqueues jc q v (fst e) \<and> snd e = Inr Done)"

context redis_lists
begin

lemma serve_refined:
  assumes "\<forall>i. steady (fst s i)" "op_queue op \<in> sources" "serve jc srv i op s = (x, s')"
  shows "(\<forall>i. steady (fst s' i)) \<and> refined jc op (contents (snd s)) x (contents (snd s'))"
proof -
  obtain w where w: "run_op jc srv op (fst s i\<lparr>rw_data := snd s\<rparr>) = (x, w)" "s' = ((fst s)(i := w), rw_data w)"
    using assms(3) by (auto simp: serve_def split: prod.splits)
  have "steady (fst s i\<lparr>rw_data := snd s\<rparr>)" using assms(1) by simp
  from op_refined [OF this assms(2) w(1)] w(2) assms(1) show ?thesis by simp
qed

lemma serve_counts:
  assumes "\<forall>i. steady (fst s i)" "op_queue op \<in> sources" "q \<in> sources" "serve jc srv i op s = (x, s')"
  shows "held q v (contents (snd s)) + of_bool (confirmed jc q v (op, x))
      \<le> held q v (contents (snd s')) + of_bool (acknowledges q v op)"
    and "held q v (contents (snd s')) \<le> held q v (contents (snd s)) + of_bool (enqueues jc q v op) + of_bool (requeues q v op)"
proof -
  have r: "refined jc op (contents (snd s)) x (contents (snd s'))" using serve_refined assms by blast
  note e = held_effect [OF assms(3,2), where v = v and B = "contents (snd s)" and jc = jc]
  from r e show "held q v (contents (snd s')) \<le> held q v (contents (snd s)) + of_bool (enqueues jc q v op) + of_bool (requeues q v op)"
    by (auto simp: refined_def)
  from r e(1) show "held q v (contents (snd s)) + of_bool (confirmed jc q v (op, x))
      \<le> held q v (contents (snd s')) + of_bool (acknowledges q v op)"
    by (auto simp: refined_def confirmed_def split: if_splits)
qed

lemma serve_all_counts:
  "\<forall>i. steady (fst s i) \<Longrightarrow> \<forall>(i, op) \<in> set ops. op_queue op \<in> sources \<Longrightarrow> q \<in> sources \<Longrightarrow>
   serve_all jc srv ops s = (log, s') \<Longrightarrow>
     held q v (contents (snd s)) + number (confirmed jc q v) log
       \<le> held q v (contents (snd s')) + number (\<lambda>e. acknowledges q v (fst e)) log
   \<and> held q v (contents (snd s'))
       \<le> held q v (contents (snd s)) + number (\<lambda>e. enqueues jc q v (fst e)) log + number (\<lambda>e. requeues q v (fst e)) log"
proof (induction ops arbitrary: s log)
  case (Cons iop ops)
  obtain i op where iop: "iop = (i, op)" by (cases iop)
  obtain x s1 where 1: "serve jc srv i op s = (x, s1)" by (cases "serve jc srv i op s")
  obtain log1 where 2: "serve_all jc srv ops s1 = (log1, s')" "log = (op, x) # log1"
    using Cons.prems(4) iop 1 by (auto split: prod.splits)
  have op: "op_queue op \<in> sources" using Cons.prems(2) iop by simp
  have "\<forall>i. steady (fst s1 i)" using serve_refined [OF Cons.prems(1) op 1] by blast
  from Cons.IH [OF this _ Cons.prems(3) 2(1)] Cons.prems(2)
    serve_counts [OF Cons.prems(1) op Cons.prems(3) 1, of v] show ?case
    by (simp add: 2(2))
qed simp

end

lemma AckReserved_reservation: "AckReserved srv (reservation q job v) = AckReserved srv (reservation q some_job v)"
  by (simp add: AckReserved_def reservation_def)

subsection \<open>Recovery\<close>

lemma moved_empty [simp]: "B a = [] \<Longrightarrow> moved a b B = B"
  by (simp add: moved_def)

text \<open>After \<open>j\<close> pops the last \<open>j\<close> jobs in processing are, in order, before the jobs that wait.\<close>

definition drained :: "nat \<Rightarrow> string \<Rightarrow> string \<Rightarrow> broker \<Rightarrow> broker" where
  "drained j p q B = B(p := take (length (B p) - j) (B p), q := drop (length (B p) - j) (B p) @ B q)"

lemma drained_0 [simp]: "drained 0 p q B = B"
  by (simp add: drained_def)

lemma drained_moved:
  assumes "p \<noteq> q" "B p \<noteq> []" "j < length (B p)"
  shows "drained j p q (moved p q B) = drained (Suc j) p q B"
proof -
  let ?l = "B p"
  have "length ?l - Suc j = length (butlast ?l) - j" by simp
  moreover have "take (length ?l - Suc j) (butlast ?l) = take (length ?l - Suc j) ?l"
    by (simp add: butlast_conv_take min_def)
  moreover have "drop (length ?l - Suc j) (butlast ?l) @ [last ?l] = drop (length ?l - Suc j) ?l"
    using assms(2,3)
    by (metis append_butlast_last_id diff_le_self drop_append length_butlast diff_Suc_eq_diff_pred diff_is_0_eq drop0)
  ultimately show ?thesis using assms by (simp add: drained_def moved_def fun_eq_iff)
qed

context redis_lists
begin

lemma sweep_outcome:
  assumes "steady w" "q \<in> sources" "rpoplpush srv (ProcessingQueueName q) q w = (x, w')"
  defines "p \<equiv> ProcessingQueueName q"
  shows "steady w' \<and> (contents (rw_data w) p = [] \<and> x = Inl errRedisNil \<and> contents (rw_data w') = contents (rw_data w)
    \<or> contents (rw_data w) p \<noteq> [] \<and> (\<exists>v. x = Inr v) \<and> contents (rw_data w') = moved p q (contents (rw_data w))
    \<or> (\<exists>e. x = Inl e) \<and> failed x \<and> (contents (rw_data w') = contents (rw_data w)
        \<or> contents (rw_data w') = moved p q (contents (rw_data w))))"
proof -
  have "run_op jc srv (OpSweep q) w = (case x of Inl e \<Rightarrow> Inl e | Inr v \<Rightarrow> Inr (Got v), w')" for jc
    using assms(3) by (simp add: andThen_def handle_def fail_def return_def split: sum.split)
  from op_refined [OF assms(1) _ this] assms(2) show ?thesis
    by (cases x) (auto simp: refined_def taken_def p_def failed_def split: if_splits)
qed

lemma recover_loop_outcome:
  assumes "steady w" "q \<in> sources" "recover_loop n srv (ProcessingQueueName q) q k w = (x, w')"
  defines "p \<equiv> ProcessingQueueName q" and "B \<equiv> contents (rw_data w)"
  shows "\<exists>m j e. x = Inr (k + int m, e) \<and> steady w' \<and> contents (rw_data w') = drained j p q B \<and> j \<le> length (B p)
    \<and> (e = None \<longrightarrow> m = length (B p) \<and> j = m)
    \<and> (\<forall>e'. e = Some e' \<longrightarrow> (j = m \<or> j = Suc m) \<and> (failed (Inl e' :: err + unit) \<or> e' = out_of_fuel \<and> n \<le> length (B p)))"
  using assms(1,3) unfolding p_def B_def
proof (induction n arbitrary: w k)
  case 0
  then show ?case by (intro exI [of _ "0 :: nat"]) (auto simp: return_def)
next
  case (Suc n)
  let ?p = "ProcessingQueueName q" and ?B = "contents (rw_data w)"
  obtain y u where y: "rpoplpush srv ?p q w = (y, u)" by (cases "rpoplpush srv ?p q w")
  have run: "(x, w') = (case y of Inl e \<Rightarrow> (Inr (k, if e = errRedisNil then None else Some e), u)
      | Inr _ \<Rightarrow> recover_loop n srv ?p q (k + 1) u)"
    using Suc.prems(2) y by (auto simp: handle_def return_def split: sum.splits)
  note s = sweep_outcome [OF Suc.prems(1) assms(2) y]
  have none: ?case if "?B ?p = []" "y = Inl errRedisNil" "contents (rw_data u) = ?B"
    using run that s by (intro exI [of _ "0 :: nat"] exI [of _ "None :: err option"]) auto
  have failure: ?case if e: "y = Inl e" "failed y" "contents (rw_data u) = ?B \<or> contents (rw_data u) = moved ?p q ?B" for e
  proof (cases "contents (rw_data u) = ?B")
    case True
    then show ?thesis using run that s
      by (intro exI [of _ "0 :: nat"] exI [of _ "Some e"]) (auto simp: failed_def)
  next
    case False
    then have "?B ?p \<noteq> []" "contents (rw_data u) = moved ?p q ?B" using e by auto
    then have "contents (rw_data u) = drained 1 ?p q ?B"
      using drained_moved [of ?p q ?B 0] by simp
    then show ?thesis using run that s \<open>?B ?p \<noteq> []\<close>
      by (intro exI [of _ "0 :: nat"] exI [of _ "1 :: nat"] exI [of _ "Some e"]) (auto simp: failed_def Suc_le_eq)
  qed
  have another: ?case if v: "y = Inr v" "?B ?p \<noteq> []" "contents (rw_data u) = moved ?p q ?B" for v
  proof -
    have "steady u" using s by blast
    moreover have "recover_loop n srv ?p q (k + 1) u = (x, w')" using run v by simp
    ultimately obtain m j e where i: "x = Inr (k + 1 + int m, e)" "steady w'"
      "contents (rw_data w') = drained j ?p q (moved ?p q ?B)" "j \<le> length (moved ?p q ?B ?p)"
      "e = None \<longrightarrow> m = length (moved ?p q ?B ?p) \<and> j = m"
      "\<forall>e'. e = Some e' \<longrightarrow> (j = m \<or> j = Suc m) \<and> (failed (Inl e' :: err + unit) \<or> e' = out_of_fuel \<and> n \<le> length (moved ?p q ?B ?p))"
      using Suc.IH [of u "k + 1"] v(3) by auto
    have l: "length (moved ?p q ?B ?p) = length (?B ?p) - 1" using v(2) by (simp add: moved_def)
    have "j < length (?B ?p)" using i(4) l v(2) by (cases "?B ?p") auto
    then have "contents (rw_data w') = drained (Suc j) ?p q ?B" using i(3) drained_moved [of ?p q ?B j] v(2) by simp
    moreover have "e = None \<longrightarrow> Suc m = length (?B ?p) \<and> Suc j = Suc m"
      using i(5) v(2) by (auto simp: l)
    moreover have "\<forall>e'. e = Some e' \<longrightarrow> (Suc j = Suc m \<or> Suc j = Suc (Suc m))
        \<and> (failed (Inl e' :: err + unit) \<or> e' = out_of_fuel \<and> Suc n \<le> length (?B ?p))"
    proof (intro allI impI)
      fix e' assume "e = Some e'"
      then have "j = m \<or> j = Suc m" "failed (Inl e' :: err + unit) \<or> e' = out_of_fuel \<and> n \<le> length (?B ?p) - 1"
        using i(6) unfolding l by blast+
      moreover have "n \<le> length (?B ?p) - 1 \<Longrightarrow> Suc n \<le> length (?B ?p)"
        using \<open>j < length (?B ?p)\<close> by linarith
      ultimately show "(Suc j = Suc m \<or> Suc j = Suc (Suc m))
          \<and> (failed (Inl e' :: err + unit) \<or> e' = out_of_fuel \<and> Suc n \<le> length (?B ?p))" by blast
    qed
    moreover have "x = Inr (k + int (Suc m), e)" unfolding i(1) by simp
    moreover have "Suc j \<le> length (?B ?p)" by (rule Suc_leI) fact
    ultimately show ?thesis using i(2)
      by (intro exI [of _ "Suc m"] exI [of _ "Suc j"] exI [of _ e] conjI)
  qed
  from s [THEN conjunct2] show ?case
  proof (elim disjE conjE exE)
    assume "?B ?p = []" "y = Inl errRedisNil" "contents (rw_data u) = ?B"
    then show ?case by (rule none)
  next
    fix v assume "?B ?p \<noteq> []" "y = Inr v" "contents (rw_data u) = moved ?p q ?B"
    then show ?case by (intro another)
  next
    fix e assume "y = Inl e" "failed y" "contents (rw_data u) = ?B"
    then show ?case by (intro failure disjI1)
  next
    fix e assume "y = Inl e" "failed y" "contents (rw_data u) = moved ?p q ?B"
    then show ?case by (intro failure disjI2)
  qed
qed

lemma poll_outcome:
  assumes "steady w" "q \<in> sources" "brpoplpush srv q (ProcessingQueueName q) n w = (x, w')"
  defines "p \<equiv> ProcessingQueueName q"
  shows "steady w' \<and> (contents (rw_data w) q = [] \<and> x = Inl errRedisNil \<and> contents (rw_data w') = contents (rw_data w)
    \<or> contents (rw_data w) q \<noteq> [] \<and> x = Inr (last (contents (rw_data w) q)) \<and> contents (rw_data w') = moved q p (contents (rw_data w))
    \<or> failed x \<and> (contents (rw_data w') = contents (rw_data w)
        \<or> contents (rw_data w') = moved q p (contents (rw_data w))))"
proof -
  have "run_op jc srv (OpPoll q n) w = (case x of Inl e \<Rightarrow> Inl e | Inr v \<Rightarrow> Inr (Got v), w')" for jc
    using assms(3) by (simp add: andThen_def handle_def fail_def return_def split: sum.split)
  from op_refined [OF assms(1) _ this] assms(2) show ?thesis
    by (cases x) (auto simp: refined_def taken_def p_def failed_def split: if_splits)
qed

lemma reserve_outcome:
  assumes "steady w" "q \<in> sources" "reserve_loop n jc srv q (ProcessingQueueName q) t w = (x, w')"
  defines "p \<equiv> ProcessingQueueName q" and "B \<equiv> contents (rw_data w)"
  shows "steady w' \<and>
    (B q \<noteq> [] \<and> x = (case jc_unmarshal jc (last (B q)) of None \<Rightarrow> Inl JsonError
        | Some job \<Rightarrow> Inr (reservation q job (last (B q)))) \<and> contents (rw_data w') = moved q p B
    \<or> (n = 0 \<or> B q = []) \<and> x = Inl context_canceled \<and> contents (rw_data w') = B
    \<or> failed x \<and> (contents (rw_data w') = B \<or> contents (rw_data w') = moved q p B))"
  using assms(1,3) unfolding p_def B_def
proof (induction n arbitrary: w)
  case (Suc n)
  obtain y u where y: "brpoplpush srv q (ProcessingQueueName q) t w = (y, u)"
    by (cases "brpoplpush srv q (ProcessingQueueName q) t w")
  note s = poll_outcome [OF Suc.prems(1) assms(2) y]
  show ?case
  proof (cases y)
    case (Inl e)
    then show ?thesis
      using s y Suc.prems(2) Suc.IH [of u] by (cases "e = errRedisNil") (auto simp: handle_def fail_def failed_def)
  next
    case (Inr v)
    then show ?thesis
      using s y Suc.prems(2) by (auto simp: handle_def fail_def return_def reservation_def split: option.splits)
  qed
qed (auto simp: fail_def)

lemma enqueue_outcome:
  assumes "steady w" "q \<in> sources" "enqueue jc srv q job w = (x, w')"
  shows "steady w' \<and> (x = Inr () \<longrightarrow> (\<exists>v. jc_marshal jc job = Some v \<and> contents (rw_data w') = pushed q v (contents (rw_data w))))"
proof -
  have "run_op jc srv (OpEnqueue q job) w = (case x of Inl e \<Rightarrow> Inl e | Inr _ \<Rightarrow> Inr Done, w')"
    using assms(3) by (simp add: andThen_def handle_def fail_def return_def split: sum.split)
  from op_refined [OF assms(1) _ this] assms(2) show ?thesis
    by (auto simp: refined_def failed_def split: sum.splits option.splits if_splits)
qed

lemma AckReserved_outcome:
  assumes "steady w" "q \<in> sources" "AckReserved srv (reservation q job v) w = (x, w')"
  shows "steady w' \<and> (x = Inr () \<longrightarrow> v \<in> set (contents (rw_data w) (ProcessingQueueName q))
      \<and> contents (rw_data w') = removed (ProcessingQueueName q) v (contents (rw_data w)))
    \<and> (contents (rw_data w') = contents (rw_data w)
       \<or> contents (rw_data w') = removed (ProcessingQueueName q) v (contents (rw_data w)))"
proof -
  have "run_op jc srv (OpAck q v) w = (case x of Inl e \<Rightarrow> Inl e | Inr _ \<Rightarrow> Inr Done, w')" for jc
    using assms(3) by (simp add: andThen_def handle_def fail_def return_def AckReserved_reservation [of _ _ job] split: sum.split)
  from op_refined [OF assms(1) _ this] assms(2) show ?thesis
    by (cases x) (auto simp: refined_def failed_def split: if_splits)
qed


text \<open>What the operations do to the copies of a payload in a queue.\<close>

lemma op_counts:
  assumes "steady w" "op_queue op \<in> sources" "q \<in> sources" "run_op jc srv op w = (x, w')"
  shows "steady w' \<and> held q v (contents (rw_data w)) \<le> held q v (contents (rw_data w')) + of_bool (acknowledges q v op)"
  using op_refined [OF assms(1,2,4)] held_effect(1) [OF assms(3,2), where v = v and B = "contents (rw_data w)" and jc = jc]
  by (auto simp: refined_def)

lemma enqueue_counts:
  assumes "steady w" "t \<in> sources" "q \<in> sources" "enqueue jc srv t job w = (x, w')"
  shows "steady w' \<and> held q v (contents (rw_data w)) \<le> held q v (contents (rw_data w'))"
proof -
  have "run_op jc srv (OpEnqueue t job) w = (case x of Inl e \<Rightarrow> Inl e | Inr _ \<Rightarrow> Inr Done, w')"
    using assms(4) by (simp add: andThen_def handle_def fail_def return_def split: sum.split)
  from op_counts [OF assms(1) _ assms(3) this, of v] assms(2) show ?thesis by simp
qed

lemma ack_counts:
  assumes "steady w" "t \<in> sources" "q \<in> sources" "AckReserved srv (reservation t job p) w = (x, w')"
  shows "steady w' \<and> held q v (contents (rw_data w)) \<le> held q v (contents (rw_data w')) + of_bool (q = t \<and> v = p)"
proof -
  have "run_op jc srv (OpAck t p) w = (case x of Inl e \<Rightarrow> Inl e | Inr _ \<Rightarrow> Inr Done, w')" for jc
    using assms(4) by (simp add: andThen_def handle_def fail_def return_def AckReserved_reservation [of _ _ job] split: sum.split)
  from op_counts [OF assms(1) _ assms(3) this, of v] assms(2) show ?thesis by (auto simp: eq_commute)
qed

lemma requeue_counts:
  assumes "steady w" "t \<in> sources" "q \<in> sources" "RequeueReserved srv (reservation t job p) w = (x, w')"
  shows "steady w' \<and> held q v (contents (rw_data w)) \<le> held q v (contents (rw_data w'))"
proof -
  have "RequeueReserved srv (reservation t some_job p) w = (x, w')"
    using assms(4) by (simp add: RequeueReserved_def reservation_def)
  then have "run_op jc srv (OpRequeue t p) w = (case x of Inl e \<Rightarrow> Inl e | Inr _ \<Rightarrow> Inr Done, w')" for jc
    by (simp add: andThen_def handle_def fail_def return_def split: sum.split)
  from op_counts [OF assms(1) _ assms(3) this, of v] assms(2) show ?thesis by simp
qed

lemma reserve_counts:
  assumes "steady w" "t \<in> sources" "q \<in> sources" "reserve_loop n jc srv t (ProcessingQueueName t) secs w = (x, w')"
  shows "steady w' \<and> held q v (contents (rw_data w')) = held q v (contents (rw_data w))
    \<and> (\<forall>r. x = Inr r \<longrightarrow> (\<exists>p. r = reservation t (rsv_Job r) p \<and> rsv_payload r = p
        \<and> p \<in> set (contents (rw_data w') (ProcessingQueueName t))))"
proof -
  have "held q v (moved t (ProcessingQueueName t) (contents (rw_data w))) = held q v (contents (rw_data w))"
    by (rule held_moved) (use assms(2,3) in auto)
  then show ?thesis using reserve_outcome [OF assms(1,2,4)] not_own_processing [of t, symmetric]
    by (auto simp: moved_def reservation_def failed_def split: option.splits)
qed

end

end
