(* ===== verification/Queue_Rates.thy ===== *)
theory Queue_Rates
  imports Queue_Spec
begin

text \<open>
  The rate limiter over the documented counters of Redis: one counter for each tenant, counted up
  by every request and deleted when its time to live ends.
\<close>

lemma rate_key_inj [simp]: "rate_key t = rate_key t' \<longleftrightarrow> t = t'"
  by (simp add: rate_key_def)

text \<open>What is answered once the request is counted.\<close>

definition decided ::
    "('t, 'r) redis_server \<Rightarrow> string \<Rightarrow> int \<Rightarrow> duration \<Rightarrow> int \<Rightarrow> ('t, 'r, 'x, bool \<times> duration) qm" where
  "decided srv k limit window n = (if n \<le> limit then return (True, 0)
     else handle (ttl srv k) (\<lambda>_. return (False, window))
       (\<lambda>left. return (False, if left \<le> 0 then window else left)))"

lemma AllowTenant_decided:
  "0 < limit \<Longrightarrow> tenantID \<noteq> [] \<Longrightarrow> AllowTenant srv tenantID limit window =
     andThen (incr srv (rate_key tenantID)) (\<lambda>count.
       andThen (if count = 1 then expire srv (rate_key tenantID) window else return ())
         (\<lambda>_. decided srv (rate_key tenantID) limit window count))"
  by (simp add: AllowTenant_def decided_def)

locale redis_counters = redis_login srv authed ready password db
  for srv :: "('t, 'r) redis_server" and authed ready :: 't and password :: string and db :: int +
  fixes counter :: "'r \<Rightarrow> string \<Rightarrow> int"
    and expiring :: "'r \<Rightarrow> string \<Rightarrow> bool"
  assumes incr: "rs_exec srv [''INCR'', k] (ready, r) = (a, t, r') \<Longrightarrow> t = ready \<and> expiring r' = expiring r
      \<and> (refused a \<and> counter r' = counter r
         \<or> a = Number (counter r k + 1) \<and> counter r' = (counter r)(k := counter r k + 1))"
    and expire: "rs_exec srv [''EXPIRE'', k, n] (ready, r) = (a, t, r') \<Longrightarrow> t = ready \<and> counter r' = counter r
      \<and> (refused a \<and> expiring r' = expiring r
         \<or> (\<exists>m. a = Number m) \<and> expiring r' = (if counter r k = 0 then expiring r else (expiring r)(k := True)))"
    and ttl: "rs_exec srv [''TTL'', k] (ready, r) = (a, t, r') \<Longrightarrow>
      t = ready \<and> counter r' = counter r \<and> expiring r' = expiring r \<and> (refused a \<or> (\<exists>m. a = Number m))"
begin

abbreviation steady :: "('t, 'r, 'x) redis_world_scheme \<Rightarrow> bool" where
  "steady \<equiv> settled ready password db"

lemma incr_outcome:
  assumes "steady w" "Queue_Client.incr srv k w = (x, w')"
  shows "steady w' \<and> expiring (rw_data w') = expiring (rw_data w)
    \<and> (let c = counter (rw_data w); c' = c(k := c k + 1) in
       (\<exists>e. x = Inl e) \<and> (counter (rw_data w') = c \<or> counter (rw_data w') = c')
       \<or> x = Inr (c k + 1) \<and> counter (rw_data w') = c')"
proof -
  obtain y u where y: "request srv [''INCR'', k] w = (y, u)" by (cases "request srv [''INCR'', k] w")
  have x: "w' = u" "x = (case y of Inl e \<Rightarrow> Inl e | Inr v \<Rightarrow> (case v of RInt n \<Rightarrow> Inr n | _ \<Rightarrow> Inl unexpected_response))"
    using assms(2) y by (auto simp: Queue_Client.incr_def replied split: sum.splits reply.splits)
  from assms(1) y show ?thesis
  proof (cases rule: request_outcome)
    case lost
    then show ?thesis using x by (auto simp: failed_def)
  next
    case (ran a t r)
    from incr [OF ran(1)] ran(2,3) x refused_read [of a] show ?thesis
      by (auto simp: Let_def failed_def read_as_def)
  qed
qed

lemma expire_outcome:
  assumes "steady w" "Queue_Client.expire srv k n w = (x, w')"
  defines "e \<equiv> expiring (rw_data w)"
  shows "steady w' \<and> counter (rw_data w') = counter (rw_data w)
    \<and> (let e' = (if counter (rw_data w) k = 0 then e else e(k := True)) in
       ((\<exists>e. x = Inl e) \<and> expiring (rw_data w') = e) \<or> expiring (rw_data w') = e')"
proof -
  let ?cmd = "[''EXPIRE'', k, Itoa (expire_seconds n)]"
  obtain y u where y: "request srv ?cmd w = (y, u)" by (cases "request srv ?cmd w")
  have x: "w' = u" "x = (case y of Inl e \<Rightarrow> Inl e | Inr v \<Rightarrow> Inr ())"
    using assms(2) y by (auto simp: Queue_Client.expire_def replied split: sum.splits)
  from assms(1) y show ?thesis
  proof (cases rule: request_outcome)
    case lost
    then show ?thesis using x by (auto simp: failed_def e_def)
  next
    case (ran a t r)
    from expire [OF ran(1)] ran(2,3) x refused_read [of a] show ?thesis
      by (auto simp: Let_def failed_def read_as_def e_def)
  qed
qed

lemma ttl_outcome:
  assumes "steady w" "Queue_Client.ttl srv k w = (x, w')"
  shows "steady w' \<and> counter (rw_data w') = counter (rw_data w) \<and> expiring (rw_data w') = expiring (rw_data w)"
proof -
  obtain y u where y: "request srv [''TTL'', k] w = (y, u)" by (cases "request srv [''TTL'', k] w")
  have x: "w' = u" using assms(2) y by (auto simp: Queue_Client.ttl_def replied split: sum.splits reply.splits)
  from assms(1) y show ?thesis
  proof (cases rule: request_outcome)
    case (ran a t r)
    from ttl [OF ran(1)] ran(2,3) x show ?thesis by auto
  qed (use x in simp)
qed

lemma decided_outcome:
  assumes "steady w" "decided srv k limit window n w = (x, w')"
  shows "steady w' \<and> counter (rw_data w') = counter (rw_data w) \<and> expiring (rw_data w') = expiring (rw_data w)
    \<and> (\<exists>ok d. x = Inr (ok, d) \<and> ok = (n \<le> limit))"
  using assms ttl_outcome [of w k]
  by (cases "Queue_Client.ttl srv k w") (auto simp: decided_def return_def handle_def split: if_splits sum.splits)

text \<open>One request of a tenant: what it may do to the counter, and when it is admitted.\<close>

lemma AllowTenant_outcome:
  assumes "steady w" "0 < limit" "tenantID \<noteq> []" "AllowTenant srv tenantID limit window w = (x, w')"
  defines "k \<equiv> rate_key tenantID" and "c \<equiv> counter (rw_data w)" and "e \<equiv> expiring (rw_data w)"
  shows "steady w' \<and> (counter (rw_data w') = c \<and> (\<exists>err. x = Inl err) \<or> counter (rw_data w') = c(k := c k + 1))
    \<and> (expiring (rw_data w') = e \<or> c k = 0 \<and> expiring (rw_data w') = e(k := True))
    \<and> (c k = 0 \<and> (\<exists>v. x = Inr v) \<longrightarrow> expiring (rw_data w') = e(k := True))
    \<and> (\<forall>ok d. x = Inr (ok, d) \<longrightarrow> ok = (c k < limit))"
proof -
  obtain y u where y: "Queue_Client.incr srv k w = (y, u)" by (cases "Queue_Client.incr srv k w")
  note i = incr_outcome [OF assms(1) y]
  show ?thesis
  proof (cases y)
    case (Inl err)
    then show ?thesis using i assms y
      by (auto simp: AllowTenant_def andThen_def handle_def fail_def Let_def)
  next
    case (Inr n)
    then have n: "n = c k + 1" "counter (rw_data u) = c(k := c k + 1)" "steady u" "expiring (rw_data u) = e"
      using i by (auto simp: Let_def c_def e_def)
    have run: "(x, w') = andThen (if n = 1 then Queue_Client.expire srv k window else return ()) (\<lambda>_. decided srv k limit window n) u"
      using assms(2,3,4) y [unfolded Inr] unfolding k_def
      by (simp add: AllowTenant_decided andThen_eq(2) split del: if_split)
    show ?thesis
    proof (cases "n = 1")
      case True
      obtain z v where z: "Queue_Client.expire srv k window u = (z, v)" by (cases "Queue_Client.expire srv k window u")
      note ex = expire_outcome [OF n(3) z]
      show ?thesis
      proof (cases z)
        case (Inl err)
        then show ?thesis using run True z ex n by (auto simp: andThen_def handle_def fail_def Let_def)
      next
        case (Inr u')
        then have "decided srv k limit window n v = (x, w')" using run True z by (simp add: andThen_def handle_def)
        from decided_outcome [OF _ this] ex n True Inr show ?thesis by (auto simp: Let_def)
      qed
    next
      case False
      then have "decided srv k limit window n u = (x, w')" using run by (simp add: andThen_def handle_def return_def)
      from decided_outcome [OF n(3) this] n False show ?thesis by auto
    qed
  qed
qed

end

subsection \<open>Many requests\<close>

text \<open>Time passes: of the keys in \<open>K\<close>, some that have a time to live are deleted.\<close>

definition lapsed :: "('r \<Rightarrow> string \<Rightarrow> int) \<Rightarrow> ('r \<Rightarrow> string \<Rightarrow> bool) \<Rightarrow> string set \<Rightarrow> 'r \<Rightarrow> 'r \<Rightarrow> bool" where
  "lapsed counter expiring K r r' = (\<forall>k. counter r' k = counter r k \<and> expiring r' k = expiring r k
     \<or> k \<in> K \<and> expiring r k \<and> counter r' k = 0 \<and> \<not> expiring r' k)"

text \<open>
  The runs of a fleet of limiters over one server: requests of any tenant at any client, and the
  passing of time, in any order.  The log has the tenants with what they were answered.
\<close>

type_synonym rate_log = "(string \<times> (err + bool \<times> duration)) list"

inductive rate_run :: "('t, 'r) redis_server \<Rightarrow> int \<Rightarrow> duration \<Rightarrow> ('r \<Rightarrow> string \<Rightarrow> int) \<Rightarrow> ('r \<Rightarrow> string \<Rightarrow> bool) \<Rightarrow>
    string set \<Rightarrow> (nat \<Rightarrow> ('t, 'r, 'x) redis_world_scheme) \<times> 'r \<Rightarrow> rate_log \<Rightarrow>
    (nat \<Rightarrow> ('t, 'r, 'x) redis_world_scheme) \<times> 'r \<Rightarrow> bool"
  for srv limit window counter expiring K s where
  Start: "rate_run srv limit window counter expiring K s [] s"
| Request: "rate_run srv limit window counter expiring K s log (ws, r) \<Longrightarrow>
    AllowTenant srv tenantID limit window (ws i\<lparr>rw_data := r\<rparr>) = (x, w) \<Longrightarrow>
    rate_run srv limit window counter expiring K s (log @ [(tenantID, x)]) (ws(i := w), rw_data w)"
| Lapse: "rate_run srv limit window counter expiring K s log (ws, r) \<Longrightarrow> lapsed counter expiring K r r' \<Longrightarrow>
    rate_run srv limit window counter expiring K s log (ws, r')"

lemma rate_run_next:
  "rate_run srv limit window counter expiring K s log (ws, r) \<Longrightarrow> y = AllowTenant srv t limit window (ws i\<lparr>rw_data := r\<rparr>) \<Longrightarrow>
    rate_run srv limit window counter expiring K s (log @ [(t, fst y)]) (ws(i := snd y), rw_data (snd y))"
  by (rule rate_run.Request) simp_all

lemma rate_run_one:
  "y = AllowTenant srv t limit window (ws i\<lparr>rw_data := r\<rparr>) \<Longrightarrow>
    rate_run srv limit window counter expiring K (ws, r) [(t, fst y)] (ws(i := snd y), rw_data (snd y))"
  by (metis append_Nil rate_run.Start rate_run_next)

definition admitted :: "string \<Rightarrow> rate_log \<Rightarrow> nat" where
  "admitted tenantID log = length (filter (\<lambda>(t, x). t = tenantID \<and> (\<exists>d. x = Inr (True, d))) log)"

lemma admitted_simps [simp]:
  "admitted t [] = 0"
  "admitted t (log @ [(t', x)]) = admitted t log + (if t' = t \<and> (\<exists>d. x = Inr (True, d)) then 1 else 0)"
  by (simp_all add: admitted_def)

context redis_counters
begin

text \<open>As long as the counter of the tenant is not deleted, it counts every admission.\<close>

definition counted :: "string \<Rightarrow> int \<Rightarrow> int \<Rightarrow> rate_log \<Rightarrow> 'r \<Rightarrow> bool" where
  "counted t limit c0 log r = (int (admitted t log) + c0 \<le> counter r (rate_key t)
     \<and> (admitted t log = 0 \<or> int (admitted t log) + c0 \<le> limit))"

lemma counted_request:
  assumes "steady w" "0 < limit" "counted t limit c0 log (rw_data w)" "AllowTenant srv t' limit window w = (x, w')" "t \<noteq> []"
  shows "steady w' \<and> counted t limit c0 (log @ [(t', x)]) (rw_data w')"
proof (cases "t' = []")
  case True
  then show ?thesis using assms by (auto simp: AllowTenant_def return_def counted_def)
next
  case False
  note a = AllowTenant_outcome [OF assms(1,2) False assms(4)]
  from a have c: "counter (rw_data w') = counter (rw_data w) \<and> (\<exists>err. x = Inl err)
      \<or> counter (rw_data w') = (counter (rw_data w))(rate_key t' := counter (rw_data w) (rate_key t') + 1)"
    and ok: "x = Inr (ok, d) \<Longrightarrow> ok = (counter (rw_data w) (rate_key t') < limit)" and st: "steady w'" for ok d
    by blast+
  show ?thesis
  proof (cases "t' = t")
    case True
    show ?thesis
    proof (cases "\<exists>d. x = Inr (True, d)")
      case adm: True
      then obtain d where d: "x = Inr (True, d)" by blast
      then have "counter (rw_data w) (rate_key t) < limit"
        "counter (rw_data w') (rate_key t) = counter (rw_data w) (rate_key t) + 1"
        using ok [OF d] c True by simp_all
      moreover have "admitted t (log @ [(t', x)]) = Suc (admitted t log)" using adm True by simp
      ultimately show ?thesis using assms(3) st by (simp add: counted_def)
    next
      case False
      then have "admitted t (log @ [(t', x)]) = admitted t log" by simp
      moreover have "counter (rw_data w) (rate_key t) \<le> counter (rw_data w') (rate_key t)" using c True by auto
      ultimately show ?thesis using assms(3) st by (auto simp: counted_def)
    qed
  next
    case False
    then have "counter (rw_data w') (rate_key t) = counter (rw_data w) (rate_key t)" using c by auto
    then show ?thesis using False assms(3) st by (simp add: counted_def)
  qed
qed

lemma counted_run:
  assumes "rate_run srv limit window counter expiring K s log s'" "\<forall>i. steady (fst s i)" "0 < limit" "t \<noteq> []"
    "rate_key t \<notin> K"
  shows "(\<forall>i. steady (fst s' i)) \<and> counted t limit (counter (snd s) (rate_key t)) log (snd s')"
  using assms(1)
proof (induction rule: rate_run.induct)
  case Start
  then show ?case using assms(2) by (simp add: counted_def)
next
  case (Request log ws r t' i x w)
  then have "steady (ws i\<lparr>rw_data := r\<rparr>)" by simp
  from counted_request [OF this assms(3) _ Request.hyps(2) assms(4), of "counter (snd s) (rate_key t)" log]
    Request.IH show ?case by simp
next
  case (Lapse log ws r r')
  then have "counter r' (rate_key t) = counter r (rate_key t)" using assms(5) by (auto simp: lapsed_def)
  then show ?case using Lapse by (simp add: counted_def)
qed

text \<open>A counter without a time to live never gets one: only the first request sets it.\<close>

lemma unexpiring_run:
  assumes "rate_run srv limit window counter expiring K s log s'" "\<forall>i. steady (fst s i)" "0 < limit"
    "1 \<le> counter (snd s) k" "\<not> expiring (snd s) k"
  shows "rate_run srv limit window counter expiring (K - {k}) s log s' \<and> (\<forall>i. steady (fst s' i))
    \<and> 1 \<le> counter (snd s') k \<and> \<not> expiring (snd s') k"
  using assms(1)
proof (induction rule: rate_run.induct)
  case Start
  then show ?case using assms(2,4,5) by (simp add: rate_run.Start)
next
  case (Request log ws r t' i x w)
  then have w: "steady (ws i\<lparr>rw_data := r\<rparr>)" and run: "rate_run srv limit window counter expiring (K - {k}) s log (ws, r)"
    by simp_all
  have "steady w \<and> 1 \<le> counter (rw_data w) k \<and> \<not> expiring (rw_data w) k"
  proof (cases "t' = []")
    case True
    then show ?thesis using Request w by (auto simp: AllowTenant_def return_def)
  next
    case False
    from AllowTenant_outcome [OF w assms(3) False Request.hyps(2)] Request.IH show ?thesis
      by (cases "k = rate_key t'") auto
  qed
  then show ?case using Request.IH rate_run.Request [OF run Request.hyps(2)] by simp
next
  case (Lapse log ws r r')
  then have "lapsed counter expiring (K - {k}) r r'" by (auto simp: lapsed_def)
  then show ?case using Lapse by (auto intro: rate_run.Lapse simp: lapsed_def)
qed

end

end
