(* ===== verification/Queue_Reference.thy ===== *)
theory Queue_Reference
  imports Queue_Spec
begin

text \<open>
  A server that keeps the documented behaviour, so that the hypotheses on the server can hold: the
  part of Redis the client uses, with a password, databases, lists, counters that may expire, and
  transactions.  A reply that the protocol cannot carry is refused and changes nothing.
\<close>

record keyspace =
  ks_lists :: broker
  ks_counters :: "string \<Rightarrow> int"
  ks_expiring :: "string \<Rightarrow> bool"

record ref_session =
  rs_authenticated :: bool
  rs_db :: int
  rs_tx :: "string list list option"

definition ref_secret :: string where
  "ref_secret = ''secret''"

definition ref_command :: "string list \<Rightarrow> keyspace \<Rightarrow> resp \<times> keyspace" where
  "ref_command cmd ks = (case cmd of
     [c] \<Rightarrow> if c = ''PING'' then (Status ''PONG'', ks) else (Failure ''ERR unknown command'', ks)
   | [c, k] \<Rightarrow>
       if c = ''LLEN'' then (Number (int (length (ks_lists ks k))), ks)
       else if c = ''INCR'' then
         (Number (ks_counters ks k + 1), ks\<lparr>ks_counters := (ks_counters ks)(k := ks_counters ks k + 1)\<rparr>)
       else if c = ''TTL'' then
         (Number (if ks_counters ks k = 0 then - 2 else if ks_expiring ks k then 1 else - 1), ks)
       else (Failure ''ERR unknown command'', ks)
   | [c, k, v] \<Rightarrow>
       if c = ''RPUSH'' then (Number (int (length (ks_lists ks k)) + 1), ks\<lparr>ks_lists := pushed k v (ks_lists ks)\<rparr>)
       else if c = ''LPUSH'' then
         (Number (int (length (ks_lists ks k)) + 1), ks\<lparr>ks_lists := (ks_lists ks)(k := v # ks_lists ks k)\<rparr>)
       else if c = ''RPOPLPUSH'' then
         (if ks_lists ks k = [] then NullBulk else Bulk (last (ks_lists ks k)), ks\<lparr>ks_lists := moved k v (ks_lists ks)\<rparr>)
       else if c = ''EXPIRE'' then
         (if ks_counters ks k = 0 then (Number 0, ks) else (Number 1, ks\<lparr>ks_expiring := (ks_expiring ks)(k := True)\<rparr>))
       else (Failure ''ERR unknown command'', ks)
   | [c, k, x, y] \<Rightarrow>
       if c = ''BRPOPLPUSH'' then
         (if ks_lists ks k = [] then NullMulti else Bulk (last (ks_lists ks k)), ks\<lparr>ks_lists := moved k x (ks_lists ks)\<rparr>)
       else if c = ''LREM'' then
         (Number (if y \<in> set (ks_lists ks k) then 1 else 0), ks\<lparr>ks_lists := removed k y (ks_lists ks)\<rparr>)
       else (Failure ''ERR unknown command'', ks)
   | _ \<Rightarrow> (Failure ''ERR unknown command'', ks))"

fun ref_commands :: "string list list \<Rightarrow> keyspace \<Rightarrow> resp list \<times> keyspace" where
  "ref_commands [] ks = ([], ks)"
| "ref_commands (c # cs) ks = (case ref_command c ks of (v, ks') \<Rightarrow>
     case ref_commands cs ks' of (vs, ks'') \<Rightarrow> (v # vs, ks''))"

definition ref_answer :: "string list \<Rightarrow> ref_session \<times> (int \<Rightarrow> keyspace) \<Rightarrow> resp \<times> ref_session \<times> (int \<Rightarrow> keyspace)" where
  "ref_answer cmd s = (case s of (t, r) \<Rightarrow>
     if hd cmd = ''AUTH'' then
       if tl cmd = [ref_secret] then (Status ''OK'', t\<lparr>rs_authenticated := True\<rparr>, r) else (Failure ''ERR AUTH'', t, r)
     else if \<not> rs_authenticated t then (Failure ''NOAUTH Authentication required.'', t, r)
     else if hd cmd = ''SELECT'' then (case Atoi (hd (tl cmd)) of
         None \<Rightarrow> (Failure ''ERR invalid DB index'', t, r) | Some d \<Rightarrow> (Status ''OK'', t\<lparr>rs_db := d\<rparr>, r))
     else if cmd = [''MULTI''] then (Status ''OK'', t\<lparr>rs_tx := Some []\<rparr>, r)
     else (case rs_tx t of
         None \<Rightarrow> (case ref_command cmd (r (rs_db t)) of (v, ks) \<Rightarrow> (v, t, r(rs_db t := ks)))
       | Some cs \<Rightarrow>
           if cmd = [''EXEC''] then (case ref_commands cs (r (rs_db t)) of
             (vs, ks) \<Rightarrow> (Multi vs, t\<lparr>rs_tx := None\<rparr>, r(rs_db t := ks)))
           else (Status ''QUEUED'', t\<lparr>rs_tx := Some (cs @ [cmd])\<rparr>, r)))"

definition ref_exec :: "string list \<Rightarrow> ref_session \<times> (int \<Rightarrow> keyspace) \<Rightarrow> resp \<times> ref_session \<times> (int \<Rightarrow> keyspace)" where
  "ref_exec cmd s = (if sound_resp (fst (ref_answer cmd s)) then ref_answer cmd s
     else (Failure ''ERR value out of range'', (fst s)\<lparr>rs_tx := None\<rparr>, snd s))"

definition ref_server :: "(ref_session, int \<Rightarrow> keyspace) redis_server" where
  "ref_server = \<lparr>rs_fresh = \<lparr>rs_authenticated = False, rs_db = 0, rs_tx = None\<rparr>, rs_exec = ref_exec\<rparr>"

definition ref_ready :: "int \<Rightarrow> ref_session" where
  "ref_ready d = \<lparr>rs_authenticated = True, rs_db = d, rs_tx = None\<rparr>"

definition ref_queued :: "string list list \<Rightarrow> ref_session" where
  "ref_queued cs = \<lparr>rs_authenticated = True, rs_db = 2, rs_tx = Some cs\<rparr>"

definition ref_contents :: "(int \<Rightarrow> keyspace) \<Rightarrow> broker" where
  "ref_contents r = ks_lists (r 2)"

lemma ref_lines [simp]: "plain_line ''OK''" "plain_line ''QUEUED''" "plain_line ''ERR value out of range''"
  by (simp_all add: plain_line_def CR_def LF_def)

lemma ref_select: "Atoi (Itoa 2) = Some 2"
  by (simp add: in_int64_def)

lemmas ref_defs = ref_server_def ref_exec_def ref_answer_def ref_command_def ref_ready_def ref_queued_def
  ref_contents_def

interpretation ref: redis_lists ref_server "ref_ready 0" "ref_ready 2" ref_secret 2 ref_contents ref_queued
proof
  show "sound_resp v" if "rs_exec ref_server cmd s = (v, s')" for cmd s v s'
    using that by (auto simp: ref_server_def ref_exec_def split: if_splits)
qed (auto simp: ref_defs ref_secret_def ref_select refused_iff popped_from_def returned_def removed_def
    split: if_splits)

end
