(* ===== verification/Queue_Outcome.thy ===== *)
theory Queue_Outcome
  imports Queue_Safety Queue_Rates Queue_Reference
begin

text \<open>
  The properties of the queue client, over any server that keeps the documented behaviour, with
  their instances on the reference server.
\<close>

subsection \<open>Samples\<close>

definition new_client :: "net_event list \<Rightarrow> (int \<Rightarrow> keyspace) \<Rightarrow> (ref_session, int \<Rightarrow> keyspace) redis_world" where
  "new_client events r = \<lparr>rq_password = ref_secret, rq_db = 2, rq_conn = None,
     rw_session = ref_ready 0, rw_data = r, rw_dials = [], rw_events = events\<rparr>"

definition empty_keys :: "int \<Rightarrow> keyspace" where
  "empty_keys = (\<lambda>_. \<lparr>ks_lists = (\<lambda>_. []), ks_counters = (\<lambda>_. 0), ks_expiring = (\<lambda>_. False)\<rparr>)"

text \<open>Sample codings of a job: its identifier.\<close>

definition id_codec :: job_codec where
  "id_codec = \<lparr>jc_marshal = (\<lambda>j. Some (job_JobID j)), jc_unmarshal = (\<lambda>v. Some (some_job\<lparr>job_JobID := v\<rparr>))\<rparr>"

definition job_named :: "string \<Rightarrow> dispatch_job" where
  "job_named v = some_job\<lparr>job_JobID := v\<rparr>"

lemma new_client_settled [simp]: "settled (ref_ready 2) ref_secret 2 (new_client events r)"
  by (simp add: new_client_def settled_def down_def)

definition ref_counter :: "(int \<Rightarrow> keyspace) \<Rightarrow> string \<Rightarrow> int" where
  "ref_counter r = ks_counters (r 2)"

definition ref_expiring :: "(int \<Rightarrow> keyspace) \<Rightarrow> string \<Rightarrow> bool" where
  "ref_expiring r = ks_expiring (r 2)"

interpretation ref_rates: redis_counters ref_server "ref_ready 0" "ref_ready 2" ref_secret 2 ref_counter ref_expiring
  by unfold_locales (auto simp: ref_defs ref_counter_def ref_expiring_def refused_iff split: if_splits)

subsection \<open>The queues\<close>

text \<open>
  C24.  The queue client refines the abstract broker.  Whatever the network does, an operation
  (\<open>enqueue\<close>, one poll of \<open>ReserveChannel\<close>, one pop of \<open>RecoverProcessingQueue\<close>, \<open>AckReserved\<close>,
  \<open>RequeueReserved\<close>, \<open>QueueDepth\<close>) either has its abstract effect on the lists, all at once, with the
  abstract answer; or it fails with an error of the connection or the server, and then it had that
  effect or none.  It leaves the connection in a state from which the next operation starts.
\<close>

theorem queue_refines_broker:
  assumes "redis_lists srv authed ready password db contents queued"
    "settled ready password db w" "op_queue op \<in> sources"
  shows "settled ready password db (snd (run_op jc srv op w))
    \<and> refined jc op (contents (rw_data w)) (fst (run_op jc srv op w)) (contents (rw_data (snd (run_op jc srv op w))))"
  using redis_lists.op_refined [OF assms(1-3), where jc = jc and x = "fst (run_op jc srv op w)"
      and w' = "snd (run_op jc srv op w)"] by simp

theorem queue_refines_broker_witness:
  "let w = new_client [Works, Works, Works, AnswerLost] empty_keys;
       y = run_op id_codec ref_server (OpEnqueue DispatchEmailQueueName (job_named ''j'')) w in
     refined id_codec (OpEnqueue DispatchEmailQueueName (job_named ''j'')) (ref_contents (rw_data w)) (fst y)
       (ref_contents (rw_data (snd y)))"
  using queue_refines_broker [OF ref.redis_lists_axioms
      new_client_settled [of "[Works, Works, Works, AnswerLost]" empty_keys],
      where jc = id_codec and op = "OpEnqueue DispatchEmailQueueName (job_named ''j'')"]
  by (simp add: sources_def)

text \<open>
  C25.  No job is lost and none is made up.  Any number of clients share the server, and each step is
  one operation of one of them under any faults of the network.  The copies of a payload in a queue
  and its processing queue are at least those before plus the confirmed enqueues of it minus the
  acknowledgements of it; and at most those before plus the attempted enqueues and the requeues.
\<close>

theorem jobs_never_lost:
  assumes "redis_lists srv authed ready password db contents queued"
    "\<forall>i. settled ready password db (fst s i)" "\<forall>(i, op) \<in> set ops. op_queue op \<in> sources" "q \<in> sources"
    "serve_all jc srv ops s = (log, s')"
  shows "held q v (contents (snd s)) + number (confirmed jc q v) log
       \<le> held q v (contents (snd s')) + number (\<lambda>e. acknowledges q v (fst e)) log
     \<and> held q v (contents (snd s')) \<le> held q v (contents (snd s))
       + number (\<lambda>e. enqueues jc q v (fst e)) log + number (\<lambda>e. requeues q v (fst e)) log"
  using redis_lists.serve_all_counts [OF assms] by simp

theorem jobs_never_lost_witness:
  "let q = DispatchWebhookQueueName;
       y = serve_all id_codec ref_server
         [(0, OpEnqueue q (job_named ''j'')), (1, OpPoll q 1), (2, OpSweep q), (1, OpAck q ''j'')]
         ((\<lambda>i. new_client (if i = 1 then [Works, Works, AnswerLost] else []) empty_keys), empty_keys) in
     number (confirmed id_codec q ''j'') (fst y)
       \<le> held q ''j'' (ref_contents (snd (snd y))) + number (\<lambda>e. acknowledges q ''j'' (fst e)) (fst y)"
  using jobs_never_lost [OF ref.redis_lists_axioms,
      where s = "((\<lambda>i. new_client (if i = 1 then [Works, Works, AnswerLost] else []) empty_keys), empty_keys)"
        and ops = "[(0, OpEnqueue DispatchWebhookQueueName (job_named ''j'')), (1, OpPoll DispatchWebhookQueueName 1),
          (2, OpSweep DispatchWebhookQueueName), (1, OpAck DispatchWebhookQueueName ''j'')]"
        and q = DispatchWebhookQueueName and jc = id_codec and v = "''j''", OF _ _ _ prod.collapse [symmetric]]
  by (simp add: sources_def Let_def held_def ref_contents_def empty_keys_def)

text \<open>
  C31.  \<open>RecoverProcessingQueue\<close>, while no one adds to the processing queue, ends after at most one
  pop more than there are jobs in it, without an error only when the processing queue is empty.  It
  reports the jobs it moved (an error may hide one), and the moved jobs are, in their order, before
  the jobs that wait.
\<close>

theorem recovery_drains:
  assumes "redis_lists srv authed ready password db contents queued"
    "settled ready password db w" "q \<in> sources" "RecoverProcessingQueue fuel srv q w = (x, w')"
    "length (contents (rw_data w) (ProcessingQueueName q)) < fuel"
  shows "\<exists>n j e. x = Inr (int n, e) \<and> e \<noteq> Some out_of_fuel
    \<and> contents (rw_data w') = drained j (ProcessingQueueName q) q (contents (rw_data w))
    \<and> (e = None \<longrightarrow> n = length (contents (rw_data w) (ProcessingQueueName q))
        \<and> contents (rw_data w') (ProcessingQueueName q) = []
        \<and> contents (rw_data w') q = contents (rw_data w) (ProcessingQueueName q) @ contents (rw_data w) q)
    \<and> (e \<noteq> None \<longrightarrow> j = n \<or> j = Suc n)"
proof -
  from redis_lists.recover_loop_outcome [OF assms(1-3) assms(4) [unfolded RecoverProcessingQueue_def]]
  obtain m j e where r: "x = Inr (0 + int m, e)"
    "contents (rw_data w') = drained j (ProcessingQueueName q) q (contents (rw_data w))"
    "e = None \<longrightarrow> m = length (contents (rw_data w) (ProcessingQueueName q)) \<and> j = m"
    "\<forall>e'. e = Some e' \<longrightarrow> (j = m \<or> j = Suc m)
      \<and> (failed (Inl e' :: err + unit) \<or> e' = out_of_fuel \<and> fuel \<le> length (contents (rw_data w) (ProcessingQueueName q)))"
    by blast
  then have "e \<noteq> Some out_of_fuel" using assms(5) by auto
  with r not_own_processing [of q] show ?thesis
    by (intro exI [of _ m] exI [of _ j] exI [of _ e]) (auto simp: drained_def)
qed

theorem recovery_drains_witness:
  "let r = empty_keys(2 := (empty_keys 2)\<lparr>ks_lists := (\<lambda>_. [])(ProcessingQueueName DispatchQueueName := [''a'', ''b''])\<rparr>) in
   \<exists>n e. fst (RecoverProcessingQueue 3 ref_server DispatchQueueName (new_client [] r)) = Inr (int n, e) \<and> e \<noteq> Some out_of_fuel"
  using recovery_drains [OF ref.redis_lists_axioms new_client_settled
      [of "[]" "empty_keys(2 := (empty_keys 2)\<lparr>ks_lists := (\<lambda>_. [])(ProcessingQueueName DispatchQueueName := [''a'', ''b''])\<rparr>)"],
      of DispatchQueueName, OF _ prod.collapse [symmetric], of 3]
  unfolding Let_def by (simp add: sources_def ref_contents_def new_client_def) blast

text \<open>
  C32.  The round trip of a job: what \<open>EnqueueDispatch\<close> reported as written is the job that
  \<open>ReserveDispatch\<close> of another client returns next, if it returns one, as long as the coding of jobs
  can be undone; and it is in the processing queue then, and no longer in the queue.
\<close>

theorem enqueued_job_reserved:
  assumes "redis_lists srv authed ready password db contents queued"
    "settled ready password db w" "settled ready password db v"
    "\<forall>payload. jc_marshal jc job = Some payload \<longrightarrow> jc_unmarshal jc payload = Some job"
    "EnqueueDispatch jc srv job w = (Inr (), w')"
    "ReserveDispatch polls jc srv seconds (v\<lparr>rw_data := rw_data w'\<rparr>) = (Inr reserved, v')"
  shows "rsv_Job reserved = job \<and> jc_marshal jc job = Some (rsv_payload reserved)
    \<and> contents (rw_data v') DispatchQueueName = contents (rw_data w) DispatchQueueName
    \<and> rsv_payload reserved \<in> set (contents (rw_data v') (ProcessingQueueName DispatchQueueName))"
proof -
  have q: "DispatchQueueName \<in> sources" by (simp add: sources_def)
  from redis_lists.enqueue_outcome [OF assms(1,2) q assms(5) [unfolded EnqueueDispatch_def]]
  obtain p where p: "jc_marshal jc job = Some p" "contents (rw_data w') = pushed DispatchQueueName p (contents (rw_data w))"
    by blast
  have s: "settled ready password db (v\<lparr>rw_data := rw_data w'\<rparr>)"
    using assms(3) by simp
  let ?B = "contents (rw_data w')"
  have B: "?B DispatchQueueName = contents (rw_data w) DispatchQueueName @ [p]" "jc_unmarshal jc p = Some job"
    using p assms(4) by (simp_all add: pushed_def)
  from redis_lists.reserve_outcome [OF assms(1) s q assms(6) [unfolded ReserveDispatch_def ReserveChannel_def]]
  have "reserved = reservation DispatchQueueName job p"
    "contents (rw_data v') = moved DispatchQueueName (ProcessingQueueName DispatchQueueName) ?B"
    by (simp_all add: B)
  with p(1) B(1) not_own_processing [of DispatchQueueName, symmetric]
  show ?thesis by (simp add: moved_def reservation_def)
qed

theorem enqueued_job_reserved_witness:
  "let e = EnqueueDispatch id_codec ref_server (job_named ''j'') (new_client [] empty_keys);
       y = ReserveDispatch 1 id_codec ref_server 5 ((new_client [] empty_keys)\<lparr>rw_data := rw_data (snd e)\<rparr>) in
     \<exists>reserved. fst y = Inr reserved \<and> rsv_Job reserved = job_named ''j''"
proof -
  let ?e = "EnqueueDispatch id_codec ref_server (job_named ''j'') (new_client [] empty_keys)"
  have e: "fst ?e = Inr ()" by code_simp
  let ?y = "ReserveDispatch 1 id_codec ref_server 5 ((new_client [] empty_keys)\<lparr>rw_data := rw_data (snd ?e)\<rparr>)"
  have "isl (fst ?y) = False" by code_simp
  then obtain reserved where y: "fst ?y = Inr reserved" by (cases "fst ?y") auto
  have "EnqueueDispatch id_codec ref_server (job_named ''j'') (new_client [] empty_keys) = (Inr (), snd ?e)"
    using e by (metis prod.collapse)
  moreover have "ReserveDispatch 1 id_codec ref_server 5 ((new_client [] empty_keys)\<lparr>rw_data := rw_data (snd ?e)\<rparr>)
      = (Inr reserved, snd ?y)"
    using y by (metis prod.collapse)
  moreover have "\<forall>payload. jc_marshal id_codec (job_named ''j'') = Some payload \<longrightarrow>
      jc_unmarshal id_codec payload = Some (job_named ''j'')"
    by (simp add: id_codec_def job_named_def some_job_def)
  ultimately have "rsv_Job reserved = job_named ''j''"
    using enqueued_job_reserved [OF ref.redis_lists_axioms new_client_settled new_client_settled] by blast
  with y show ?thesis unfolding Let_def by blast
qed

text \<open>
  C33.  After one failed write the client is of no use any more: \<^verbatim>\<open>writeCommandLocked\<close> returns the
  error without resetting the connection, \<^verbatim>\<open>bufio.Writer\<close> keeps its first error, and
  \<^verbatim>\<open>ensureConnLocked\<close> does not dial while there is a connection.  So every later operation fails
  with that error and no command is sent, however well the network works again.
\<close>

theorem failed_write_is_final:
  assumes "idle w" "next_event w = WriteFails" "request srv parts w = (x, w')"
  shows "x = Inl write_failure \<and> Ping srv w' = (Inl write_failure, w')
    \<and> PressureSnapshot srv w' = (Inl write_failure, w')
    \<and> (\<forall>op jc. fst (run_op jc srv op w') \<in> {Inl write_failure, Inl JsonError} \<and> snd (run_op jc srv op w') = w')
    \<and> ReserveChannel (Suc polls) jc srv q seconds w' = (Inl write_failure, w')
    \<and> RecoverProcessingQueue (Suc fuel) srv q w' = (Inr (0, Some write_failure), w')
    \<and> (0 < limit \<and> t \<noteq> [] \<longrightarrow> AllowTenant srv t limit window w' = (Inl write_failure, w'))"
proof -
  have x: "x = Inl write_failure" and b: "broken w'"
    using assms by (auto simp: request_def ensureConnLocked_def exchange_def writeCommandLocked_def idle_def
        Let_def return_def andThen_def handle_def fail_def)
  have run: "fst (run_op jc srv op w') \<in> {Inl write_failure, Inl JsonError} \<and> snd (run_op jc srv op w') = w'" for jc op
    using broken_request [OF b] broken_ensure [OF b] broken_write [OF b]
    by (cases op) (auto simp: enqueue_def brpoplpush_def rpoplpush_def AckReserved_def lrem_def RequeueReserved_def
        exchange_def QueueDepth_def llen_def andThen_def handle_def fail_def split: option.split)
  have "write_failure \<noteq> errRedisNil" by (simp add: write_failure_def errRedisNil_def)
  with x run broken_request [OF b] show ?thesis
    by (auto simp: Ping_def PressureSnapshot_def QueueDepth_def llen_def ReserveChannel_def brpoplpush_def
        RecoverProcessingQueue_def rpoplpush_def AllowTenant_def incr_def andThen_def handle_def fail_def return_def)
qed

theorem failed_write_is_final_witness:
  "let w = (new_client [WriteFails] empty_keys)\<lparr>rq_conn := Some \<lparr>cn_link = Up, cn_input = []\<rparr>\<rparr> in
     Ping ref_server (snd (request ref_server [''PING''] w)) = (Inl write_failure, snd (request ref_server [''PING''] w))"
  using failed_write_is_final [where w = "(new_client [WriteFails] empty_keys)\<lparr>rq_conn := Some \<lparr>cn_link = Up, cn_input = []\<rparr>\<rparr>"
      and srv = ref_server and parts = "[''PING'']", OF _ _ prod.collapse [symmetric]]
  by (simp add: idle_def next_event_def new_client_def Let_def)

subsection \<open>The rate limiter\<close>

text \<open>
  C34.  Within one window (the counter of the tenant is not deleted) a fleet of limiters admits no
  more requests of a tenant than the limit leaves, whatever the other tenants do, in any order of
  the requests and under any faults; requests of the past count.
\<close>

theorem rate_limit_window:
  assumes "redis_counters srv authed ready password db counter expiring"
    "rate_run srv limit window counter expiring K s log s'" "\<forall>i. settled ready password db (fst s i)"
    "0 < limit" "tenantID \<noteq> []" "rate_key tenantID \<notin> K"
  shows "int (admitted tenantID log) \<le> max 0 (limit - counter (snd s) (rate_key tenantID))"
  using redis_counters.counted_run [OF assms] by (auto simp: redis_counters.counted_def [OF assms(1)])

theorem rate_limit_window_witness:
  "int (admitted ''t'' [(''t'', fst (AllowTenant ref_server ''t'' 1 second
     ((new_client [] empty_keys)\<lparr>rw_data := empty_keys\<rparr>)))]) \<le> 1"
  using rate_limit_window [OF ref_rates.redis_counters_axioms
      rate_run_one [OF refl, where srv = ref_server and t = "''t''" and limit = 1 and window = second
        and ws = "\<lambda>_. new_client [] empty_keys" and i = 0 and r = empty_keys
        and counter = ref_counter and expiring = ref_expiring and K = "{}"], of "''t''"]
  by (simp add: ref_counter_def empty_keys_def)

text \<open>
  A lost \<^verbatim>\<open>EXPIRE\<close> blocks a tenant for ever: the time to live is only set by the request that
  counts 1, so once the counter is there without one (the \<^verbatim>\<open>EXPIRE\<close>, or the answer of the first
  \<^verbatim>\<open>INCR\<close>, was lost), then in every later run, however long and however much time passes in it, at
  most the rest of one window's requests is admitted.
\<close>

theorem lost_expire_blocks_tenant:
  assumes "redis_counters srv authed ready password db counter expiring"
    "rate_run srv limit window counter expiring UNIV s log s'" "\<forall>i. settled ready password db (fst s i)"
    "0 < limit" "tenantID \<noteq> []" "1 \<le> counter (snd s) (rate_key tenantID)" "\<not> expiring (snd s) (rate_key tenantID)"
  shows "int (admitted tenantID log) \<le> max 0 (limit - counter (snd s) (rate_key tenantID))
    \<and> \<not> expiring (snd s') (rate_key tenantID)"
proof -
  note u = redis_counters.unexpiring_run [OF assms(1-4,6,7)]
  have "rate_run srv limit window counter expiring (UNIV - {rate_key tenantID}) s log s'" using u by blast
  from redis_counters.counted_run [OF assms(1) this assms(3-5)] u show ?thesis
    by (auto simp: redis_counters.counted_def [OF assms(1)])
qed

definition lost_expire :: "int \<Rightarrow> keyspace" where
  "lost_expire = rw_data (snd (AllowTenant ref_server ''t'' 1 second
     (new_client [Works, Works, Works, CommandLost] empty_keys)))"

theorem lost_expire_blocks_tenant_witness:
  "admitted ''t'' [(''t'', fst (AllowTenant ref_server ''t'' 1 second
     ((new_client [] lost_expire)\<lparr>rw_data := lost_expire\<rparr>)))] = 0"
proof -
  have "ref_counter lost_expire (rate_key ''t'') = 1" by code_simp
  moreover have "\<not> ref_expiring lost_expire (rate_key ''t'')" by code_simp
  ultimately show ?thesis
    using lost_expire_blocks_tenant [OF ref_rates.redis_counters_axioms
        rate_run_one [OF refl, where srv = ref_server and t = "''t''" and limit = 1 and window = second
          and ws = "\<lambda>_. new_client [] lost_expire" and i = 0 and r = lost_expire
          and counter = ref_counter and expiring = ref_expiring and K = UNIV], of "''t''"] by simp
qed

end
