(* ===== verification/Worker_Runner.thy ===== *)
theory Worker_Runner
  imports Worker_Scheduler Queue_Outcome "HOL-Library.Multiset"
begin

text \<open>
  The loop of a worker process (\<^verbatim>\<open>RunChannelWorker\<close> in \<^verbatim>\<open>internal/worker/runner.go\<close>) with its
  goroutines, and what a goroutine does with a reserved job (\<^verbatim>\<open>runReserved\<close>).
\<close>

subsection \<open>One reserved job\<close>

text \<open>
  A machine has a queue client and the rest of its world; an operation of either leaves the other
  as it is.
\<close>

definition on_queue :: "('q, 'a) sm \<Rightarrow> ('q \<times> 'd, 'a) sm" where
  "on_queue m w = (case m (fst w) of (x, q) \<Rightarrow> (x, (q, snd w)))"

definition on_rest :: "('d, 'a) sm \<Rightarrow> ('q \<times> 'd, 'a) sm" where
  "on_rest m w = (case m (snd w) of (x, d) \<Rightarrow> (x, (fst w, d)))"

text \<open>What \<^verbatim>\<open>runReserved\<close> logs, one value for each of its six ends.\<close>

datatype run_report = OrphanNotAcked | OrphanDropped | FailedNotAcked | FailedAcked | DoneNotAcked | DoneAcked

text \<open>
  A processor returns a result with an optional error, or an error of the store without one.
\<close>

definition runReserved ::
    "(dispatch_job \<Rightarrow> ('d, 'o \<times> 'c option) sm) \<Rightarrow> ('t, 'r) redis_server \<Rightarrow> reserved_job \<Rightarrow>
     (('t, 'r, 'x) redis_world_scheme \<times> 'd, run_report) sm" where
  "runReserved processor srv reserved =
     (let acked = (\<lambda>failure success. handle (on_queue (AckReserved srv reserved)) (\<lambda>_. return failure) (\<lambda>_. return success)) in
      handle (on_rest (processor (rsv_Job reserved)))
        (\<lambda>e. if e = ErrNotFound then acked OrphanNotAcked OrphanDropped else acked FailedNotAcked FailedAcked)
        (\<lambda>(result, e). if e \<noteq> None then acked FailedNotAcked FailedAcked else acked DoneNotAcked DoneAcked))"

lemma runReserved_runs:
  "runReserved processor srv reserved w = (x, w') \<Longrightarrow>
     snd w' = snd (processor (rsv_Job reserved) (snd w)) \<and> fst w' = snd (AckReserved srv reserved (fst w))
   \<and> (\<exists>rep. x = Inr rep \<and> (rep \<in> {OrphanDropped, FailedAcked, DoneAcked}) = (fst (AckReserved srv reserved (fst w)) = Inr ()))"
  by (cases "processor (rsv_Job reserved) (snd w)"; cases "AckReserved srv reserved (fst w)")
    (auto simp: runReserved_def on_rest_def on_queue_def handle_def return_def Let_def split: sum.splits if_splits prod.splits)

subsection \<open>Recovery in the process\<close>

text \<open>
  \<^verbatim>\<open>RecoverProcessingQueues\<close>, at the start and at every tick of the recovery loop: errors and counts
  are only logged.
\<close>

definition RecoverProcessingQueues :: "nat \<Rightarrow> ('t, 'r) redis_server \<Rightarrow> ('t, 'r, 'x, unit) qm" where
  "RecoverProcessingQueues fuel srv = andThen (RecoverKnownProcessingQueues fuel srv) (\<lambda>_. return ())"

subsection \<open>The loop\<close>

text \<open>
  A goroutine runs its job, then is done (\<^verbatim>\<open>inFlight.Done()\<close>), gives its slot of the semaphore back
  (\<^verbatim>\<open><-sem\<close>), and at last completes the tenant's job in the scheduler.
\<close>

datatype phase = Running | Finished | Released

datatype pc = Filling | Polling | Reserving | Draining | Stopped

text \<open>
  The state of the loop; the last three fields record, for the specification, the jobs that were
  reserved, started and finished, in their order.
\<close>

record 'w worker_loop =
  wl_sched :: fair_scheduler
  wl_jobs :: "(reserved_job \<times> phase) list"
  wl_pc :: pc
  wl_cancelled :: bool
  wl_saturated :: nat
  wl_world :: 'w
  wl_reserved :: "reserved_job list"
  wl_started :: "reserved_job list"
  wl_finished :: "reserved_job list"

definition Concurrency :: "int \<Rightarrow> nat" where
  "Concurrency n = (if n \<le> 0 then 1 else nat n)"

definition worker_start :: "int \<Rightarrow> int \<Rightarrow> 'w \<Rightarrow> 'w worker_loop" where
  "worker_start burst maxFlight w = \<lparr>wl_sched = newFairScheduler burst maxFlight, wl_jobs = [], wl_pc = Filling,
     wl_cancelled = False, wl_saturated = 0, wl_world = w, wl_reserved = [], wl_started = [], wl_finished = []\<rparr>"

definition sem_used :: "(reserved_job \<times> phase) list \<Rightarrow> nat" where
  "sem_used jobs = number (\<lambda>(_, p). p \<noteq> Released) jobs"

definition in_flight :: "(reserved_job \<times> phase) list \<Rightarrow> nat" where
  "in_flight jobs = number (\<lambda>(_, p). p = Running) jobs"

text \<open>
  The steps of the loop and its goroutines: \<open>poll\<close> is \<open>ReserveChannel\<close> on the queue of the worker,
  \<open>run\<close> the effect of \<open>runReserved\<close>.
\<close>

inductive worker_step ::
    "nat \<Rightarrow> ('w \<Rightarrow> (err + reserved_job) \<times> 'w) \<Rightarrow> (reserved_job \<Rightarrow> 'w \<Rightarrow> 'w) \<Rightarrow> 'w worker_loop \<Rightarrow> 'w worker_loop \<Rightarrow> bool"
  for conc poll run where
  Start: "wl_pc s = Filling \<Longrightarrow> sem_used (wl_jobs s) < conc \<Longrightarrow> nextJob (wl_sched s) = (Some j, sched) \<Longrightarrow>
    worker_step conc poll run s
      (s\<lparr>wl_sched := sched, wl_jobs := wl_jobs s @ [(j, Running)], wl_started := wl_started s @ [j]\<rparr>)"
| NoJob: "wl_pc s = Filling \<Longrightarrow> sem_used (wl_jobs s) < conc \<Longrightarrow> nextJob (wl_sched s) = (None, sched) \<Longrightarrow>
    worker_step conc poll run s (s\<lparr>wl_sched := sched, wl_pc := Polling\<rparr>)"
| Full: "wl_pc s = Filling \<Longrightarrow> \<not> sem_used (wl_jobs s) < conc \<Longrightarrow> worker_step conc poll run s (s\<lparr>wl_pc := Polling\<rparr>)"
| Done: "wl_pc s = Polling \<Longrightarrow> wl_cancelled s \<Longrightarrow> worker_step conc poll run s (s\<lparr>wl_pc := Draining\<rparr>)"
| Saturated: "wl_pc s = Polling \<Longrightarrow> \<not> wl_cancelled s \<Longrightarrow> sem_used (wl_jobs s) = conc \<Longrightarrow>
    worker_step conc poll run s (s\<lparr>wl_saturated := Suc (wl_saturated s), wl_pc := Filling\<rparr>)"
| Free: "wl_pc s = Polling \<Longrightarrow> \<not> wl_cancelled s \<Longrightarrow> sem_used (wl_jobs s) \<noteq> conc \<Longrightarrow>
    worker_step conc poll run s (s\<lparr>wl_pc := Reserving\<rparr>)"
| Reserve: "wl_pc s = Reserving \<Longrightarrow> poll (wl_world s) = (Inr j, w) \<Longrightarrow>
    worker_step conc poll run s
      (s\<lparr>wl_world := w, wl_sched := sched_add j (wl_sched s), wl_reserved := wl_reserved s @ [j], wl_pc := Filling\<rparr>)"
| ReserveFails: "wl_pc s = Reserving \<Longrightarrow> poll (wl_world s) = (Inl e, w) \<Longrightarrow>
    worker_step conc poll run s
      (s\<lparr>wl_world := w, wl_pc := (if e = context_canceled \<or> wl_cancelled s then Draining else Filling)\<rparr>)"
| Drained: "wl_pc s = Draining \<Longrightarrow> in_flight (wl_jobs s) = 0 \<Longrightarrow> worker_step conc poll run s (s\<lparr>wl_pc := Stopped\<rparr>)"
| Finish: "wl_jobs s = xs @ (j, Running) # ys \<Longrightarrow>
    worker_step conc poll run s (s\<lparr>wl_world := run j (wl_world s), wl_jobs := xs @ (j, Finished) # ys,
      wl_finished := wl_finished s @ [j]\<rparr>)"
| Release: "wl_jobs s = xs @ (j, Finished) # ys \<Longrightarrow>
    worker_step conc poll run s (s\<lparr>wl_jobs := xs @ (j, Released) # ys\<rparr>)"
| Complete: "wl_jobs s = xs @ (j, Released) # ys \<Longrightarrow>
    worker_step conc poll run s (s\<lparr>wl_jobs := xs @ ys, wl_sched := sched_complete (tenant_of j) (wl_sched s)\<rparr>)"
| Cancel: "worker_step conc poll run s (s\<lparr>wl_cancelled := True\<rparr>)"

subsection \<open>The invariant of the loop\<close>

definition jobs_of :: "string \<Rightarrow> (reserved_job \<times> phase) list \<Rightarrow> nat" where
  "jobs_of t jobs = number (\<lambda>(j, _). tenant_of j = t) jobs"

definition running_jobs :: "(reserved_job \<times> phase) list \<Rightarrow> reserved_job list" where
  "running_jobs jobs = map fst (filter (\<lambda>(_, p). p = Running) jobs)"

lemma number_append [simp]: "number P (xs @ ys) = number P xs + number P ys"
  by (simp add: number_def)

lemmas loop_counts = sem_used_def in_flight_def jobs_of_def running_jobs_def

definition loop_sound :: "nat \<Rightarrow> int \<Rightarrow> 'w worker_loop \<Rightarrow> bool" where
  "loop_sound conc maxFlight s = (sched_invar (wl_sched s) \<and> fs_maxFlight (wl_sched s) = max 1 maxFlight
     \<and> sem_used (wl_jobs s) \<le> conc
     \<and> (\<forall>t. fs_inflight (wl_sched s) t = int (jobs_of t (wl_jobs s)))
     \<and> (\<forall>t. of_tenant t (wl_started s) @ fs_pending (wl_sched s) t = of_tenant t (wl_reserved s))
     \<and> mset (wl_finished s) + mset (running_jobs (wl_jobs s)) = mset (wl_started s)
     \<and> (wl_pc s = Stopped \<longrightarrow> in_flight (wl_jobs s) = 0))"

lemma loop_sound_start: "loop_sound conc maxFlight (worker_start burst maxFlight w)"
  using new_invar [of burst maxFlight] unfolding loop_sound_def worker_start_def
  by (simp add: loop_counts) (simp add: newFairScheduler_def max_def)


lemma sound_started:
  assumes "loop_sound conc maxFlight s" "wl_pc s = Filling" "sem_used (wl_jobs s) < conc"
    "nextJob (wl_sched s) = (Some j, sched)"
  shows "loop_sound conc maxFlight
    (s\<lparr>wl_sched := sched, wl_jobs := wl_jobs s @ [(j, Running)], wl_started := wl_started s @ [j]\<rparr>)"
proof -
  have i: "sched_invar (wl_sched s)" using assms(1) by (simp add: loop_sound_def)
  obtain js where n: "sched_invar sched" "fs_maxFlight sched = fs_maxFlight (wl_sched s)"
    "fs_inflight sched = (fs_inflight (wl_sched s))(tenant_of j := fs_inflight (wl_sched s) (tenant_of j) + 1)"
    "fs_pending (wl_sched s) (tenant_of j) = j # js" "fs_pending sched = (fs_pending (wl_sched s))(tenant_of j := js)"
    using fair.next_some [OF i assms(4)] by blast
  have "of_tenant t (wl_started s @ [j]) @ fs_pending sched t = of_tenant t (wl_reserved s)" for t
  proof -
    have "of_tenant t (wl_started s) @ fs_pending (wl_sched s) t = of_tenant t (wl_reserved s)"
      using assms(1) by (simp add: loop_sound_def)
    then show ?thesis using n(4,5) by (cases "t = tenant_of j") auto
  qed
  with n assms(1-3) show ?thesis by (simp add: loop_sound_def loop_counts)
qed

lemma sound_reserved:
  assumes "loop_sound conc maxFlight s"
  shows "loop_sound conc maxFlight
    (s\<lparr>wl_world := w, wl_sched := sched_add j (wl_sched s), wl_reserved := wl_reserved s @ [j], wl_pc := Filling\<rparr>)"
proof -
  have i: "sched_invar (wl_sched s)" using assms by (simp add: loop_sound_def)
  have "of_tenant t (wl_started s) @ fs_pending (sched_add j (wl_sched s)) t = of_tenant t (wl_reserved s @ [j])" for t
  proof -
    have "of_tenant t (wl_started s) @ fs_pending (wl_sched s) t = of_tenant t (wl_reserved s)"
      using assms by (simp add: loop_sound_def)
    then show ?thesis using fair.add [OF i, of j] by (cases "t = tenant_of j") (auto simp flip: append.assoc)
  qed
  with fair.add [OF i, of j] assms show ?thesis by (simp add: loop_sound_def)
qed

lemma sound_idle:
  assumes "loop_sound conc maxFlight s" "nextJob (wl_sched s) = (None, sched)"
  shows "loop_sound conc maxFlight (s\<lparr>wl_sched := sched, wl_pc := Polling\<rparr>)"
  using fair.next_none [OF _ assms(2)] assms(1) by (simp add: loop_sound_def)

lemma sound_finished:
  "loop_sound conc maxFlight s \<Longrightarrow> wl_jobs s = xs @ (j, Running) # ys \<Longrightarrow>
   loop_sound conc maxFlight (s\<lparr>wl_world := w, wl_jobs := xs @ (j, Finished) # ys, wl_finished := wl_finished s @ [j]\<rparr>)"
  by (simp add: loop_sound_def loop_counts)

lemma sound_released:
  "loop_sound conc maxFlight s \<Longrightarrow> wl_jobs s = xs @ (j, Finished) # ys \<Longrightarrow>
   loop_sound conc maxFlight (s\<lparr>wl_jobs := xs @ (j, Released) # ys\<rparr>)"
  by (simp add: loop_sound_def loop_counts)

lemma sound_completed:
  assumes "loop_sound conc maxFlight s" "wl_jobs s = xs @ (j, Released) # ys"
  shows "loop_sound conc maxFlight (s\<lparr>wl_jobs := xs @ ys, wl_sched := sched_complete (tenant_of j) (wl_sched s)\<rparr>)"
proof -
  have i: "sched_invar (wl_sched s)" and f: "\<And>t. fs_inflight (wl_sched s) t = int (jobs_of t (wl_jobs s))"
    using assms(1) by (simp_all add: loop_sound_def)
  have "fs_inflight (sched_complete (tenant_of j) (wl_sched s)) t = int (jobs_of t (xs @ ys))" for t
    using fair.complete [OF i, of "tenant_of j"] f [of t] assms(2)
    by (cases "t = tenant_of j") (simp_all add: loop_counts)
  with fair.complete [OF i, of "tenant_of j"] assms show ?thesis
    by (simp add: loop_sound_def loop_counts)
qed

lemma sound_step: "worker_step conc poll run s s' \<Longrightarrow> loop_sound conc maxFlight s \<Longrightarrow> loop_sound conc maxFlight s'"
proof (induction rule: worker_step.induct)
  case (Start s j sched)
  then show ?case by (intro sound_started)
next
  case (NoJob s sched)
  then show ?case by (intro sound_idle)
next
  case (Reserve s j w)
  then show ?case by (intro sound_reserved)
next
  case (Finish s xs j ys)
  then show ?case by (intro sound_finished)
next
  case (Release s xs j ys)
  then show ?case by (intro sound_released)
next
  case (Complete s xs j ys)
  then show ?case by (intro sound_completed)
qed (simp_all add: loop_sound_def)

definition worker_reaches ::
    "nat \<Rightarrow> ('w \<Rightarrow> (err + reserved_job) \<times> 'w) \<Rightarrow> (reserved_job \<Rightarrow> 'w \<Rightarrow> 'w) \<Rightarrow> 'w worker_loop \<Rightarrow> 'w worker_loop \<Rightarrow> bool" where
  "worker_reaches conc poll run = (worker_step conc poll run)\<^sup>*\<^sup>*"

lemma sound_reached: "worker_reaches conc poll run s s' \<Longrightarrow> loop_sound conc maxFlight s \<Longrightarrow> loop_sound conc maxFlight s'"
  unfolding worker_reaches_def by (induction rule: rtranclp_induct) (auto intro: sound_step)

lemma running_of_tenant: "length (of_tenant t (running_jobs jobs)) \<le> jobs_of t jobs"
  by (induction jobs) (auto simp: loop_counts)

lemma running_sem: "length (running_jobs jobs) \<le> sem_used jobs"
  by (induction jobs) (auto simp: loop_counts)

text \<open>
  C27.  The loop of a worker, in every interleaving of its goroutines: never more jobs run than its
  concurrency, and never more of one tenant than its maximum; every reserved job is started at most
  once, those of a tenant in the order they were reserved; every started job finishes at most once;
  and when the loop has stopped, every started job is finished.
\<close>

theorem worker_loop_bounded:
  assumes "worker_reaches (Concurrency n) poll run (worker_start burst maxFlight w) s"
  shows "int (length (running_jobs (wl_jobs s))) \<le> max 1 n
    \<and> int (length (of_tenant t (running_jobs (wl_jobs s)))) \<le> max 1 maxFlight
    \<and> of_tenant t (wl_started s) @ fs_pending (wl_sched s) t = of_tenant t (wl_reserved s)
    \<and> mset (wl_finished s) + mset (running_jobs (wl_jobs s)) = mset (wl_started s)
    \<and> (wl_pc s = Stopped \<longrightarrow> mset (wl_finished s) = mset (wl_started s))"
proof -
  note i = sound_reached [OF assms loop_sound_start [where maxFlight = maxFlight], unfolded loop_sound_def]
  have "length (running_jobs (wl_jobs s)) \<le> Concurrency n" using i running_sem [of "wl_jobs s"] by linarith
  then have 1: "int (length (running_jobs (wl_jobs s))) \<le> max 1 n" by (auto simp: Concurrency_def split: if_splits)
  have "int (jobs_of t (wl_jobs s)) \<le> max 1 maxFlight"
    using i sched_invar_range [of "wl_sched s" t] by metis
  then have 2: "int (length (of_tenant t (running_jobs (wl_jobs s)))) \<le> max 1 maxFlight"
    using running_of_tenant [of t "wl_jobs s"] by linarith
  have "wl_pc s = Stopped \<Longrightarrow> running_jobs (wl_jobs s) = []" using i by (auto simp: loop_counts number_def)
  with i 1 2 show ?thesis by auto
qed

text \<open>
  The witness: a job is reserved, started and finished, then the context is done and the loop stops.
  The queue is a list of jobs.
\<close>

definition list_poll :: "reserved_job list \<Rightarrow> (err + reserved_job) \<times> reserved_job list" where
  "list_poll js = (case js of [] \<Rightarrow> (Inl context_canceled, []) | j # js \<Rightarrow> (Inr j, js))"

definition stopped_loop :: "reserved_job list worker_loop" where
  "stopped_loop = (worker_start 1 1 [])
     \<lparr>wl_sched := snd (nextJob (sched_add (sample_job ''t'' ''1'') (newFairScheduler 1 1))),
      wl_jobs := [(sample_job ''t'' ''1'', Finished)], wl_pc := Stopped, wl_cancelled := True,
      wl_reserved := [sample_job ''t'' ''1''], wl_started := [sample_job ''t'' ''1''],
      wl_finished := [sample_job ''t'' ''1'']\<rparr>"

lemma stopped_loop_reached:
  "worker_reaches (Concurrency 1) list_poll (\<lambda>_ w. w) (worker_start 1 1 [sample_job ''t'' ''1'']) stopped_loop"
proof -
  let ?j = "sample_job ''t'' ''1''"
  let ?step = "worker_step (Concurrency 1) list_poll (\<lambda>_ w. w)"
  define s0 where "s0 = worker_start 1 1 [?j]"
  define s1 where "s1 = s0\<lparr>wl_pc := Polling\<rparr>"
  define s2 where "s2 = s1\<lparr>wl_pc := Reserving\<rparr>"
  define s3 where "s3 = s2\<lparr>wl_world := [], wl_sched := sched_add ?j (wl_sched s2), wl_reserved := wl_reserved s2 @ [?j], wl_pc := Filling\<rparr>"
  define s4 where "s4 = s3\<lparr>wl_sched := snd (nextJob (wl_sched s3)), wl_jobs := wl_jobs s3 @ [(?j, Running)], wl_started := wl_started s3 @ [?j]\<rparr>"
  define s5 where "s5 = s4\<lparr>wl_pc := Polling\<rparr>"
  define s6 where "s6 = s5\<lparr>wl_cancelled := True\<rparr>"
  define s7 where "s7 = s6\<lparr>wl_pc := Draining\<rparr>"
  define s8 where "s8 = s7\<lparr>wl_world := wl_world s7, wl_jobs := [] @ (?j, Finished) # [], wl_finished := wl_finished s7 @ [?j]\<rparr>"
  note ds = s0_def s1_def s2_def s3_def s4_def s5_def s6_def s7_def s8_def
  have w: "wl_jobs s0 = []" "wl_sched s0 = newFairScheduler 1 1" "wl_pc s0 = Filling" "\<not> wl_cancelled s0"
    "wl_world s0 = [?j]" by (simp_all add: s0_def worker_start_def)
  have none: "nextJob (newFairScheduler 1 1) = (None, newFairScheduler 1 1)" by (simp add: nextJob_def newFairScheduler_def)
  have "fst (nextJob (sched_add ?j (newFairScheduler 1 1))) = Some ?j" by code_simp
  then have some: "nextJob (sched_add ?j (newFairScheduler 1 1)) = (Some ?j, snd (nextJob (sched_add ?j (newFairScheduler 1 1))))"
    by (metis prod.collapse)
  have c: "Concurrency 1 = 1" by (simp add: Concurrency_def)
  have 1: "?step s0 s1" using worker_step.NoJob [of s0 "Concurrency 1" "newFairScheduler 1 1"] w none c
    by (simp add: s1_def sem_used_def) (simp add: s0_def worker_start_def)
  have 2: "?step s1 s2" using worker_step.Free [of s1] w c by (simp add: s2_def s1_def sem_used_def)
  have 3: "?step s2 s3" using worker_step.Reserve [of s2 list_poll ?j "[]"] w by (simp add: s3_def s2_def s1_def list_poll_def)
  have 4: "?step s3 s4" using worker_step.Start [of s3 "Concurrency 1" ?j] w some c by (simp add: s4_def s3_def s2_def s1_def sem_used_def)
  have 5: "?step s4 s5" using worker_step.Full [of s4 "Concurrency 1"] w c by (simp add: s5_def s4_def s3_def s2_def s1_def sem_used_def)
  have 6: "?step s5 s6" unfolding s6_def by (rule worker_step.Cancel)
  have 7: "?step s6 s7" using worker_step.Done [of s6] by (simp add: s7_def s6_def s5_def)
  have 8: "?step s7 s8" unfolding s8_def by (rule worker_step.Finish) (simp add: ds(2-8) w)
  have 9: "?step s8 stopped_loop"
    using worker_step.Drained [of s8 "Concurrency 1" list_poll "\<lambda>_ w. w"] w
    by (simp add: stopped_loop_def s8_def s7_def in_flight_def) (simp add: ds(1-7) worker_start_def)
  show ?thesis unfolding worker_reaches_def s0_def [symmetric]
    using 1 2 3 4 5 6 7 8 9 by (meson rtranclp.rtrancl_into_rtrancl rtranclp.rtrancl_refl)
qed

theorem worker_loop_bounded_witness:
  "mset (wl_finished stopped_loop) = mset (wl_started stopped_loop) \<and> wl_started stopped_loop = [sample_job ''t'' ''1'']"
  using worker_loop_bounded [OF stopped_loop_reached] by (simp add: stopped_loop_def)

end
