(* ===== verification/Delivery_Parts.thy ===== *)
theory Delivery_Parts
  imports Queue_Jobs Store_Policy Config
begin

text \<open>
  The pure parts of \<^verbatim>\<open>internal/delivery\<close>: the classification of failures, the retry delay, the
  identifiers and headers of the outgoing requests, and the reading of a webhook response.
\<close>

subsection \<open>Failures\<close>

text \<open>
  A failure of a sender.  \<open>WrappedError\<close> is \<^verbatim>\<open>fmt.Errorf("...: %w", err)\<close>, through which
  \<^verbatim>\<open>errors.As\<close> looks.
\<close>

datatype cause = PlainError string | WrappedError string cause
  | TerminalError cause | RetryableError cause

fun Error :: "cause \<Rightarrow> string" where
  "Error (PlainError s) = s"
| "Error (WrappedError s c) = s @ '': '' @ Error c"
| "Error (TerminalError c) = Error c"
| "Error (RetryableError c) = Error c"

fun IsTerminal :: "cause \<Rightarrow> bool" where
  "IsTerminal (PlainError _) = False"
| "IsTerminal (WrappedError _ c) = IsTerminal c"
| "IsTerminal (TerminalError _) = True"
| "IsTerminal (RetryableError c) = IsTerminal c"

fun IsRetryable :: "cause \<Rightarrow> bool" where
  "IsRetryable (PlainError _) = False"
| "IsRetryable (WrappedError _ c) = IsRetryable c"
| "IsRetryable (TerminalError c) = IsRetryable c"
| "IsRetryable (RetryableError _) = True"

definition MaybeRetryable :: "cause \<Rightarrow> cause" where
  "MaybeRetryable c = (if IsTerminal c \<or> IsRetryable c then c else RetryableError c)"

lemma MaybeRetryable_classified: "IsTerminal (MaybeRetryable c) \<or> IsRetryable (MaybeRetryable c)"
  by (simp add: MaybeRetryable_def)

lemma MaybeRetryable_idem [simp]: "MaybeRetryable (MaybeRetryable c) = MaybeRetryable c"
  by (simp add: MaybeRetryable_def)

subsection \<open>The retry delay\<close>

text \<open>
  \<open>rp_QueueDepth\<close> is the function that the worker passes, \<open>None\<close> for nil.  The clock, the
  identifiers and the random source are the world's.
\<close>

record retry_policy =
  rp_MaxAttempts :: int
  rp_BaseDelay :: duration
  rp_MaxDelay :: duration
  rp_ExponentialBackoff :: bool
  rp_Jitter :: duration
  rp_PressureMultiplier :: int
  rp_PressureMinDelay :: duration
  rp_QueueDepth :: "(string \<Rightarrow> int) option"
  rp_QueueSoftLimit :: int

text \<open>The defaults that \<^verbatim>\<open>NewService\<close> fills in.\<close>

definition NewService :: "retry_policy \<Rightarrow> retry_policy" where
  "NewService p = p\<lparr>
     rp_MaxAttempts := (if rp_MaxAttempts p \<le> 0 then 3 else rp_MaxAttempts p),
     rp_BaseDelay := (if rp_BaseDelay p \<le> 0 then 5 * second else rp_BaseDelay p),
     rp_MaxDelay := (if rp_MaxDelay p \<le> 0 then 60 * second else rp_MaxDelay p),
     rp_PressureMultiplier := (if rp_PressureMultiplier p \<le> 0 then 1 else rp_PressureMultiplier p)\<rparr>"

text \<open>\<^verbatim>\<open>for i := 1; i < n; i++ { delay *= 2; if delay >= max { delay = max; break } }\<close>\<close>

fun double_capped :: "nat \<Rightarrow> duration \<Rightarrow> duration \<Rightarrow> duration" where
  "double_capped 0 m delay = delay"
| "double_capped (Suc k) m delay =
     (let delay' = wrap64 (delay * 2) in if delay' \<ge> m then m else double_capped k m delay')"

text \<open>A positive number of seconds of the policy replaces the duration of the process.\<close>

definition override_seconds :: "duration \<Rightarrow> int option \<Rightarrow> duration" where
  "override_seconds d secs = (case secs of
     Some s \<Rightarrow> if s > 0 then wrap64 (s * second) else d | None \<Rightarrow> d)"

definition backoff :: "retry_policy \<Rightarrow> int \<Rightarrow> resolved_policy \<Rightarrow> duration" where
  "backoff p attemptNumber resolved =
     (let delay = override_seconds (rp_BaseDelay p) (res_RetryBaseDelaySeconds resolved);
          maxDelay = override_seconds (rp_MaxDelay p) (res_RetryMaxDelaySeconds resolved);
          delay = (if rp_ExponentialBackoff p then double_capped (nat (attemptNumber - 1)) maxDelay delay
                   else delay)
      in if delay > rp_MaxDelay p then rp_MaxDelay p else delay)"

definition under_pressure :: "retry_policy \<Rightarrow> string \<Rightarrow> bool" where
  "under_pressure p channel = (case rp_QueueDepth p of None \<Rightarrow> False
     | Some depth \<Rightarrow> rp_QueueSoftLimit p > 0 \<and> depth channel \<ge> rp_QueueSoftLimit p)"

definition pressured :: "retry_policy \<Rightarrow> string \<Rightarrow> duration \<Rightarrow> duration" where
  "pressured p channel delay = (if under_pressure p channel then
     let delay = double_capped (nat (rp_PressureMultiplier p - 1)) (rp_MaxDelay p) delay in
       if delay < rp_PressureMinDelay p then rp_PressureMinDelay p else delay
     else delay)"

text \<open>
  \<open>draw n\<close> is what \<^verbatim>\<open>RandSource.Int63n(n)\<close> gives, a number from 0 to \<open>n - 1\<close>.  (A jitter of
  more than half the 64-bit range would make it panic; the model does not.)
\<close>

definition jittered :: "retry_policy \<Rightarrow> (int \<Rightarrow> int) \<Rightarrow> duration \<Rightarrow> duration" where
  "jittered p draw delay = (if rp_Jitter p > 0 then
     let delay = wrap64 (delay + (draw (rp_Jitter p * 2 + 1) - rp_Jitter p)) in
       if delay < second then second else delay
     else delay)"

definition retry_delay ::
  "retry_policy \<Rightarrow> (int \<Rightarrow> int) \<Rightarrow> string \<Rightarrow> int \<Rightarrow> resolved_policy \<Rightarrow> duration" where
  "retry_delay p draw channel attemptNumber resolved =
     jittered p draw (pressured p channel (backoff p attemptNumber resolved))"

text \<open>The loop computes powers of two up to its limit, if nothing leaves the 64-bit range.\<close>

lemma double_capped_closed:
  assumes "0 < d" "d < 2 ^ 61" "0 < m" "m < 2 ^ 61"
  shows "double_capped k m d = (if k = 0 then d else min m (d * 2 ^ k))"
  using assms
proof (induction k arbitrary: d)
  case (Suc k)
  have w: "wrap64 (d * 2) = d * 2" using Suc.prems by (intro wrap64_id) auto
  show ?case
  proof (cases "d * 2 \<ge> m")
    case True
    have "m \<le> d * 2 ^ Suc k"
      using True Suc.prems(1) by (intro order_trans [OF True]) (simp add: self_le_power)
    then show ?thesis using True w by (simp add: Let_def)
  next
    case False
    then have "d * 2 < 2 ^ 61" using Suc.prems by simp
    with Suc.IH [of "d * 2"] False Suc.prems w show ?thesis
      by (cases "k = 0") (auto simp: Let_def mult.assoc)
  qed
qed simp

text \<open>The settings that the configuration and the table admit.\<close>

definition sane_policy :: "retry_policy \<Rightarrow> bool" where
  "sane_policy p = (0 < rp_BaseDelay p \<and> rp_BaseDelay p < 2 ^ 61 \<and> 0 < rp_MaxDelay p \<and> rp_MaxDelay p < 2 ^ 61)"

definition sane_seconds :: "int option \<Rightarrow> bool" where
  "sane_seconds v = (case v of None \<Rightarrow> True | Some s \<Rightarrow> s < 2 ^ 31)"

lemma override_seconds_closed:
  "sane_seconds v \<Longrightarrow> override_seconds d v = (case v of Some s \<Rightarrow> if s > 0 then s * second else d | None \<Rightarrow> d)"
  by (auto simp: override_seconds_def sane_seconds_def second_def wrap64_id split: option.splits)

lemma override_seconds_range:
  assumes "sane_seconds v" "0 < d" "d < 2 ^ 61"
  shows "0 < override_seconds d v \<and> override_seconds d v < 2 ^ 61"
  using assms by (auto simp: override_seconds_closed sane_seconds_def second_def split: option.splits)

lemma backoff_closed:
  assumes "sane_policy p" "sane_seconds (res_RetryBaseDelaySeconds r)" "sane_seconds (res_RetryMaxDelaySeconds r)"
    and "1 \<le> n"
  shows "backoff p n r = min (rp_MaxDelay p)
     (if rp_ExponentialBackoff p \<and> n > 1
      then min (override_seconds (rp_MaxDelay p) (res_RetryMaxDelaySeconds r))
             (override_seconds (rp_BaseDelay p) (res_RetryBaseDelaySeconds r) * 2 ^ nat (n - 1))
      else override_seconds (rp_BaseDelay p) (res_RetryBaseDelaySeconds r))"
proof -
  note base = override_seconds_range [OF assms(2), of "rp_BaseDelay p"]
  note cap = override_seconds_range [OF assms(3), of "rp_MaxDelay p"]
  have "double_capped (nat (n - 1)) (override_seconds (rp_MaxDelay p) (res_RetryMaxDelaySeconds r))
      (override_seconds (rp_BaseDelay p) (res_RetryBaseDelaySeconds r))
    = (if nat (n - 1) = 0 then override_seconds (rp_BaseDelay p) (res_RetryBaseDelaySeconds r)
       else min (override_seconds (rp_MaxDelay p) (res_RetryMaxDelaySeconds r))
         (override_seconds (rp_BaseDelay p) (res_RetryBaseDelaySeconds r) * 2 ^ nat (n - 1)))"
    using assms(1) base cap by (intro double_capped_closed) (auto simp: sane_policy_def)
  then show ?thesis using assms(4)
    by (auto simp: backoff_def Let_def min_def)
qed

lemma backoff_range:
  assumes "sane_policy p" "sane_seconds (res_RetryBaseDelaySeconds r)" "sane_seconds (res_RetryMaxDelaySeconds r)"
    and "1 \<le> n"
  shows "0 < backoff p n r \<and> backoff p n r \<le> rp_MaxDelay p"
proof -
  have "0 < override_seconds (rp_BaseDelay p) (res_RetryBaseDelaySeconds r)"
    "0 < override_seconds (rp_MaxDelay p) (res_RetryMaxDelaySeconds r)"
    using override_seconds_range assms(1-3) by (auto simp: sane_policy_def)
  then show ?thesis using assms(1) unfolding backoff_closed [OF assms] by (simp add: sane_policy_def)
qed

lemma pressured_range:
  assumes "sane_policy p" "0 < d" "d \<le> rp_MaxDelay p"
  shows "0 < pressured p channel d \<and> pressured p channel d \<le> max (rp_MaxDelay p) (rp_PressureMinDelay p)"
proof -
  have "d < 2 ^ 61" using assms by (simp add: sane_policy_def)
  then have closed: "double_capped k (rp_MaxDelay p) d = (if k = 0 then d else min (rp_MaxDelay p) (d * 2 ^ k))" for k
    using assms by (intro double_capped_closed) (auto simp: sane_policy_def)
  have "0 < double_capped k (rp_MaxDelay p) d \<and> double_capped k (rp_MaxDelay p) d \<le> rp_MaxDelay p" for k
    unfolding closed using assms by (simp add: sane_policy_def)
  from this [of "nat (rp_PressureMultiplier p - 1)"] show ?thesis
    using assms by (auto simp: pressured_def Let_def le_max_iff_disj intro: less_trans)
qed

lemma jittered_range:
  assumes "0 < d" "d < 2 ^ 62" "rp_Jitter p < 2 ^ 61"
    and "rp_Jitter p > 0 \<Longrightarrow> 0 \<le> draw (rp_Jitter p * 2 + 1) \<and> draw (rp_Jitter p * 2 + 1) \<le> rp_Jitter p * 2"
  shows "0 < jittered p draw d \<and> jittered p draw d \<le> max second (d + max 0 (rp_Jitter p))"
proof (cases "rp_Jitter p > 0")
  case True
  have "wrap64 (d + (draw (rp_Jitter p * 2 + 1) - rp_Jitter p)) = d + (draw (rp_Jitter p * 2 + 1) - rp_Jitter p)"
    using assms True by (intro wrap64_id) auto
  then show ?thesis using assms True by (auto simp: jittered_def Let_def second_def)
next
  case False
  then show ?thesis using assms by (simp add: jittered_def)
qed

subsection \<open>The delay of a configured worker\<close>

text \<open>The policy that the workers build from their settings (\<^verbatim>\<open>cmd/webhook_worker\<close>, \<^verbatim>\<open>cmd/email_worker\<close>).\<close>

definition worker_retry_policy :: "config \<Rightarrow> (string \<Rightarrow> int) \<Rightarrow> retry_policy" where
  "worker_retry_policy cfg depth = \<lparr>rp_MaxAttempts = cfg_RetryMaxAttempts cfg,
     rp_BaseDelay = cfg_RetryBaseDelay cfg, rp_MaxDelay = cfg_RetryMaxDelay cfg,
     rp_ExponentialBackoff = cfg_RetryExponentialBackoff cfg, rp_Jitter = cfg_RetryJitter cfg,
     rp_PressureMultiplier = cfg_RetryPressureMultiplier cfg,
     rp_PressureMinDelay = cfg_RetryPressureMinDelay cfg, rp_QueueDepth = Some depth,
     rp_QueueSoftLimit = cfg_QueueSoftLimit cfg\<rparr>"

lemma validated_delays:
  assumes "Validate uri cfg = None"
  shows "0 < cfg_RetryBaseDelay cfg" "cfg_RetryBaseDelay cfg \<le> cfg_RetryMaxDelay cfg"
    "0 < cfg_RetryMaxAttempts cfg" "0 < cfg_RetryPressureMultiplier cfg" "0 < cfg_RetryPressureMinDelay cfg"
    "0 < cfg_QueueSoftLimit cfg"
  using assms unfolding Validate_def first_error_None positiveDuration_def
  by (simp_all only: list.set ball_simps prod.case not_le not_less)

lemma NewService_validated:
  "Validate uri cfg = None \<Longrightarrow> NewService (worker_retry_policy cfg depth) = worker_retry_policy cfg depth"
  by (frule validated_delays(1), frule validated_delays(2), frule validated_delays(3), frule validated_delays(4))
    (simp add: NewService_def worker_retry_policy_def)

text \<open>
  C22.  The delay before a retry of a worker with valid settings.  Without pressure and jitter it
  is the base delay, doubled for every attempt after the first, at most the tenant's limit (which
  does not bind the first retry) and at most the limit of the process.  With them it is positive
  and at most the larger of the process's limit and the pressure minimum, plus the jitter, but
  never less than the one second that jitter leaves.  The defaults of \<open>NewService\<close> never apply.
\<close>

theorem retry_delay_bounds:
  assumes "Validate uri cfg = None" "cfg_RetryMaxDelay cfg < 2 ^ 61" "cfg_RetryPressureMinDelay cfg < 2 ^ 61"
    and "cfg_RetryJitter cfg < 2 ^ 61"
    and "sane_seconds (res_RetryBaseDelaySeconds r)" "sane_seconds (res_RetryMaxDelaySeconds r)" "1 \<le> n"
    and "cfg_RetryJitter cfg > 0 \<Longrightarrow> 0 \<le> draw (cfg_RetryJitter cfg * 2 + 1)
      \<and> draw (cfg_RetryJitter cfg * 2 + 1) \<le> cfg_RetryJitter cfg * 2"
  shows "backoff (NewService (worker_retry_policy cfg depth)) n r = min (cfg_RetryMaxDelay cfg)
     (if cfg_RetryExponentialBackoff cfg \<and> n > 1
      then min (override_seconds (cfg_RetryMaxDelay cfg) (res_RetryMaxDelaySeconds r))
             (override_seconds (cfg_RetryBaseDelay cfg) (res_RetryBaseDelaySeconds r) * 2 ^ nat (n - 1))
      else override_seconds (cfg_RetryBaseDelay cfg) (res_RetryBaseDelaySeconds r))
    \<and> 0 < retry_delay (NewService (worker_retry_policy cfg depth)) draw channel n r
    \<and> retry_delay (NewService (worker_retry_policy cfg depth)) draw channel n r \<le> max second
        (max (cfg_RetryMaxDelay cfg) (cfg_RetryPressureMinDelay cfg) + max 0 (cfg_RetryJitter cfg))"
proof -
  define p where "p = worker_retry_policy cfg depth"
  have new: "NewService (worker_retry_policy cfg depth) = p"
    unfolding p_def using assms(1) by (rule NewService_validated)
  note v = validated_delays [OF assms(1)]
  have sane: "sane_policy p" using v assms(2) by (simp add: p_def worker_retry_policy_def sane_policy_def)
  have sel: "rp_MaxDelay p = cfg_RetryMaxDelay cfg" "rp_BaseDelay p = cfg_RetryBaseDelay cfg"
    "rp_ExponentialBackoff p = cfg_RetryExponentialBackoff cfg" "rp_Jitter p = cfg_RetryJitter cfg"
    "rp_PressureMinDelay p = cfg_RetryPressureMinDelay cfg"
    by (simp_all add: p_def worker_retry_policy_def)
  have b: "0 < backoff p n r \<and> backoff p n r \<le> rp_MaxDelay p"
    using sane assms(5-7) by (rule backoff_range)
  have q: "0 < pressured p channel (backoff p n r)
      \<and> pressured p channel (backoff p n r) \<le> max (rp_MaxDelay p) (rp_PressureMinDelay p)"
    using sane b by (intro pressured_range) auto
  have j: "0 < retry_delay p draw channel n r
      \<and> retry_delay p draw channel n r \<le> max second (pressured p channel (backoff p n r) + max 0 (rp_Jitter p))"
    unfolding retry_delay_def
  proof (rule jittered_range)
    have "max (rp_MaxDelay p) (rp_PressureMinDelay p) < 2 ^ 61" using assms(2,3) by (simp add: sel)
    from order_le_less_trans [OF conjunct2 [OF q] this]
    show "pressured p channel (backoff p n r) < 2 ^ 62" by simp
  qed (use q assms(4,8) in \<open>simp_all add: sel\<close>)
  have "retry_delay p draw channel n r
      \<le> max second (max (rp_MaxDelay p) (rp_PressureMinDelay p) + max 0 (rp_Jitter p))"
    using conjunct2 [OF j] conjunct2 [OF q] by (meson add_right_mono max.mono order.refl order_trans)
  with conjunct1 [OF j] backoff_closed [OF sane assms(5-7)] show ?thesis
    unfolding sel new by (intro conjI)
qed

text \<open>The retries of a tenant whose own limit is below the base delay, under pressure.\<close>

definition slow_tenant :: resolved_policy where
  "slow_tenant = (default_policy ''t'' ''email'')\<lparr>res_RetryMaxDelaySeconds := Some 2\<rparr>"

lemma default_settings_valid: "Validate (\<lambda>_. True) (Load (\<lambda>_. [])) = None"
  by code_simp

theorem retry_delay_bounds_witness:
  "0 < retry_delay (NewService (worker_retry_policy (Load (\<lambda>_. [])) (\<lambda>_. 100))) (\<lambda>n. n - 1) ''email'' 3 slow_tenant
   \<and> backoff (NewService (worker_retry_policy (Load (\<lambda>_. [])) (\<lambda>_. 100))) 1 slow_tenant = 5 * second
   \<and> backoff (NewService (worker_retry_policy (Load (\<lambda>_. [])) (\<lambda>_. 100))) 3 slow_tenant = 2 * second"
proof (intro conjI)
  show "0 < retry_delay (NewService (worker_retry_policy (Load (\<lambda>_. [])) (\<lambda>_. 100))) (\<lambda>n. n - 1) ''email'' 3 slow_tenant"
    by (rule conjunct1 [OF conjunct2 [OF retry_delay_bounds [OF default_settings_valid]]]) code_simp+
qed code_simp+

end
