(* ===== verification/Delivery_Messages.thy ===== *)
theory Delivery_Messages
  imports Delivery_Parts
begin

text \<open>
  The outgoing messages of \<^verbatim>\<open>internal/delivery\<close>: identifiers that are safe in headers, the
  webhook request and the reading of its response, and the text of an email.
\<close>

subsection \<open>Identifiers and content types\<close>

definition safe_char :: "char \<Rightarrow> bool" where
  "safe_char c = (c \<in> set (''abcdefghijklmnopqrstuvwxyz'' @ ''ABCDEFGHIJKLMNOPQRSTUVWXYZ'' @ ''0123456789-_.''))"

definition sanitizeIdentifier :: "string \<Rightarrow> string" where
  "sanitizeIdentifier v = filter safe_char (trim_space v)"

definition contentTypeForBody :: "string \<Rightarrow> string" where
  "contentTypeForBody body = (let trimmed = trim_space body in
     if has_prefix trimmed ''{'' \<or> has_prefix trimmed ''['' then ''application/json''
     else ''text/plain; charset=utf-8'')"

definition stringPtrOrNil :: "string \<Rightarrow> string option" where
  "stringPtrOrNil v = (if trim_space v = [] then None else Some v)"

subsection \<open>Webhooks\<close>

record webhook_request =
  wrq_URL :: string
  wrq_Body :: string
  wrq_AttemptID :: string
  wrq_NotificationID :: string

text \<open>The POST request that goes out, and the reply; an absent header is the empty string.\<close>

record http_request =
  hrq_URL :: string
  hrq_Body :: string
  hrq_Header :: "(string \<times> string) list"

record http_response =
  hrs_StatusCode :: int
  hrs_Header :: "(string \<times> string) list"
  hrs_Body :: string

definition header_get :: "(string \<times> string) list \<Rightarrow> string \<Rightarrow> string" where
  "header_get h k = (case map_of h k of None \<Rightarrow> [] | Some v \<Rightarrow> v)"

definition id_headers :: "string list \<Rightarrow> string \<Rightarrow> (string \<times> string) list" where
  "id_headers names i = (let s = sanitizeIdentifier i in if s = [] then [] else map (\<lambda>k. (k, s)) names)"

definition webhook_message :: "webhook_request \<Rightarrow> http_request" where
  "webhook_message req = \<lparr>hrq_URL = wrq_URL req, hrq_Body = wrq_Body req,
     hrq_Header = (''Content-Type'', contentTypeForBody (wrq_Body req))
       # id_headers [''Idempotency-Key'', ''X-Notification-Attempt-ID''] (wrq_AttemptID req)
       @ id_headers [''X-Notification-ID''] (wrq_NotificationID req)\<rparr>"

text \<open>What \<open>Send\<close> returns for a response: the provider's identifier, and \<open>None\<close> for nil.\<close>

definition webhook_result :: "http_response \<Rightarrow> string \<times> cause option" where
  "webhook_result resp =
     (let bodySnippet = trim_space (take 512 (hrs_Body resp));
          providerID = trim_space (header_get (hrs_Header resp) ''X-Request-Id'');
          providerID = (if providerID = [] then trim_space (header_get (hrs_Header resp) ''X-Correlation-Id'')
            else providerID)
      in if hrs_StatusCode resp < 200 \<or> hrs_StatusCode resp \<ge> 300 then
           (providerID, Some (PlainError (''webhook returned '' @ Itoa (hrs_StatusCode resp)
              @ (if bodySnippet \<noteq> [] then '': '' @ bodySnippet else []))))
         else (providerID, None))"

subsection \<open>Emails\<close>

record email_request =
  erq_To :: string
  erq_Subject :: string
  erq_Body :: string
  erq_AttemptID :: string
  erq_NotificationID :: string

definition email_headers :: "string \<Rightarrow> email_request \<Rightarrow> string list" where
  "email_headers from req =
     [''To: '' @ erq_To req, ''From: '' @ from, ''Subject: '' @ erq_Subject req,
      ''MIME-Version: 1.0'', ''Content-Type: text/plain; charset=UTF-8'']
     @ (let i = sanitizeIdentifier (erq_AttemptID req) in
        if i \<noteq> [] then [''X-Notification-Attempt-ID: '' @ i, ''Message-ID: <'' @ i @ ''@notification-service>'']
        else [])
     @ (let i = sanitizeIdentifier (erq_NotificationID req) in
        if i \<noteq> [] then [''X-Notification-ID: '' @ i] else [])"

definition buildEmailMessage :: "string \<Rightarrow> email_request \<Rightarrow> string" where
  "buildEmailMessage from req =
     Join (email_headers from req) crlf @ crlf @ crlf @ lf_to_crlf (erq_Body req) @ crlf"

subsection \<open>How a receiver reads an email\<close>

text \<open>The lines up to the first empty one are headers, the rest is the body.\<close>

fun read_line :: "string \<Rightarrow> string \<times> string" where
  "read_line [] = ([], [])"
| "read_line [c] = ([c], [])"
| "read_line (c # d # s) = (if c = CR \<and> d = LF then ([], s)
     else let (l, r) = read_line (d # s) in (c # l, r))"

lemma read_line_shorter: "fst (read_line s) \<noteq> [] \<Longrightarrow> length (snd (read_line s)) < length s"
proof (induction s rule: read_line.induct)
  case (3 c d s)
  show ?case
  proof (cases "c = CR \<and> d = LF")
    case False
    obtain l r where lr: "read_line (d # s) = (l, r)" by (cases "read_line (d # s)")
    have "length r \<le> length (d # s)"
    proof (cases "l = []")
      case True
      then show ?thesis using lr by (cases s) (auto split: if_splits prod.splits)
    next
      case l: False
      then show ?thesis using 3 False lr by simp
    qed
    then show ?thesis using False lr by simp
  qed (use 3 in simp)
qed simp_all

function read_message :: "string \<Rightarrow> string list \<times> string" where
  "read_message s = (let (l, r) = read_line s in
     if l = [] then ([], r) else let (hs, b) = read_message r in (l # hs, b))"
  by auto
termination
  by (relation "measure length") (use read_line_shorter in \<open>auto simp: prod_eq_iff\<close>)

declare read_message.simps [simp del]

fun crlf_to_lf :: "string \<Rightarrow> string" where
  "crlf_to_lf (c # d # s) = (if c = CR \<and> d = LF then LF # crlf_to_lf s else c # crlf_to_lf (d # s))"
| "crlf_to_lf s = s"

definition one_line :: "string \<Rightarrow> bool" where
  "one_line s = list_all (\<lambda>c. c \<noteq> CR \<and> c \<noteq> LF) s"

lemma one_line_simps [simp]:
  "one_line []" "one_line (c # s) \<longleftrightarrow> c \<noteq> CR \<and> c \<noteq> LF \<and> one_line s"
  "one_line (s @ t) \<longleftrightarrow> one_line s \<and> one_line t"
  by (simp_all add: one_line_def)

lemma read_line_crlf: "one_line l \<Longrightarrow> read_line (l @ crlf @ r) = (l, r)"
proof (induction l)
  case (Cons c l)
  then show ?case by (cases "l @ crlf @ r") (auto simp: crlf_def)
qed (simp add: crlf_def)

lemma read_message_line:
  "one_line l \<Longrightarrow> l \<noteq> [] \<Longrightarrow> read_message (l @ crlf @ r) = (l # fst (read_message r), snd (read_message r))"
  by (subst read_message.simps) (simp add: read_line_crlf split: prod.split)

lemma read_message_end: "read_message (crlf @ r) = ([], r)"
  by (subst read_message.simps) (simp add: crlf_def)

lemma read_message_headers:
  assumes "list_all one_line hs" "[] \<notin> set hs"
  shows "read_message (concat (map (\<lambda>h. h @ crlf) hs) @ crlf @ b) = (hs, b)"
  using assms by (induction hs) (auto simp: read_message_line read_message_end)

lemma Join_crlf: "hs \<noteq> [] \<Longrightarrow> Join hs crlf @ crlf = concat (map (\<lambda>h. h @ crlf) hs)"
  by (induction hs crlf rule: Join.induct) auto

lemma crlf_to_lf_lf_to_crlf: "crlf_to_lf (lf_to_crlf s @ crlf) = s @ [LF]"
proof (induction s)
  case (Cons c s)
  show ?case
  proof (cases "c = LF")
    case True
    with Cons show ?thesis by (simp add: lf_to_crlf_def crlf_def)
  next
    case False
    obtain d t where dt: "lf_to_crlf s @ crlf = d # t" by (cases "lf_to_crlf s @ crlf") (auto simp: crlf_def)
    have "d \<noteq> LF"
      using dt by (cases s) (auto simp: lf_to_crlf_def crlf_def split: if_splits)
    then have "crlf_to_lf (c # lf_to_crlf s @ crlf) = c # crlf_to_lf (lf_to_crlf s @ crlf)"
      by (simp add: dt)
    with Cons False show ?thesis by (simp add: lf_to_crlf_def)
  qed
qed (simp add: lf_to_crlf_def crlf_def)

lemma one_line_sanitized: "one_line (sanitizeIdentifier v)"
  by (auto simp: one_line_def sanitizeIdentifier_def list_all_iff safe_char_def CR_def LF_def)

lemma email_headers_lines:
  assumes "one_line from" "one_line (erq_To req)" "one_line (erq_Subject req)"
  shows "list_all one_line (email_headers from req) \<and> [] \<notin> set (email_headers from req) \<and> email_headers from req \<noteq> []"
  using assms one_line_sanitized by (simp add: email_headers_def Let_def CR_def LF_def)

text \<open>
  C23.  An email whose addresses and subject are single lines is read back as it was meant: the
  receiver sees exactly the headers of \<open>email_headers\<close> and, with the line ends undone, the
  rendered body and one final line end, whatever the body and the identifiers contain.
\<close>

theorem email_roundtrip:
  assumes "one_line from" "one_line (erq_To req)" "one_line (erq_Subject req)"
  shows "fst (read_message (buildEmailMessage from req)) = email_headers from req
    \<and> crlf_to_lf (snd (read_message (buildEmailMessage from req))) = erq_Body req @ [LF]"
proof -
  note h = email_headers_lines [OF assms]
  have "buildEmailMessage from req
      = concat (map (\<lambda>h. h @ crlf) (email_headers from req)) @ crlf @ (lf_to_crlf (erq_Body req) @ crlf)"
    using h Join_crlf [of "email_headers from req"] unfolding buildEmailMessage_def
    by (metis append.assoc)
  then have "read_message (buildEmailMessage from req) = (email_headers from req, lf_to_crlf (erq_Body req) @ crlf)"
    using h by (simp add: read_message_headers)
  then show ?thesis by (simp add: crlf_to_lf_lf_to_crlf)
qed

definition sample_email :: email_request where
  "sample_email = \<lparr>erq_To = ''a@b'', erq_Subject = ''hello'', erq_Body = [CHR ''.'', LF, LF, CHR ''x''],
     erq_AttemptID = [CHR ''7'', LF, CHR ''/''], erq_NotificationID = ''''\<rparr>"

theorem email_roundtrip_witness:
  "fst (read_message (buildEmailMessage ''s@t'' sample_email)) =
     [''To: a@b'', ''From: s@t'', ''Subject: hello'', ''MIME-Version: 1.0'',
      ''Content-Type: text/plain; charset=UTF-8'', ''X-Notification-Attempt-ID: 7'',
      ''Message-ID: <7@notification-service>'']
   \<and> crlf_to_lf (snd (read_message (buildEmailMessage ''s@t'' sample_email))) = [CHR ''.'', LF, LF, CHR ''x'', LF]"
proof -
  have "one_line ''s@t''" "one_line (erq_To sample_email)" "one_line (erq_Subject sample_email)"
    by code_simp+
  note r = email_roundtrip [OF this]
  have "email_headers ''s@t'' sample_email = [''To: a@b'', ''From: s@t'', ''Subject: hello'', ''MIME-Version: 1.0'',
      ''Content-Type: text/plain; charset=UTF-8'', ''X-Notification-Attempt-ID: 7'',
      ''Message-ID: <7@notification-service>'']" by code_simp
  with r show ?thesis by (simp add: sample_email_def)
qed

lemma fourth_line:
  assumes "one_line a" "a \<noteq> []" "one_line b" "b \<noteq> []" "one_line c" "c \<noteq> []" "one_line h" "h \<noteq> []"
  shows "h \<in> set (fst (read_message (a @ crlf @ b @ crlf @ c @ crlf @ h @ crlf @ t)))"
  using assms by (simp add: read_message_line)

text \<open>
  The subject is the template's name, of which only the ends are trimmed.  A line break
  inside it ends the header: the receiver then sees what follows as headers of the message.
\<close>

theorem subject_injects_headers:
  assumes "one_line from" "one_line (erq_To req)" "one_line s" "one_line h" "h \<noteq> []"
    and "erq_Subject req = s @ crlf @ h"
  shows "h \<in> set (fst (read_message (buildEmailMessage from req)))"
proof -
  define rest where "rest = drop 3 (email_headers from req)"
  have hs: "email_headers from req = [''To: '' @ erq_To req, ''From: '' @ from, ''Subject: '' @ s @ crlf @ h] @ rest"
    by (simp add: rest_def email_headers_def assms(6))
  have "rest \<noteq> []" by (simp add: rest_def email_headers_def)
  then obtain t where "buildEmailMessage from req =
      (''To: '' @ erq_To req) @ crlf @ (''From: '' @ from) @ crlf @ (''Subject: '' @ s) @ crlf @ h @ crlf @ t"
    unfolding buildEmailMessage_def hs by (cases rest) (auto simp: append_assoc)
  then show ?thesis
    using fourth_line [of "''To: '' @ erq_To req" "''From: '' @ from" "''Subject: '' @ s" h t] assms(1-5)
    by (simp add: CR_def LF_def)
qed

definition sample_injection :: email_request where
  "sample_injection = sample_email\<lparr>erq_Subject := ''hi'' @ crlf @ ''Bcc: c@d''\<rparr>"

theorem subject_injects_headers_witness:
  "''Bcc: c@d'' \<in> set (fst (read_message (buildEmailMessage ''s@t'' sample_injection)))"
  by (rule subject_injects_headers [of _ _ "''hi''"])
    (simp_all add: sample_injection_def sample_email_def CR_def LF_def)

end
