(* ===== verification/Delivery_Senders.thy ===== *)
theory Delivery_Senders
  imports Delivery_Messages Store_Dispatch
begin

text \<open>
  How a rendered message leaves the process (\<^verbatim>\<open>internal/delivery/{render,webhook,email}.go\<close> and
  the two senders inside \<^verbatim>\<open>ProcessWebhook\<close> and \<^verbatim>\<open>ProcessEmail\<close> of \<^verbatim>\<open>service.go\<close>).

  The world of a worker adds to the store's world what it exchanges with the providers: the log of
  what it has sent them, and their answers, which may depend on everything sent before.  The
  template engine, the URL parser and the providers are parameters; the code relies on nothing
  about them.
\<close>

subsection \<open>The world of a worker\<close>

text \<open>
  One SMTP session is a sequence of commands; an answer is \<open>None\<close> or the text of an error.
\<close>

datatype smtp_command = Dial string int | Greet string bool | StartTLS | Authenticate string string
  | MailFrom string | RcptTo string | OpenData | WriteData string | CloseData | Quit

datatype http_reply = NoReply string | Reply http_response

datatype event = Posted http_request | Smtp smtp_command

record worker_world = world +
  ww_log :: "event list"
  ww_url_error :: "string \<Rightarrow> string option"
  ww_http :: "event list \<Rightarrow> http_request \<Rightarrow> http_reply"
  ww_smtp :: "event list \<Rightarrow> smtp_command \<Rightarrow> string option"
  ww_extension :: "event list \<Rightarrow> string \<Rightarrow> bool"
  ww_ids :: "nat \<Rightarrow> string"
  ww_draws :: "nat \<Rightarrow> int \<Rightarrow> int"
  ww_calls :: nat

type_synonym ('x, 'a) wm = "('x worker_world_scheme, 'a) sm"

definition http_Do :: "http_request \<Rightarrow> ('x, http_reply) wm" where
  "http_Do req w = (Inr (ww_http w (ww_log w) req), w\<lparr>ww_log := ww_log w @ [Posted req]\<rparr>)"

definition smtp_call :: "smtp_command \<Rightarrow> ('x, string option) wm" where
  "smtp_call c w = (Inr (ww_smtp w (ww_log w) c), w\<lparr>ww_log := ww_log w @ [Smtp c]\<rparr>)"

definition client_Extension :: "string \<Rightarrow> ('x, bool) wm" where
  "client_Extension name w = (Inr (ww_extension w (ww_log w) name), w)"

text \<open>\<^verbatim>\<open>policy.IDGenerator()\<close> and \<^verbatim>\<open>policy.RandSource\<close>: the n-th call gives the n-th value.\<close>

definition IDGenerator :: "('x, string) wm" where
  "IDGenerator w = (Inr (ww_ids w (ww_calls w)), w\<lparr>ww_calls := Suc (ww_calls w)\<rparr>)"

definition RandSource :: "('x, int \<Rightarrow> int) wm" where
  "RandSource w = (Inr (ww_draws w (ww_calls w)), w\<lparr>ww_calls := Suc (ww_calls w)\<rparr>)"

subsection \<open>Rendering\<close>

text \<open>\<^verbatim>\<open>text/template\<close>: parsing with \<^verbatim>\<open>missingkey=error\<close> and executing, each with its error.\<close>

record 'm text_template =
  tt_Parse :: "string \<Rightarrow> string + 'm"
  tt_Execute :: "'m \<Rightarrow> json \<Rightarrow> string + string"

definition RenderTemplate :: "'m text_template \<Rightarrow> string \<Rightarrow> json \<Rightarrow> cause + string" where
  "RenderTemplate tt body variables = (case tt_Parse tt body of
     Inl e \<Rightarrow> Inl (WrappedError ''parse template body'' (PlainError e))
   | Inr tmpl \<Rightarrow> (case tt_Execute tt tmpl (if variables = JNull then JObject [] else variables) of
         Inl e \<Rightarrow> Inl (WrappedError ''render template body'' (PlainError e))
       | Inr s \<Rightarrow> Inr s))"

subsection \<open>The webhook sender\<close>

text \<open>\<^verbatim>\<open>http.NewRequestWithContext\<close> refuses a URL it cannot parse; then nothing is sent.\<close>

definition WebhookSend :: "webhook_request \<Rightarrow> ('x, string \<times> cause option) wm" where
  "WebhookSend req w = (case ww_url_error w (wrq_URL req) of
     Some e \<Rightarrow> (Inr ([], Some (WrappedError ''build webhook request'' (PlainError e))), w)
   | None \<Rightarrow> andThen (http_Do (webhook_message req)) (\<lambda>reply. return (case reply of
         NoReply e \<Rightarrow> ([], Some (WrappedError ''send webhook request'' (PlainError e)))
       | Reply resp \<Rightarrow> webhook_result resp)) w)"

subsection \<open>The SMTP sender\<close>

record smtp_settings =
  smtp_Host :: string
  smtp_Port :: int
  smtp_Username :: string
  smtp_Password :: string
  smtp_From :: string
  smtp_UseTLS :: bool
  smtp_StartTLS :: bool

definition NewSMTPSender :: "config \<Rightarrow> smtp_settings" where
  "NewSMTPSender cfg = \<lparr>smtp_Host = cfg_SMTPHost cfg, smtp_Port = cfg_SMTPPort cfg,
     smtp_Username = cfg_SMTPUsername cfg, smtp_Password = cfg_SMTPPassword cfg,
     smtp_From = cfg_SMTPFrom cfg, smtp_UseTLS = cfg_SMTPUseTLS cfg, smtp_StartTLS = cfg_SMTPStartTLS cfg\<rparr>"

definition NewSecondarySMTPSender :: "config \<Rightarrow> smtp_settings option" where
  "NewSecondarySMTPSender cfg =
     (if trim_space (cfg_SecondarySMTPHost cfg) = [] \<or> cfg_SecondarySMTPPort cfg \<le> 0 then None
      else Some (NewSMTPSender (cfg\<lparr>cfg_SMTPHost := cfg_SecondarySMTPHost cfg,
        cfg_SMTPPort := cfg_SecondarySMTPPort cfg, cfg_SMTPUsername := cfg_SecondarySMTPUsername cfg,
        cfg_SMTPPassword := cfg_SecondarySMTPPassword cfg,
        cfg_SMTPFrom := (if trim_space (cfg_SecondarySMTPFrom cfg) \<noteq> [] then cfg_SecondarySMTPFrom cfg
          else cfg_SMTPFrom cfg),
        cfg_SMTPUseTLS := cfg_SecondarySMTPUseTLS cfg, cfg_SMTPStartTLS := cfg_SecondarySMTPStartTLS cfg,
        cfg_SMTPInsecureSkipVerify := cfg_SecondarySMTPInsecureSkipVerify cfg\<rparr>)))"

text \<open>\<^verbatim>\<open>if err := ...; err != nil { return fmt.Errorf("what: %w", err) }\<close>\<close>

definition attempting :: "string \<Rightarrow> smtp_command \<Rightarrow> ('x, cause option) wm \<Rightarrow> ('x, cause option) wm" where
  "attempting what c rest = andThen (smtp_call c) (\<lambda>r. case r of
     Some e \<Rightarrow> return (Some (WrappedError what (PlainError e))) | None \<Rightarrow> rest)"

text \<open>
  \<^verbatim>\<open>net/smtp\<close> refuses an address with a line break before it talks to the server.
\<close>

definition validated_line :: "string \<Rightarrow> string \<Rightarrow> ('x, cause option) wm \<Rightarrow> ('x, cause option) wm" where
  "validated_line what line rest = (if one_line line then rest
     else return (Some (WrappedError what (PlainError ''smtp: A line must not contain CR or LF''))))"

definition transfer :: "smtp_settings \<Rightarrow> email_request \<Rightarrow> ('x, cause option) wm" where
  "transfer cfg req =
     validated_line ''set smtp from'' (smtp_From cfg)
     (attempting ''set smtp from'' (MailFrom (smtp_From cfg))
     (validated_line ''set smtp recipient'' (erq_To req)
     (attempting ''set smtp recipient'' (RcptTo (erq_To req))
     (attempting ''start smtp data'' OpenData
     (andThen (smtp_call (WriteData (buildEmailMessage (smtp_From cfg) req))) (\<lambda>r. case r of
        Some e \<Rightarrow> andThen (smtp_call CloseData) (\<lambda>_.
          return (Some (WrappedError ''write smtp message'' (PlainError e))))
      | None \<Rightarrow>
          attempting ''finish smtp message'' CloseData
          (attempting ''smtp quit'' Quit (return None))))))))"

definition authenticated :: "smtp_settings \<Rightarrow> ('x, cause option) wm \<Rightarrow> ('x, cause option) wm" where
  "authenticated cfg rest = (if smtp_Username cfg = [] then rest
     else andThen (client_Extension ''AUTH'') (\<lambda>ok.
       if ok then attempting ''smtp auth'' (Authenticate (smtp_Username cfg) (smtp_Password cfg)) rest
       else rest))"

definition encrypted :: "smtp_settings \<Rightarrow> ('x, cause option) wm \<Rightarrow> ('x, cause option) wm" where
  "encrypted cfg rest = (if \<not> smtp_StartTLS cfg then rest
     else andThen (client_Extension ''STARTTLS'') (\<lambda>ok.
       if ok then attempting ''starttls'' StartTLS rest
       else return (Some (PlainError ''smtp server does not support STARTTLS''))))"

definition SMTPSend :: "smtp_settings \<Rightarrow> email_request \<Rightarrow> ('x, cause option) wm" where
  "SMTPSend cfg req =
     attempting ''dial smtp server'' (Dial (smtp_Host cfg) (smtp_Port cfg))
     (attempting ''create smtp client'' (Greet (smtp_Host cfg) (smtp_UseTLS cfg))
     (encrypted cfg (authenticated cfg (transfer cfg req))))"

subsection \<open>The senders of the two channels\<close>

text \<open>
  What a sender gives the service: the provider's message identifier, the name of the provider,
  whether the secondary one was used, and the error.
\<close>

record sending =
  snd_ProviderID :: "string option"
  snd_ProviderName :: string
  snd_FailoverUsed :: bool
  snd_Error :: "cause option"

definition not_sent :: "string \<Rightarrow> cause \<Rightarrow> sending" where
  "not_sent name e = \<lparr>snd_ProviderID = None, snd_ProviderName = name, snd_FailoverUsed = False, snd_Error = Some e\<rparr>"

definition sent_by :: "string option \<Rightarrow> string \<Rightarrow> bool \<Rightarrow> sending" where
  "sent_by i name failover = \<lparr>snd_ProviderID = i, snd_ProviderName = name, snd_FailoverUsed = failover, snd_Error = None\<rparr>"

definition blank :: "string option \<Rightarrow> bool" where
  "blank v = (case v of None \<Rightarrow> True | Some s \<Rightarrow> trim_space s = [])"

definition webhook_to :: "dispatch_job \<Rightarrow> notification \<Rightarrow> string option \<Rightarrow> string \<Rightarrow> webhook_request" where
  "webhook_to job n url body = \<lparr>wrq_URL = the url, wrq_Body = body, wrq_AttemptID = job_AttemptID job,
     wrq_NotificationID = ntf_ID n\<rparr>"

text \<open>\<open>backup\<close> tells whether a secondary webhook sender is configured.\<close>

definition webhook_sender ::
  "'m text_template \<Rightarrow> bool \<Rightarrow> dispatch_job \<Rightarrow> notification \<Rightarrow> template \<Rightarrow> resolved_policy \<Rightarrow> ('x, sending) wm" where
  "webhook_sender tt backup job n tp pol =
     (if blank (ntf_RecipientWebhookURL n) then
        return (not_sent '''' (TerminalError (PlainError ''recipient_webhook_url is required'')))
      else case RenderTemplate tt (tpl_Body tp) (ntf_Variables n) of
        Inl e \<Rightarrow> return (not_sent '''' (TerminalError e))
      | Inr body \<Rightarrow>
          andThen (WebhookSend (webhook_to job n (ntf_RecipientWebhookURL n) body)) (\<lambda>(providerID, r). case r of
            None \<Rightarrow> return (sent_by (if providerID = [] then None else Some providerID) ''webhook_primary'' False)
          | Some e \<Rightarrow>
              if IsRetryable (MaybeRetryable e) \<and> res_FailoverEnabled pol \<and> backup
                  \<and> \<not> blank (ntf_SecondaryWebhookURL n) then
                andThen (WebhookSend (webhook_to job n (ntf_SecondaryWebhookURL n) body)) (\<lambda>(backupID, r2). return
                  (if r2 = None then sent_by (stringPtrOrNil backupID) ''webhook_secondary'' True
                   else not_sent ''webhook_primary'' (MaybeRetryable e)))
              else return (not_sent ''webhook_primary'' (MaybeRetryable e))))"

definition email_subject :: "notification \<Rightarrow> template \<Rightarrow> string" where
  "email_subject n tp = (if trim_space (tpl_Name tp) = [] then ''notification '' @ ntf_ID n
     else trim_space (tpl_Name tp))"

definition email_to :: "dispatch_job \<Rightarrow> notification \<Rightarrow> template \<Rightarrow> string \<Rightarrow> email_request" where
  "email_to job n tp body = \<lparr>erq_To = the (ntf_RecipientEmail n), erq_Subject = email_subject n tp,
     erq_Body = body, erq_AttemptID = job_AttemptID job, erq_NotificationID = ntf_ID n\<rparr>"

definition email_sender ::
  "'m text_template \<Rightarrow> smtp_settings \<Rightarrow> smtp_settings option \<Rightarrow> dispatch_job \<Rightarrow> notification \<Rightarrow> template \<Rightarrow>
     resolved_policy \<Rightarrow> ('x, sending) wm" where
  "email_sender tt primary backup job n tp pol =
     (if blank (ntf_RecipientEmail n) then
        return (not_sent '''' (TerminalError (PlainError ''recipient_email is required'')))
      else case RenderTemplate tt (tpl_Body tp) (ntf_Variables n) of
        Inl e \<Rightarrow> return (not_sent '''' (TerminalError e))
      | Inr body \<Rightarrow>
          andThen (SMTPSend primary (email_to job n tp body)) (\<lambda>r. case r of
            None \<Rightarrow> return (sent_by None ''smtp_primary'' False)
          | Some e \<Rightarrow> (case backup of
                Some secondary \<Rightarrow>
                  if IsRetryable (MaybeRetryable e) \<and> res_FailoverEnabled pol then
                    andThen (SMTPSend secondary (email_to job n tp body)) (\<lambda>r2. return
                      (if r2 = None then sent_by None ''smtp_secondary'' True
                       else not_sent ''smtp_primary'' (MaybeRetryable e)))
                  else return (not_sent ''smtp_primary'' (MaybeRetryable e))
              | None \<Rightarrow> return (not_sent ''smtp_primary'' (MaybeRetryable e)))))"

subsection \<open>What a sender may do\<close>

text \<open>
  A sender only adds to the log.  \<open>talks m P\<close>: the computation always gives a result, and what
  it sends, with that result, satisfies \<open>P\<close>.
\<close>

definition talks :: "('x, 'a) wm \<Rightarrow> (event list \<Rightarrow> 'a \<Rightarrow> bool) \<Rightarrow> bool" where
  "talks m P \<longleftrightarrow> (\<forall>w. \<exists>es x. m w = (Inr x, w\<lparr>ww_log := ww_log w @ es\<rparr>) \<and> P es x)"

named_theorems talk_intros \<open>what a sender may do, construct by construct\<close>

lemma talks_mono: "talks m P \<Longrightarrow> (\<And>es x. P es x \<Longrightarrow> Q es x) \<Longrightarrow> talks m Q"
  unfolding talks_def by meson

lemma talksI: "(\<And>w. m w = (Inr (f w), w\<lparr>ww_log := ww_log w @ es\<rparr>) \<and> P es (f w)) \<Longrightarrow> talks m P"
  unfolding talks_def by blast

lemma talks_return [talk_intros]: "P [] x \<Longrightarrow> talks (return x) P"
  by (rule talksI [where es = "[]"]) (simp add: return_def)

lemma talks_andThen [talk_intros]:
  assumes "talks m (\<lambda>es x. talks (k x) (\<lambda>es'. P (es @ es')))"
  shows "talks (andThen m k) P"
  unfolding talks_def
proof
  fix w
  from assms obtain es x where m: "m w = (Inr x, w\<lparr>ww_log := ww_log w @ es\<rparr>)"
    and "talks (k x) (\<lambda>es'. P (es @ es'))" unfolding talks_def by blast
  then obtain es' y where "k x (w\<lparr>ww_log := ww_log w @ es\<rparr>) = (Inr y, w\<lparr>ww_log := ww_log w @ es @ es'\<rparr>)"
    and "P (es @ es') y"
    unfolding talks_def by (drule_tac x = "w\<lparr>ww_log := ww_log w @ es\<rparr>" in spec) auto
  with m show "\<exists>es x. andThen m k w = (Inr x, w\<lparr>ww_log := ww_log w @ es\<rparr>) \<and> P es x"
    by (auto simp: andThen_eq)
qed

lemma talks_If [talk_intros]: "(b \<Longrightarrow> talks m P) \<Longrightarrow> (\<not> b \<Longrightarrow> talks n P) \<Longrightarrow> talks (if b then m else n) P"
  by simp

lemma talks_case_option [talk_intros]:
  "(v = None \<Longrightarrow> talks m P) \<Longrightarrow> (\<And>x. v = Some x \<Longrightarrow> talks (k x) P) \<Longrightarrow>
     talks (case v of None \<Rightarrow> m | Some x \<Rightarrow> k x) P"
  by (cases v) simp_all

lemma talks_case_sum [talk_intros]:
  "(\<And>x. v = Inl x \<Longrightarrow> talks (h x) P) \<Longrightarrow> (\<And>x. v = Inr x \<Longrightarrow> talks (k x) P) \<Longrightarrow>
     talks (case v of Inl x \<Rightarrow> h x | Inr x \<Rightarrow> k x) P"
  by (cases v) simp_all

lemma talks_case_prod [talk_intros]:
  "(\<And>x y. v = (x, y) \<Longrightarrow> talks (k x y) P) \<Longrightarrow> talks (case v of (x, y) \<Rightarrow> k x y) P"
  by (cases v) simp

lemma talks_http_Do [talk_intros]: "(\<And>r. P [Posted req] r) \<Longrightarrow> talks (http_Do req) P"
  by (rule talksI [where es = "[Posted req]"]) (simp add: http_Do_def)

lemma talks_smtp_call [talk_intros]: "(\<And>r. P [Smtp c] r) \<Longrightarrow> talks (smtp_call c) P"
  by (rule talksI [where es = "[Smtp c]"]) (simp add: smtp_call_def)

lemma talks_client_Extension [talk_intros]: "(\<And>r. P [] r) \<Longrightarrow> talks (client_Extension name) P"
  by (rule talksI [where es = "[]"]) (simp add: client_Extension_def)

text \<open>A contact is a request or the opening of a session.\<close>

fun is_contact :: "event \<Rightarrow> bool" where
  "is_contact (Posted _) = True"
| "is_contact (Smtp (Dial _ _)) = True"
| "is_contact _ = False"

definition contacts :: "event list \<Rightarrow> nat" where
  "contacts es = length (filter is_contact es)"

lemma contacts_simps [simp]:
  "contacts [] = 0" "contacts (e # es) = (if is_contact e then Suc (contacts es) else contacts es)"
  "contacts (es @ es') = contacts es + contacts es'"
  by (simp_all add: contacts_def)

lemma talks_WebhookSend:
  "talks (WebhookSend req) (\<lambda>es (i, r). contacts es \<le> 1 \<and> (r = None \<longrightarrow> contacts es = 1))"
proof -
  have "talks (andThen (http_Do (webhook_message req)) (\<lambda>reply. return (case reply of
         NoReply e \<Rightarrow> ([], Some (WrappedError ''send webhook request'' (PlainError e)))
       | Reply resp \<Rightarrow> webhook_result resp)))
     (\<lambda>es (i, r). contacts es \<le> 1 \<and> (r = None \<longrightarrow> contacts es = 1))"
    by (intro talk_intros) (simp split: prod.split)
  moreover have "\<exists>es x. (Inr ([], Some c) :: err + string \<times> cause option, w) = (Inr x, w\<lparr>ww_log := ww_log w @ es\<rparr>)
      \<and> (case x of (i, r) \<Rightarrow> contacts es \<le> 1 \<and> (r = None \<longrightarrow> contacts es = 1))" for c and w :: "'b worker_world_scheme"
    by (intro exI [of _ "[]"] exI [of _ "([], Some c)"]) simp
  ultimately show ?thesis
    unfolding talks_def WebhookSend_def by (auto split: option.split)
qed

lemma talks_quiet:
  "talks (transfer cfg req) (\<lambda>es r. contacts es = 0)"
  "talks m (\<lambda>es r. contacts es = 0) \<Longrightarrow> talks (authenticated cfg m) (\<lambda>es r. contacts es = 0)"
  "talks m (\<lambda>es r. contacts es = 0) \<Longrightarrow> talks (encrypted cfg m) (\<lambda>es r. contacts es = 0)"
  unfolding transfer_def authenticated_def encrypted_def validated_line_def attempting_def
  by (intro talk_intros; simp)+

lemma talks_SMTPSend: "talks (SMTPSend cfg req) (\<lambda>es r. contacts es = 1)"
  unfolding SMTPSend_def attempting_def
  by (intro talk_intros) (simp_all add: talks_quiet)

end
