(* ===== verification/Delivery_Service.thy ===== *)
theory Delivery_Service
  imports Delivery_Senders Store_Lifecycle Go_Time
begin

text \<open>
  One delivery attempt from queue job to durable outcome: \<^verbatim>\<open>Service\<close> in
  \<^verbatim>\<open>internal/delivery/service.go\<close>.  The counters of OpenTelemetry and the log lines are left out.

  A call gives \<open>Inl e\<close> where the code returns \<^verbatim>\<open>Result{}, err\<close> with an error of the store, and
  \<open>Inr (result, cause)\<close> otherwise, where \<open>cause\<close> is the sender's failure that goes with the result.
\<close>

subsection \<open>The service\<close>

datatype delivery_outcome = OutcomeSent | OutcomeFailedTerminal | OutcomeRetryScheduled
  | OutcomeDeadLettered | OutcomeDuplicateSuppressed

record result =
  rsl_Outcome :: delivery_outcome
  rsl_NextRetryAt :: "time option"
  rsl_DeadLetter :: "dead_letter option"
  rsl_Message :: string

definition result_of :: "delivery_outcome \<Rightarrow> result" where
  "result_of out = \<lparr>rsl_Outcome = out, rsl_NextRetryAt = None, rsl_DeadLetter = None, rsl_Message = ''''\<rparr>"

fun status_text :: "attempt_status \<Rightarrow> string" where
  "status_text Pending = ''pending''"
| "status_text InProgress = ''in_progress''"
| "status_text Sent = ''sent''"
| "status_text Delivered = ''delivered''"
| "status_text Failed = ''failed''"
| "status_text RetryScheduled = ''retry_scheduled''"
| "status_text DeadLettered = ''dead_lettered''"

text \<open>\<^verbatim>\<open>_ = s.store.RecordAuditEvent(ctx, s.policy.IDGenerator(), tenantID, "worker", ...)\<close>\<close>

definition audit :: "string \<Rightarrow> string \<Rightarrow> string \<Rightarrow> (string \<times> json) list \<Rightarrow> ('x, unit) wm" where
  "audit tenantID action attemptID metadata = andThen IDGenerator (\<lambda>i.
     ignore (RecordAuditEvent i tenantID ''worker'' action ''delivery_attempt'' attemptID (JObject metadata)))"

definition nextRetryAt :: "retry_policy \<Rightarrow> string \<Rightarrow> int \<Rightarrow> resolved_policy \<Rightarrow> ('x, time) wm" where
  "nextRetryAt p channel attemptNumber resolved =
     andThen (if rp_Jitter p > 0 then RandSource else return (\<lambda>_. 0)) (\<lambda>draw.
     andThen time_Now (\<lambda>now. return (now + retry_delay p draw channel attemptNumber resolved)))"

definition max_attempts :: "retry_policy \<Rightarrow> resolved_policy \<Rightarrow> int" where
  "max_attempts p resolved = (case res_MaxAttemptsOverride resolved of
     Some n \<Rightarrow> if n > 0 then n else rp_MaxAttempts p | None \<Rightarrow> rp_MaxAttempts p)"

definition handleRetryable :: "retry_policy \<Rightarrow> notification \<Rightarrow> attempt \<Rightarrow> string \<Rightarrow> resolved_policy \<Rightarrow> cause \<Rightarrow>
    ('x, result \<times> cause option) wm" where
  "handleRetryable p n a channel resolved e =
     (if att_AttemptNumber a \<ge> max_attempts p resolved then
        andThen (MarkAttemptDeadLettered (att_ID a) (Error e)) (\<lambda>_.
        andThen IDGenerator (\<lambda>i.
        andThen (InsertDeadLetter i (ntf_ID n) channel (Error e)) (\<lambda>dl.
        andThen (audit (ntf_TenantID n) ''dead_lettered'' (att_ID a)
          [(''notification_id'', JString (ntf_ID n)), (''dead_letter_id'', JString (dl_ID dl)),
           (''channel'', JString channel), (''error'', JString (Error e))]) (\<lambda>_.
        return ((result_of OutcomeDeadLettered)\<lparr>rsl_DeadLetter := Some dl\<rparr>, Some e)))))
      else
        andThen (nextRetryAt p channel (att_AttemptNumber a) resolved) (\<lambda>t.
        andThen (ScheduleRetry (att_ID a) (Error e) t) (\<lambda>_.
        andThen (audit (ntf_TenantID n) ''retry_scheduled'' (att_ID a)
          [(''notification_id'', JString (ntf_ID n)), (''channel'', JString channel),
           (''next_retry_at'', JString (Format_RFC3339Nano t)), (''error'', JString (Error e))]) (\<lambda>_.
        return ((result_of OutcomeRetryScheduled)\<lparr>rsl_NextRetryAt := Some t\<rparr>, Some e)))))"

definition failTerminal :: "string \<Rightarrow> string \<Rightarrow> string \<Rightarrow> cause \<Rightarrow> ('x, result \<times> cause option) wm" where
  "failTerminal tenantID attemptID channel e =
     andThen (MarkAttemptFailed attemptID (Error e)) (\<lambda>_.
     andThen (handle (GetDeliveryAttemptByID attemptID) (\<lambda>_. return ()) (\<lambda>a.
       audit tenantID ''attempt_failed'' attemptID
         [(''notification_id'', JString (att_NotificationID a)), (''channel'', JString channel),
          (''error'', JString (Error e))])) (\<lambda>_.
     return (result_of OutcomeFailedTerminal, Some e)))"

definition record_sent :: "dispatch_job \<Rightarrow> sending \<Rightarrow> ('x, result \<times> cause option) wm" where
  "record_sent job s =
     andThen (MarkAttemptSent (job_AttemptID job) (snd_ProviderID s)) (\<lambda>_.
     andThen (if snd_ProviderName s \<noteq> [] then
         ignore (UpdateAttemptProvider (job_AttemptID job) (snd_ProviderName s) (snd_FailoverUsed s))
       else return ()) (\<lambda>_.
     andThen (if snd_FailoverUsed s then
         audit (job_TenantID job) ''provider_failover_used'' (job_AttemptID job)
           [(''notification_id'', JString (job_NotificationID job)), (''channel'', JString (job_Channel job)),
            (''provider'', JString (snd_ProviderName s))]
       else return ()) (\<lambda>_.
     andThen (audit (job_TenantID job) ''attempt_sent'' (job_AttemptID job)
       [(''notification_id'', JString (job_NotificationID job)), (''channel'', JString (job_Channel job))]) (\<lambda>_.
     return (result_of OutcomeSent, None)))))"

definition suppress_duplicate :: "dispatch_job \<Rightarrow> ('x, result \<times> cause option) wm" where
  "suppress_duplicate job =
     andThen (GetDeliveryAttemptByID (job_AttemptID job)) (\<lambda>a.
     andThen (audit (job_TenantID job) ''duplicate_job_suppressed'' (job_AttemptID job)
       [(''notification_id'', JString (job_NotificationID job)), (''channel'', JString (job_Channel job)),
        (''status'', JString (status_text (att_Status a)))]) (\<lambda>_.
     return ((result_of OutcomeDuplicateSuppressed)\<lparr>rsl_Message := ''duplicate job suppressed for attempt ''
       @ job_AttemptID job @ '' in state '' @ status_text (att_Status a)\<rparr>, None)))"

type_synonym 'x channel_sender =
  "dispatch_job \<Rightarrow> notification \<Rightarrow> template \<Rightarrow> resolved_policy \<Rightarrow> ('x, sending) wm"

text \<open>The part of \<^verbatim>\<open>process\<close> after the activation.\<close>

definition deliver :: "retry_policy \<Rightarrow> 'x channel_sender \<Rightarrow> dispatch_job \<Rightarrow> ('x, result \<times> cause option) wm" where
  "deliver p sender job =
     andThen (LoadDeliveryJob (job_NotificationID job) (job_AttemptID job)) (\<lambda>(n, tp, a).
     andThen (ResolveDeliveryPolicy (ntf_TenantID n) (job_Channel job)) (\<lambda>resolved.
     andThen (sender job n tp resolved) (\<lambda>s. case snd_Error s of
         None \<Rightarrow> record_sent job s
       | Some e \<Rightarrow> if IsRetryable e then handleRetryable p n a (job_Channel job) resolved e
           else failTerminal (ntf_TenantID n) (att_ID a) (job_Channel job) e)))"

definition process :: "retry_policy \<Rightarrow> 'x channel_sender \<Rightarrow> dispatch_job \<Rightarrow> ('x, result \<times> cause option) wm" where
  "process p sender job =
     handle (MarkAttemptInProgress (job_AttemptID job))
       (\<lambda>e. if IsAttemptAlreadyFinalized e \<or> IsAttemptAlreadyProcessing e then suppress_duplicate job else fail e)
       (\<lambda>_. deliver p sender job)"

definition ProcessWebhook :: "retry_policy \<Rightarrow> 'm text_template \<Rightarrow> bool \<Rightarrow> dispatch_job \<Rightarrow>
    ('x, result \<times> cause option) wm" where
  "ProcessWebhook p tt backup = process p (webhook_sender tt backup)"

definition ProcessEmail :: "retry_policy \<Rightarrow> 'm text_template \<Rightarrow> smtp_settings \<Rightarrow> smtp_settings option \<Rightarrow>
    dispatch_job \<Rightarrow> ('x, result \<times> cause option) wm" where
  "ProcessEmail p tt primary backup = process p (email_sender tt primary backup)"

subsection \<open>The contract of a sender\<close>

text \<open>
  What the service relies on: a sender answers every time, only talks to providers, contacts at
  most one of them, two where the policy allows failover, reports success only after a contact, a
  secondary provider only with success and by the policy, and classifies its failures.
\<close>

definition sending_ok :: "resolved_policy \<Rightarrow> event list \<Rightarrow> sending \<Rightarrow> bool" where
  "sending_ok resolved es s =
     (contacts es \<le> (if res_FailoverEnabled resolved then 2 else 1)
      \<and> (snd_Error s = None \<longrightarrow> 1 \<le> contacts es)
      \<and> (snd_FailoverUsed s \<longrightarrow> snd_Error s = None \<and> res_FailoverEnabled resolved)
      \<and> (case snd_Error s of None \<Rightarrow> True | Some e \<Rightarrow> IsTerminal e \<or> IsRetryable e))"

lemma sending_ok_simps [simp]:
  "sending_ok r es (sent_by i name b) \<longleftrightarrow>
     contacts es \<le> (if res_FailoverEnabled r then 2 else 1) \<and> 1 \<le> contacts es \<and> (b \<longrightarrow> res_FailoverEnabled r)"
  "sending_ok r es (not_sent name e) \<longleftrightarrow>
     contacts es \<le> (if res_FailoverEnabled r then 2 else 1) \<and> (IsTerminal e \<or> IsRetryable e)"
  by (auto simp: sending_ok_def sent_by_def not_sent_def)

locale sender_contract =
  fixes sender :: "'x channel_sender"
  assumes sends: "talks (sender job n tp resolved) (sending_ok resolved)"

lemma talks_weak:
  "talks (WebhookSend req) P" if "\<And>es i r. contacts es \<le> 1 \<Longrightarrow> (r = None \<Longrightarrow> contacts es = 1) \<Longrightarrow> P es (i, r)"
  by (rule talks_mono [OF talks_WebhookSend]) (use that in auto)

lemma talks_weak_smtp:
  "talks (SMTPSend cfg req) P" if "\<And>es r. contacts es = 1 \<Longrightarrow> P es r"
  by (rule talks_mono [OF talks_SMTPSend]) (use that in auto)

interpretation webhook: sender_contract "webhook_sender tt backup"
proof
  fix job n tp resolved
  show "talks (webhook_sender tt backup job n tp resolved) (sending_ok resolved)"
    unfolding webhook_sender_def
    by (rule talk_intros | (simp add: MaybeRetryable_classified; fail)
      | (rule talks_weak; (rule talk_intros | simp add: MaybeRetryable_classified | clarsimp)+))+
qed

interpretation email: sender_contract "email_sender tt primary backup"
proof
  fix job n tp resolved
  show "talks (email_sender tt primary backup job n tp resolved) (sending_ok resolved)"
    unfolding email_sender_def
    by (rule talk_intros | (simp add: MaybeRetryable_classified; fail)
      | (rule talks_weak_smtp; (rule talk_intros conjI impI | simp add: MaybeRetryable_classified)+))+
qed

end
