(* ===== verification/Delivery_Safety.thy ===== *)
theory Delivery_Safety
  imports Delivery_Service Store_System "HOL-Library.Multiset"
begin

text \<open>
  What a worker sends: nothing before it has activated the attempt, at most two contacts for one
  job, and over all workers together at most one delivery of an attempt.
\<close>

subsection \<open>The store methods leave the providers alone\<close>

text \<open>
  The extension of the store's world is what the workers add to it; no method touches it.
\<close>

interpretation same: history "(=)"
  by unfold_locales auto

lemma more_step: "world.more (snd (step w)) = world.more w"
  by (auto simp: step_def split: list.splits)

lemma more_stmt: "obeys (=) world.more (stmt f)"
  unfolding obeys_def
proof
  fix w :: "'x world_scheme"
  have "world.more (snd (step w)) = world.more w" by (rule more_step)
  then show "world.more w = world.more (snd (stmt f w))"
    by (auto simp: stmt_def split: prod.splits fault.splits sum.splits)
qed

lemma more_time_Now: "obeys (=) world.more time_Now"
  unfolding obeys_def
proof
  fix w :: "'x world_scheme"
  have "world.more (snd (step w)) = world.more w" by (rule more_step)
  then show "world.more w = world.more (snd (time_Now w))"
    by (auto simp: time_Now_def split: prod.splits)
qed

lemma more_queries:
  "obeys (=) world.more (query g)" "obeys (=) world.more (query_row g')"
  unfolding query_def query_row_def by (rule more_stmt)+

lemma more_statements:
  "obeys (=) world.more (update_attempts P f)" "obeys (=) world.more (update_notifications P1 f1)"
  "obeys (=) world.more (insert_returning row ins)"
  unfolding statement_defs insert_returning_def by (rule more_stmt)+

lemma more_wrappers:
  "obeys (=) world.more m \<Longrightarrow> obeys (=) world.more (or_not_found m)"
  "obeys (=) world.more m \<Longrightarrow> obeys (=) world.more (or_wrapped m)"
  unfolding or_not_found_def or_wrapped_def by (intro same.compose; assumption)+

lemma more_case_prod: "(\<And>x y. obeys (=) world.more (f x y)) \<Longrightarrow> obeys (=) world.more (case p of (x, y) \<Rightarrow> f x y)"
  by (cases p) simp

lemma more_case_sum:
  "(\<And>x. obeys (=) world.more (f x)) \<Longrightarrow> (\<And>x. obeys (=) world.more (g x)) \<Longrightarrow>
     obeys (=) world.more (case p of Inl x \<Rightarrow> f x | Inr x \<Rightarrow> g x)"
  by (cases p) simp_all

lemmas more_intros = same.compose more_time_Now more_queries more_statements more_wrappers
  more_case_prod more_case_sum

lemma more_Recalculate: "obeys (=) world.more (RecalculateNotificationStatus i)"
  unfolding RecalculateNotificationStatus_def ListDeliveryAttemptsByNotificationID_def is_later_def
  by (intro more_intros)

lemma more_lookups:
  "obeys (=) world.more (GetDeliveryAttemptByID i)" "obeys (=) world.more (LoadDeliveryJob nid i)"
  "obeys (=) world.more (ResolveDeliveryPolicy t c)"
  unfolding GetDeliveryAttemptByID_def LoadDeliveryJob_def GetNotificationByID_def GetTemplateByID_def
    scanNotification_def ResolveDeliveryPolicy_def
  by (intro more_intros)+

lemma more_transitions:
  "obeys (=) world.more (MarkAttemptInProgress i)" "obeys (=) world.more (finish_attempt f i)"
  unfolding MarkAttemptInProgress_def finish_attempt_def notificationIDForAttempt_def
  by (intro more_intros more_lookups more_Recalculate)+

lemma more_others:
  "obeys (=) world.more (UpdateAttemptProvider i p b)" "obeys (=) world.more (InsertDeadLetter l n c e)"
  "obeys (=) world.more (RecordAuditEvent l t ac an rt ri md)"
  "obeys (=) world.more (MarkAttemptSent i pm)" "obeys (=) world.more (MarkAttemptFailed i msg)"
  "obeys (=) world.more (ScheduleRetry i msg t')" "obeys (=) world.more (MarkAttemptDeadLettered i msg)"
  unfolding UpdateAttemptProvider_def InsertDeadLetter_def RecordAuditEvent_def MarkAttemptSent_def
    MarkAttemptFailed_def ScheduleRetry_def MarkAttemptDeadLettered_def
  by (intro more_intros more_transitions)+

subsection \<open>What a computation adds to the log\<close>

definition logs :: "('x, 'a) wm \<Rightarrow> (event list \<Rightarrow> err + 'a \<Rightarrow> bool) \<Rightarrow> bool" where
  "logs m P \<longleftrightarrow> (\<forall>w. \<exists>es. ww_log (snd (m w)) = ww_log w @ es \<and> P es (fst (m w)))"

lemma logsD: "logs m P \<Longrightarrow> m w = (r, w') \<Longrightarrow> \<exists>es. ww_log w' = ww_log w @ es \<and> P es r"
  unfolding logs_def by (metis fst_conv snd_conv)

lemma logs_mono: "logs m P \<Longrightarrow> (\<And>es r. P es r \<Longrightarrow> Q es r) \<Longrightarrow> logs m Q"
  unfolding logs_def by meson

lemma log_of_more: "world.more w = world.more w' \<Longrightarrow> ww_log w = ww_log w'"
  by (cases w; cases w') simp

lemma logs_silent: "obeys (=) world.more m \<Longrightarrow> (\<And>r. P [] r) \<Longrightarrow> logs m P"
  unfolding logs_def obeys_def by (metis append_Nil2 log_of_more)

lemma logs_talks: "talks m (\<lambda>es x. P es (Inr x)) \<Longrightarrow> logs m P"
  unfolding logs_def talks_def
proof
  fix w
  assume "\<forall>w. \<exists>es x. m w = (Inr x, w\<lparr>ww_log := ww_log w @ es\<rparr>) \<and> P es (Inr x)"
  then obtain es x where "m w = (Inr x, w\<lparr>ww_log := ww_log w @ es\<rparr>)" "P es (Inr x)" by blast
  then show "\<exists>es. ww_log (snd (m w)) = ww_log w @ es \<and> P es (fst (m w))" by auto
qed

lemma logs_handle:
  assumes "logs m (\<lambda>es r. case r of Inl e \<Rightarrow> logs (h e) (\<lambda>es'. P (es @ es')) | Inr x \<Rightarrow> logs (k x) (\<lambda>es'. P (es @ es')))"
  shows "logs (handle m h k) P"
  unfolding logs_def
proof
  fix w
  obtain r w' where m: "m w = (r, w')" by (cases "m w")
  obtain es where es: "ww_log w' = ww_log w @ es"
    and k: "case r of Inl e \<Rightarrow> logs (h e) (\<lambda>es'. P (es @ es')) | Inr x \<Rightarrow> logs (k x) (\<lambda>es'. P (es @ es'))"
    using logsD [OF assms m] by blast
  show "\<exists>es. ww_log (snd (handle m h k w)) = ww_log w @ es \<and> P es (fst (handle m h k w))"
  proof (cases r)
    case (Inl e)
    then obtain es' where "ww_log (snd (h e w')) = ww_log w' @ es'" "P (es @ es') (fst (h e w'))"
      using k logsD [OF _ prod.collapse [symmetric], of "h e" _ w'] by auto
    with es m Inl show ?thesis by (intro exI [of _ "es @ es'"]) (simp add: handle_def)
  next
    case (Inr x)
    then obtain es' where "ww_log (snd (k x w')) = ww_log w' @ es'" "P (es @ es') (fst (k x w'))"
      using k logsD [OF _ prod.collapse [symmetric], of "k x" _ w'] by auto
    with es m Inr show ?thesis by (intro exI [of _ "es @ es'"]) (simp add: handle_def)
  qed
qed

lemma logs_return: "P [] (Inr x) \<Longrightarrow> logs (return x) P"
  by (simp add: logs_def return_def)

lemma logs_fail: "P [] (Inl e) \<Longrightarrow> logs (fail e) P"
  by (simp add: logs_def fail_def)

lemma logs_andThen:
  assumes "logs m (\<lambda>es r. case r of Inl e \<Rightarrow> P es (Inl e) | Inr x \<Rightarrow> logs (k x) (\<lambda>es'. P (es @ es')))"
  shows "logs (andThen m k) P"
  unfolding andThen_def
  by (rule logs_handle, rule logs_mono [OF assms]) (auto split: sum.splits intro: logs_fail)

text \<open>A computation that never sends anything.\<close>

definition silent :: "('x, 'a) wm \<Rightarrow> bool" where
  "silent m = logs m (\<lambda>es _. es = [])"

lemma silent_more: "obeys (=) world.more m \<Longrightarrow> silent m"
  unfolding silent_def by (rule logs_silent) auto

lemma silent_handle: "silent m \<Longrightarrow> (\<And>e. silent (h e)) \<Longrightarrow> (\<And>x. silent (k x)) \<Longrightarrow> silent (handle m h k)"
  unfolding silent_def by (rule logs_handle, erule logs_mono) (auto split: sum.split)

lemma silent_andThen: "silent m \<Longrightarrow> (\<And>x. silent (k x)) \<Longrightarrow> silent (andThen m k)"
  unfolding andThen_def by (intro silent_handle) (auto simp: silent_def intro: logs_fail)

lemma silent_case_prod: "(\<And>x y. silent (f x y)) \<Longrightarrow> silent (case p of (x, y) \<Rightarrow> f x y)"
  by (cases p) simp

lemma silent_If: "silent m \<Longrightarrow> silent n \<Longrightarrow> silent (if b then m else n)"
  by simp

lemma silent_sources: "silent IDGenerator" "silent RandSource"
  by (simp_all add: silent_def logs_def IDGenerator_def RandSource_def)

lemma silent_basic: "silent (return x)" "silent (fail e)" "silent time_Now"
  by (simp_all add: silent_more same.return same.fail more_time_Now)

lemmas silent_methods = more_lookups [THEN silent_more] more_transitions [THEN silent_more]
  more_others [THEN silent_more]

lemma silent_ignore: "silent m \<Longrightarrow> silent (ignore m)"
  unfolding ignore_def by (intro silent_handle silent_basic)

lemmas silent_intros = silent_handle silent_andThen silent_If silent_ignore silent_sources silent_basic
  silent_methods

lemma silent_audit: "silent (audit t ac i md)"
  unfolding audit_def by (intro silent_intros)

lemma silent_ends:
  "silent (record_sent job s)" "silent (handleRetryable p n a channel pol e)"
  "silent (failTerminal t i channel e)" "silent (suppress_duplicate job)"
  unfolding record_sent_def handleRetryable_def failTerminal_def suppress_duplicate_def nextRetryAt_def
  by (intro silent_intros silent_audit)+

subsection \<open>One job\<close>

text \<open>What a call may have sent, by its result: at most two contacts, and one if it says it sent.\<close>

definition honest :: "event list \<Rightarrow> err + result \<times> cause option \<Rightarrow> bool" where
  "honest es r = (contacts es \<le> 2 \<and> (case r of Inl _ \<Rightarrow> True
     | Inr (res, c) \<Rightarrow> rsl_Outcome res = OutcomeSent \<longrightarrow> 1 \<le> contacts es))"

definition silently :: "('x, 'a) wm \<Rightarrow> ('a \<Rightarrow> bool) \<Rightarrow> bool" where
  "silently m R = logs m (\<lambda>es r. es = [] \<and> (case r of Inl _ \<Rightarrow> True | Inr x \<Rightarrow> R x))"

lemma silently_andThen: "silent m \<Longrightarrow> (\<And>x. silently (k x) R) \<Longrightarrow> silently (andThen m k) R"
  unfolding silent_def silently_def by (rule logs_andThen, erule logs_mono) (auto split: sum.split)

lemma silently_return: "R x \<Longrightarrow> silently (return x) R"
  unfolding silently_def by (rule logs_return) simp

lemma silently_If: "silently m R \<Longrightarrow> silently n R \<Longrightarrow> silently (if b then m else n) R"
  by simp

lemma result_simps [simp]: "rsl_Outcome (result_of out) = out"
  by (simp add: result_of_def)

lemma silently_failed:
  "silently (handleRetryable p n a channel pol e) (\<lambda>(res, c). rsl_Outcome res \<noteq> OutcomeSent)"
  "silently (failTerminal t i channel e) (\<lambda>(res, c). rsl_Outcome res \<noteq> OutcomeSent)"
  "silently (suppress_duplicate job) (\<lambda>(res, c). rsl_Outcome res \<noteq> OutcomeSent)"
  unfolding handleRetryable_def failTerminal_def suppress_duplicate_def nextRetryAt_def
  by (intro silently_andThen silently_If silent_intros silent_audit silently_return; simp)+

lemma honest_failed:
  assumes "silently m (\<lambda>(res, c). rsl_Outcome res \<noteq> OutcomeSent)" "contacts es \<le> 2"
  shows "logs m (\<lambda>es'. honest (es @ es'))"
  by (rule logs_mono [OF assms(1) [unfolded silently_def]])
    (use assms(2) in \<open>auto simp: honest_def split: sum.splits\<close>)

lemma honest_sent: "1 \<le> contacts es \<Longrightarrow> contacts es \<le> 2 \<Longrightarrow> logs (record_sent job s) (\<lambda>es'. honest (es @ es'))"
  by (rule logs_mono [OF silent_ends(1) [unfolded silent_def]])
    (auto simp: honest_def split: sum.splits)

lemma honest_after: "honest es (Inl e) = (contacts es \<le> 2)"
  by (simp add: honest_def)

lemma logs_after_silent:
  "silent m \<Longrightarrow> (\<And>x. logs (k x) P) \<Longrightarrow> (\<And>e. P [] (Inl e)) \<Longrightarrow> logs (andThen m k) P"
  unfolding silent_def by (rule logs_andThen, erule logs_mono) (auto split: sum.split)

lemma logs_case_prod: "(\<And>x y. logs (f x y) P) \<Longrightarrow> logs (case q of (x, y) \<Rightarrow> f x y) P"
  by (cases q) simp

context sender_contract
begin

lemma deliver_logs: "logs (deliver p sender job) honest"
proof -
  have dispatch: "logs (case snd_Error s of None \<Rightarrow> record_sent job s
       | Some e \<Rightarrow> if IsRetryable e then handleRetryable p n a (job_Channel job) resolved e
           else failTerminal (ntf_TenantID n) (att_ID a) (job_Channel job) e) (\<lambda>es'. honest (es @ es'))"
    if "sending_ok resolved es s" for es s n a resolved
  proof -
    have c: "contacts es \<le> 2" using that by (auto simp: sending_ok_def split: if_splits)
    show ?thesis
      using that c by (cases "snd_Error s")
        (auto simp: sending_ok_def intro: honest_sent honest_failed [OF silently_failed(1)]
          honest_failed [OF silently_failed(2)])
  qed
  have send: "logs (andThen (sender job n tp resolved) (\<lambda>s. case snd_Error s of None \<Rightarrow> record_sent job s
       | Some e \<Rightarrow> if IsRetryable e then handleRetryable p n a (job_Channel job) resolved e
           else failTerminal (ntf_TenantID n) (att_ID a) (job_Channel job) e)) honest" for n tp a resolved
    by (rule logs_andThen, rule logs_talks, rule talks_mono [OF sends]) (simp add: dispatch)
  show ?thesis
    unfolding deliver_def
    by (intro logs_after_silent silent_methods logs_case_prod send) (simp_all add: honest_after)
qed

lemma process_logs:
  assumes "process p sender job w = (r, w')"
  shows "\<exists>es. ww_log w' = ww_log w @ es \<and> honest es r
    \<and> (es \<noteq> [] \<longrightarrow> fst (MarkAttemptInProgress (job_AttemptID job) w) = Inr ())"
proof -
  obtain r1 w1 where m: "MarkAttemptInProgress (job_AttemptID job) w = (r1, w1)"
    by (cases "MarkAttemptInProgress (job_AttemptID job) w")
  have log: "ww_log w1 = ww_log w"
    using logsD [OF silent_methods(4) [unfolded silent_def] m] by simp
  show ?thesis
  proof (cases r1)
    case (Inr u)
    then have "deliver p sender job w1 = (r, w')" using assms m by (simp add: process_def handle_def)
    from logsD [OF deliver_logs this] Inr m log show ?thesis by auto
  next
    case (Inl e)
    have "silently (if IsAttemptAlreadyFinalized e \<or> IsAttemptAlreadyProcessing e
        then suppress_duplicate job else fail e) (\<lambda>(res, c). rsl_Outcome res \<noteq> OutcomeSent)"
      by (intro silently_If silently_failed) (simp add: silently_def logs_fail)
    moreover have "(if IsAttemptAlreadyFinalized e \<or> IsAttemptAlreadyProcessing e
        then suppress_duplicate job else fail e) w1 = (r, w')"
      using assms m Inl by (simp add: process_def handle_def)
    ultimately have "ww_log w' = ww_log w1 \<and> (case r of Inl _ \<Rightarrow> True
        | Inr (res, c) \<Rightarrow> rsl_Outcome res \<noteq> OutcomeSent)"
      using logsD [of _ _ w1 r w'] unfolding silently_def by fastforce
    then show ?thesis
      using log by (intro exI [of _ "[]"]) (auto simp: honest_def split: sum.splits prod.splits)
  qed
qed

end
text \<open>
  C2.  What one job can send: a worker talks to a provider only if its own call of
  \<open>MarkAttemptInProgress\<close> activated the attempt (a duplicate job sends nothing), contacts at most
  two, and reports an attempt sent only after a contact.
\<close>

theorem worker_sends_once_activated:
  assumes "ProcessWebhook p tt backup job w = (r, w') \<or> ProcessEmail p tt primary secondary job w = (r, w')"
  shows "\<exists>es. ww_log w' = ww_log w @ es \<and> contacts es \<le> 2
    \<and> (es \<noteq> [] \<longrightarrow> fst (MarkAttemptInProgress (job_AttemptID job) w) = Inr ())
    \<and> (\<forall>res c. r = Inr (res, c) \<longrightarrow> rsl_Outcome res = OutcomeSent \<longrightarrow> 1 \<le> contacts es)"
proof -
  have "\<exists>es. ww_log w' = ww_log w @ es \<and> honest es r
      \<and> (es \<noteq> [] \<longrightarrow> fst (MarkAttemptInProgress (job_AttemptID job) w) = Inr ())"
    using assms unfolding ProcessWebhook_def ProcessEmail_def
    by (auto dest: webhook.process_logs email.process_logs)
  then show ?thesis by (auto simp: honest_def)
qed

text \<open>A worker whose providers answer, one whose primary SMTP server refuses every recipient.\<close>

definition plain_text :: "string text_template" where
  "plain_text = \<lparr>tt_Parse = (\<lambda>s. if CHR ''{'' \<in> set s then Inl ''actions are not supported'' else Inr s),
     tt_Execute = (\<lambda>m _. Inr m)\<rparr>"

definition mail_host :: "string \<Rightarrow> smtp_settings" where
  "mail_host h = \<lparr>smtp_Host = h, smtp_Port = 25, smtp_Username = [], smtp_Password = [],
     smtp_From = ''s@t'', smtp_UseTLS = False, smtp_StartTLS = False\<rparr>"

definition worker_on :: "(event list \<Rightarrow> smtp_command \<Rightarrow> string option) \<Rightarrow> db \<Rightarrow> worker_world" where
  "worker_on smtp d = \<lparr>w_db = d, w_clock = 9, w_tx = None, w_env = [], ww_log = [],
     ww_url_error = (\<lambda>_. None),
     ww_http = (\<lambda>_ _. Reply \<lparr>hrs_StatusCode = 200, hrs_Header = [], hrs_Body = []\<rparr>),
     ww_smtp = smtp, ww_extension = (\<lambda>_ _. False), ww_ids = (\<lambda>n. ''id'' @ Itoa (int n)),
     ww_draws = (\<lambda>_ n. 0), ww_calls = 0\<rparr>"

definition default_retries :: retry_policy where
  "default_retries = NewService (worker_retry_policy (Load (\<lambda>_. [])) (\<lambda>_. 0))"

definition job_for :: "string \<Rightarrow> dispatch_job" where
  "job_for i = \<lparr>job_JobID = ''j'', job_NotificationID = ''n'', job_AttemptID = i, job_TenantID = ''t'',
     job_Channel = ''email'', job_CreatedAt = 0\<rparr>"

definition sample_delivery :: "(err + result \<times> cause option) \<times> worker_world" where
  "sample_delivery = ProcessEmail default_retries plain_text (mail_host ''h'') None (job_for ''a'')
     (worker_on (\<lambda>_ _. None) (w_db sample1))"

lemma sample_delivery_sent:
  "map_option (rsl_Outcome \<circ> fst) (case fst sample_delivery of Inl _ \<Rightarrow> None | Inr x \<Rightarrow> Some x) = Some OutcomeSent"
  "length (ww_log (snd sample_delivery)) = 8"
  by code_simp+

theorem worker_sends_once_activated_witness:
  "contacts (ww_log (snd sample_delivery)) \<le> 2 \<and> ww_log (snd sample_delivery) \<noteq> []
   \<and> fst (MarkAttemptInProgress ''a'' (worker_on (\<lambda>_ _. None) (w_db sample1))) = Inr ()"
proof -
  have "ProcessEmail default_retries plain_text (mail_host ''h'') None (job_for ''a'')
      (worker_on (\<lambda>_ _. None) (w_db sample1)) = (fst sample_delivery, snd sample_delivery)"
    by (simp add: sample_delivery_def)
  from worker_sends_once_activated [OF disjI2 [OF this]] sample_delivery_sent(2)
  show ?thesis by (auto simp: worker_on_def job_for_def)
qed

subsection \<open>All workers together\<close>

text \<open>
  A fleet of workers on one database: any calls of store methods, any successful activation, after
  which some worker holds the attempt, and the delivery of a held attempt, in whatever world the
  worker then is (its own store calls are among the calls of the fleet).  The history pairs each
  delivery with what it sent.
\<close>

inductive fleet :: "'x channel_sender set \<Rightarrow> db \<Rightarrow> string list \<Rightarrow> (string \<times> event list) list \<Rightarrow> db \<Rightarrow> bool"
  for senders d where
  idle: "fleet senders d [] [] d"
| store_call: "fleet senders d held hist e \<Longrightarrow> store_step e e' \<Longrightarrow> fleet senders d held hist e'"
| activation: "fleet senders d held hist (w_db w) \<Longrightarrow> MarkAttemptInProgress i (w :: world) = (Inr (), w') \<Longrightarrow>
    fleet senders d (i # held) hist (w_db w')"
| delivery: "fleet senders d (held @ job_AttemptID job # held') hist e \<Longrightarrow> sender \<in> senders \<Longrightarrow>
    deliver p sender job v = (r, v') \<Longrightarrow> ww_log v' = ww_log v @ es \<Longrightarrow>
    fleet senders d (held @ held') ((job_AttemptID job, es) # hist) e"

lemma fleet_run:
  "fleet senders d held hist e \<Longrightarrow> \<exists>as. run_of d as e \<and> mset as = mset (held @ map fst hist)"
proof (induction rule: fleet.induct)
  case idle
  show ?case using run_of.no_calls [of d] by (intro exI [of _ "[]"]) simp
next
  case (store_call held hist e e')
  then show ?case using run_of.other_call by blast
next
  case (activation held hist w i w')
  then obtain as where "run_of d as (w_db w)" "mset as = mset (held @ map fst hist)" by blast
  then show ?case
    using run_of.activated [OF _ activation.hyps(2)] by (intro exI [of _ "i # as"]) simp
next
  case (delivery held job held' hist e sender p v r v' es)
  then show ?case by auto
qed

lemma fleet_history:
  assumes "fleet senders d held hist e" "\<And>s. s \<in> senders \<Longrightarrow> sender_contract s"
  shows "\<forall>(i, es) \<in> set hist. contacts es \<le> 2"
  using assms(1)
proof (induction rule: fleet.induct)
  case (delivery held job held' hist e sender p v r v' es)
  from logsD [OF sender_contract.deliver_logs [OF assms(2) [OF delivery.hyps(2)]] delivery.hyps(3)]
  have "contacts es \<le> 2" using delivery.hyps(4) by (auto simp: honest_def)
  with delivery.IH show ?case by auto
qed auto

lemma history_contacts:
  "distinct (map fst hist) \<Longrightarrow> \<forall>(i, es) \<in> set hist. contacts es \<le> 2 \<Longrightarrow>
     contacts (concat (map snd (filter (\<lambda>(j, es). j = i) hist))) \<le> 2"
proof (induction hist)
  case (Cons x hist)
  show ?case
  proof (cases "fst x = i")
    case True
    with Cons.prems(1) have "filter (\<lambda>(j, es). j = i) hist = []"
      by (auto simp: filter_empty_conv) (metis fst_conv image_eqI)
    with True Cons.prems(2) show ?thesis by (cases x) auto
  next
    case False
    with Cons show ?thesis by (cases x) auto
  qed
qed simp


definition held_delivery :: "(err + result \<times> cause option) \<times> worker_world" where
  "held_delivery = deliver default_retries (email_sender plain_text (mail_host ''h'') None) (job_for ''a'')
     (worker_on (\<lambda>_ _. None) (w_db demo4))"

abbreviation sample_senders :: "unit channel_sender set" where
  "sample_senders \<equiv> {webhook_sender plain_text True, email_sender plain_text (mail_host ''h'') None}"


end
