(* ===== verification/Worker_Outcome.thy ===== *)
theory Worker_Outcome
  imports Worker_Runner Delivery_Safety
begin

text \<open>
  The worker together with the delivery service and the queue: what becomes of a job whose attempt
  could not be activated because the database did not answer.
\<close>

text \<open>
  C30.  A worker drops a job when the database does not answer.  If the activation of the attempt
  fails with any error but a duplicate (the connection is lost, or the context of a worker that shuts
  down is done), the delivery service returns the error having sent nothing, and \<open>runReserved\<close>
  acknowledges the job like a finished one: the queue has a copy less of it, and no other part of the
  worker puts it back.
\<close>

theorem store_error_drops_job:
  assumes "redis_lists srv authed ready password db contents queued"
    "settled ready password db (fst w)" "q \<in> sources"
    "MarkAttemptInProgress (job_AttemptID job) (snd w) = (Inl e, d')"
    "e \<notin> {ErrAttemptAlreadyFinalized, ErrAttemptAlreadyProcessing}"
    "runReserved (process p sender) srv (reservation q job v) w = (Inr rep, w')"
  shows "snd w' = d' \<and> ww_log d' = ww_log (snd w) \<and> rep \<in> {OrphanNotAcked, OrphanDropped, FailedNotAcked, FailedAcked}
    \<and> (rep \<in> {OrphanDropped, FailedAcked} \<longrightarrow>
        held q v (contents (rw_data (fst w'))) + 1 = held q v (contents (rw_data (fst w))))"
proof -
  have pr: "process p sender job (snd w) = (Inl e, d')"
    using assms(4,5) by (simp add: process_def handle_def fail_def IsAttemptAlreadyFinalized_def IsAttemptAlreadyProcessing_def)
  have "silent (MarkAttemptInProgress (job_AttemptID job))" by (intro silent_more more_transitions)
  then have log: "ww_log d' = ww_log (snd w)"
    using assms(4) unfolding silent_def logs_def by (metis append_Nil2 snd_conv)
  have j: "rsv_Job (reservation q job v) = job" by (simp add: reservation_def)
  obtain x q' where a: "AckReserved srv (reservation q job v) (fst w) = (x, q')"
    by (cases "AckReserved srv (reservation q job v) (fst w)")
  have run: "w' = (q', d')" "rep = (case x of Inl _ \<Rightarrow> if e = ErrNotFound then OrphanNotAcked else FailedNotAcked
      | Inr _ \<Rightarrow> if e = ErrNotFound then OrphanDropped else FailedAcked)"
    using assms(6) pr a j
    by (auto simp: runReserved_def on_rest_def on_queue_def handle_def return_def Let_def split: sum.splits if_splits)
  have "held q v (contents (rw_data q')) + 1 = held q v (contents (rw_data (fst w)))" if "x = Inr ()"
  proof -
    let ?l = "contents (rw_data (fst w)) (ProcessingQueueName q)"
    have "v \<in> set ?l" "contents (rw_data q') = removed (ProcessingQueueName q) v (contents (rw_data (fst w)))"
      using redis_lists.AckReserved_outcome [OF assms(1-3) a] that by simp_all
    moreover from this(1) have "count_list ?l v \<noteq> 0" by (simp add: count_list_0_iff)
    ultimately show ?thesis using not_own_processing [of q, symmetric] by (simp add: held_def removed_def)
  qed
  with run log show ?thesis by (cases x) auto
qed

text \<open>The witness: the connection to the database is lost as the worker begins.\<close>

definition offline_worker :: worker_world where
  "offline_worker = (worker_on (\<lambda>_ _. None) (w_db sample1))\<lparr>w_env := [(LostRequest, 0)]\<rparr>"

definition reserved_keys :: "int \<Rightarrow> keyspace" where
  "reserved_keys = empty_keys(2 := (empty_keys 2)
     \<lparr>ks_lists := (\<lambda>_. [])(ProcessingQueueName DispatchEmailQueueName := [''p''])\<rparr>)"

definition dropped_run where
  "dropped_run = runReserved (ProcessEmail default_retries plain_text (mail_host ''h'') None) ref_server
     (reservation DispatchEmailQueueName (job_for ''a'') ''p'') (new_client [] reserved_keys, offline_worker)"

theorem store_error_drops_job_witness:
  "fst dropped_run = Inr FailedAcked \<and> ww_log (snd (snd dropped_run)) = []
   \<and> held DispatchEmailQueueName ''p'' (ref_contents (rw_data (fst (snd dropped_run)))) = 0"
proof -
  let ?w = "(new_client [] reserved_keys, offline_worker)"
  have a: "fst dropped_run = Inr FailedAcked" by code_simp
  have m: "fst (MarkAttemptInProgress (job_AttemptID (job_for ''a'')) (snd ?w)) = Inl ConnError" by code_simp
  have "runReserved (process default_retries (email_sender plain_text (mail_host ''h'') None)) ref_server
      (reservation DispatchEmailQueueName (job_for ''a'') ''p'') ?w = (Inr FailedAcked, snd dropped_run)"
    using a by (metis dropped_run_def ProcessEmail_def prod.collapse)
  from store_error_drops_job [OF ref.redis_lists_axioms _ _ _ _ this, where e = ConnError
      and d' = "snd (MarkAttemptInProgress (job_AttemptID (job_for ''a'')) (snd ?w))"]
  show ?thesis using a m not_own_processing [of DispatchEmailQueueName, symmetric]
    by (simp add: sources_def prod_eq_iff)
      (simp add: held_def ref_contents_def new_client_def reserved_keys_def offline_worker_def worker_on_def)
qed

end
