(* ===== verification/Delivery_Outcome.thy ===== *)
theory Delivery_Outcome
  imports Delivery_Safety
begin

text \<open>
  What a worker reports is what the database says: the outcome of a job against the row of its
  attempt, when the connection to the database does not fail.
\<close>

subsection \<open>The methods a delivery uses\<close>

text \<open>What a transition leaves alone.\<close>

definition rest_same :: "db \<Rightarrow> db \<Rightarrow> bool" where
  "rest_same d d' \<longleftrightarrow> db_policies d' = db_policies d \<and> db_templates d' = db_templates d
     \<and> db_dead_letters d' = db_dead_letters d \<and> db_schema d' = db_schema d
     \<and> (\<forall>j. map_option ntf_TenantID (notification_row d' j) = map_option ntf_TenantID (notification_row d j))"

lemma lookup_with_status:
  "map_option ntf_TenantID (notification_row (with_status i s t d) j) = map_option ntf_TenantID (notification_row d j)"
  by (simp add: with_status_def lookup_update_where option.map_comp comp_def if_distrib cong: if_cong)

lemma rest_same_transition: "rest_same d (with_status i s t (with_attempts P f d))"
  unfolding rest_same_def using lookup_with_status [where d = "with_attempts P f d"]
  by (simp add: with_status_def with_attempts_def)

lemma run_moves:
  fixes m :: "('x world_scheme, 'a) sm"
  assumes "run ok m d E Q" "obeys moves w_db m" "wf_db d"
  shows "run ok m d E (\<lambda>x d'. Q x d' \<and> wf_db d')"
proof (rule runI)
  fix w :: "'x world_scheme"
  assume w: "ok \<Longrightarrow> calm w" "w_db w = d"
  have "moves d (w_db (snd (m w)))" using assms(2) w(2) by (auto simp: obeys_def)
  then have "wf_db (w_db (snd (m w)))" using assms(3) by (rule moves_wf)
  with assms(1) w show "(ok \<longrightarrow> calm (snd (m w))) \<and> (case fst (m w) of
      Inl e \<Rightarrow> E e (w_db (snd (m w))) | Inr x \<Rightarrow> Q x (w_db (snd (m w))) \<and> wf_db (w_db (snd (m w))))"
    unfolding run_def by (auto split: sum.splits)
qed

lemma run_transition_row:
  assumes wf: "wf_db d" and a: "attempt_row d i = Some a" "att_Status a = st"
    and mv: "\<And>t a. att_Status a = st \<Longrightarrow> attempt_move a (f t a)"
    and ok: "\<And>t a. att_Status a = st \<Longrightarrow> attempt_ok a \<Longrightarrow> attempt_ok (f t a)"
    and changes: "\<And>t a. att_Status (f t a) \<noteq> st"
  shows "run True (transition st f refusal i) d (\<lambda>_ _. False)
     (\<lambda>_ d'. \<exists>t. attempt_row d' i = Some (f t a) \<and> rest_same d d')"
proof (rule run_mono [OF run_transition [OF wf mv ok changes]])
  fix e d'
  assume "d' = d \<and> (case attempt_row d i of None \<Rightarrow> e = ErrNotFound
      | Some a \<Rightarrow> att_Status a \<noteq> st \<and> e = refusal a)"
  then show False using a by simp
next
  fix x d'
  assume "\<exists>a t n s u. attempt_row d i = Some a \<and> att_Status a = st
        \<and> notification_row d (att_NotificationID a) = Some n
        \<and> recalculated (with_attempts (\<lambda>a. att_ID a = i) (f t) d) n s
        \<and> d' = with_status (att_NotificationID a) s u (with_attempts (\<lambda>a. att_ID a = i) (f t) d)"
  then obtain t n s u where d': "d' = with_status n s u (with_attempts (\<lambda>a. att_ID a = i) (f t) d)" by blast
  have "att_ID (f t b) = i" if "att_ID b = i" "b \<in> set (db_attempts d)" for b
  proof -
    have "b = a" using lookup_distinct [OF wf_distinct(3) [OF wf] that(2)] that(1) a(1) by simp
    then show ?thesis using mv [OF a(2), of t] that(1) by (simp add: attempt_move_def)
  qed
  from attempt_row_with_attempts [where f = "f t", OF a(1) this]
  have "attempt_row d' i = Some (f t a)" unfolding d' by simp
  then show "\<exists>t. attempt_row d' i = Some (f t a) \<and> rest_same d d'"
    using rest_same_transition d' by blast
qed simp_all

lemma run_activate:
  assumes "wf_db d" "attempt_row d i = Some a" "att_Status a = Pending"
  shows "run True (MarkAttemptInProgress i) d (\<lambda>_ _. False)
     (\<lambda>_ d'. (\<exists>t. attempt_row d' i = Some (active_columns t a) \<and> rest_same d d') \<and> wf_db d')"
  by (rule run_moves [OF _ moves_MarkAttemptInProgress assms(1)], unfold transitions,
      rule run_transition_row [OF assms])
    (simp_all add: active_columns_def attempt_move_def attempt_key_def attempt_ok_def)

lemma run_finish:
  assumes "wf_db d" "attempt_row d i = Some a" "att_Status a = InProgress"
  shows "run True (finish e i) d (\<lambda>_ _. False)
     (\<lambda>_ d'. (\<exists>t. attempt_row d' i = Some (ending_columns e t a) \<and> rest_same d d') \<and> wf_db d')"
  by (rule run_moves [OF _ moves_finish_call assms(1)], unfold finish_transition,
      rule run_transition_row [OF assms]) (simp_all add: ending_columns_ok)

lemma calm_worker [simp]:
  "calm (w\<lparr>ww_calls := k\<rparr>) = calm w" "calm (w\<lparr>ww_log := l\<rparr>) = calm (w :: 'x worker_world_scheme)"
  by (simp_all add: calm_def)

lemma run_sources [run_intros]:
  "(\<And>i. Q i d) \<Longrightarrow> run ok IDGenerator d E Q" "(\<And>r. Q' r d) \<Longrightarrow> run ok RandSource d E' Q'"
  by (auto simp: run_def IDGenerator_def RandSource_def)

lemma run_talks:
  fixes m :: "('x, 'a) wm"
  assumes m: "talks m P" "\<And>es x. P es x \<Longrightarrow> Q x d"
  shows "run ok m d E Q"
proof (rule runI)
  fix w :: "'x worker_world_scheme"
  assume w: "ok \<Longrightarrow> calm w" "w_db w = d"
  from m(1) obtain es x where "m w = (Inr x, w\<lparr>ww_log := ww_log w @ es\<rparr>)" "P es x"
    unfolding talks_def by blast
  with m(2) w show "(ok \<longrightarrow> calm (snd (m w))) \<and> (case fst (m w) of
      Inl e \<Rightarrow> E e (w_db (snd (m w))) | Inr x \<Rightarrow> Q x (w_db (snd (m w))))" by simp
qed

text \<open>An audit event changes nothing else, and its failure is ignored.\<close>

lemma run_audit:
  assumes "\<And>as. Q () (d\<lparr>db_audits := as\<rparr>)"
  shows "run True (audit t ac i md) d E Q"
proof -
  have "Q () d" using assms [of "db_audits d"] by simp
  with assms show ?thesis
    unfolding audit_def RecordAuditEvent_def
    by (intro run_intros) (auto simp: insert_audit_def constrained_def intro: run_return)
qed

lemma run_GetDeliveryAttemptByID:
  "wf_db d \<Longrightarrow> run True (GetDeliveryAttemptByID i) d (\<lambda>_ d'. d' = d)
     (\<lambda>a d'. d' = d \<and> attempt_row d i = Some a)"
  unfolding GetDeliveryAttemptByID_def
  by (intro run_intros) (auto simp: filter_lookup1 [OF wf_distinct(3)] split: option.splits)

lemma run_LoadDeliveryJob:
  assumes wf: "wf_db d"
  shows "run True (LoadDeliveryJob nid i) d (\<lambda>_ d'. d' = d)
     (\<lambda>(n, tp, a) d'. d' = d \<and> attempt_row d i = Some a \<and> att_NotificationID a = nid \<and> ntf_ID n = nid
        \<and> map_option ntf_TenantID (notification_row d nid) = Some (ntf_TenantID n))"
proof -
  have n: "run True (GetNotificationByID nid) d (\<lambda>_ d'. d' = d)
      (\<lambda>n d'. d' = d \<and> ntf_ID n = nid \<and> map_option ntf_TenantID (notification_row d nid) = Some (ntf_TenantID n))"
    unfolding GetNotificationByID_def scanNotification_def
    by (intro run_intros)
      (auto simp: filter_lookup1 [OF wf_distinct(2) [OF wf]] split: option.splits sum.splits
        intro!: run_intros dest: lookup_Some)
  have t: "run True (GetTemplateByID k) d (\<lambda>_ d'. d' = d) (\<lambda>_ d'. d' = d)" for k
    unfolding GetTemplateByID_def by (intro run_intros) (auto split: list.splits)
  show ?thesis
    unfolding LoadDeliveryJob_def
    by (rule run_andThen, rule run_mono [OF n], simp, clarsimp,
        rule run_andThen, rule run_mono [OF t], simp, clarsimp,
        rule run_andThen, rule run_mono [OF run_GetDeliveryAttemptByID [OF wf]])
      (auto intro: run_intros)
qed

subsection \<open>The outcome of a delivery\<close>

text \<open>
  When a result is true: \<open>m\<close> is the number of attempts allowed, \<open>a\<close> the row before, \<open>b\<close> the row
  after, \<open>c\<close> the failure returned with the result.
\<close>

definition reported :: "int \<Rightarrow> attempt \<Rightarrow> attempt \<Rightarrow> result \<Rightarrow> cause option \<Rightarrow> db \<Rightarrow> bool" where
  "reported m a b res c d' = (case rsl_Outcome res of
     OutcomeSent \<Rightarrow> c = None \<and> att_Status b = Sent \<and> att_SentAt b \<noteq> None
   | OutcomeFailedTerminal \<Rightarrow> (\<exists>e. c = Some e \<and> \<not> IsRetryable e \<and> IsTerminal e
       \<and> att_Status b = Failed \<and> att_LastError b = Some (Error e))
   | OutcomeRetryScheduled \<Rightarrow> (\<exists>e. c = Some e \<and> IsRetryable e \<and> att_AttemptNumber a < m
       \<and> att_Status b = RetryScheduled \<and> att_LastError b = Some (Error e)
       \<and> att_NextRetryAt b = rsl_NextRetryAt res \<and> rsl_NextRetryAt res \<noteq> None)
   | OutcomeDeadLettered \<Rightarrow> (\<exists>e l. c = Some e \<and> IsRetryable e \<and> m \<le> att_AttemptNumber a
       \<and> att_Status b = DeadLettered \<and> att_LastError b = Some (Error e)
       \<and> rsl_DeadLetter res = Some l \<and> l \<in> set (db_dead_letters d')
       \<and> dl_NotificationID l = att_NotificationID a \<and> dl_FinalError l = Error e)
   | OutcomeDuplicateSuppressed \<Rightarrow> False)"

text \<open>The end of every branch: the row of the attempt, and a property of it.\<close>

definition row_ends :: "string \<Rightarrow> (attempt \<Rightarrow> db \<Rightarrow> bool) \<Rightarrow> db \<Rightarrow> bool" where
  "row_ends i P d' = (\<exists>b. attempt_row d' i = Some b \<and> P b d')"

lemma run_step: "run ok m d E (\<lambda>_. S) \<Longrightarrow> (\<And>x d'. S d' \<Longrightarrow> run ok (k x) d' E Q) \<Longrightarrow> run ok (andThen m k) d E Q"
  by (rule run_andThen, erule run_mono) auto

lemma run_skip: "S d \<Longrightarrow> run ok (return x) d E (\<lambda>_. S)"
  by (rule run_return)

lemma run_audit_keeps: "S d \<Longrightarrow> (\<And>d as. S d \<Longrightarrow> S (d\<lparr>db_audits := as\<rparr>)) \<Longrightarrow> run True (audit t ac i md) d E (\<lambda>_. S)"
  by (rule run_audit) auto

lemma run_provider:
  assumes "attempt_row d i = Some b" "att_Status b = Sent" "att_SentAt b \<noteq> None"
  shows "run True (ignore (UpdateAttemptProvider j pn fo)) d E
     (\<lambda>_. row_ends i (\<lambda>b _. att_Status b = Sent \<and> att_SentAt b \<noteq> None))"
proof -
  let ?f = "\<lambda>t b. b\<lparr>att_ProviderUsed := Some pn, att_FailoverUsed := fo, att_UpdatedAt := t\<rparr>"
  have "row_ends i (\<lambda>b _. att_Status b = Sent \<and> att_SentAt b \<noteq> None)
      (d\<lparr>db_attempts := update_where (\<lambda>b. att_ID b = j) (?f t) (db_attempts d)\<rparr>)" for t
    using assms by (auto simp: row_ends_def lookup_update_where intro!: exI [of _ "if att_ID b = j then ?f t b else b"])
  then show ?thesis
    unfolding UpdateAttemptProvider_def
    by (intro run_ignore run_andThen run_updates) (auto intro!: run_intros)
qed

lemma run_record_sent:
  assumes "wf_db d" "attempt_row d (job_AttemptID job) = Some a" "att_Status a = InProgress"
  shows "run True (record_sent job s) d E
     (\<lambda>(res, c). row_ends (job_AttemptID job) (\<lambda>b. reported m a b res c))"
proof -
  let ?S = "row_ends (job_AttemptID job) (\<lambda>b _. att_Status b = Sent \<and> att_SentAt b \<noteq> None)"
  have sent: "run True (MarkAttemptSent (job_AttemptID job) (snd_ProviderID s)) d E (\<lambda>_. ?S)"
    by (rule run_mono [OF run_finish [OF assms, of "SentAs (snd_ProviderID s)", unfolded finish.simps]])
      (auto simp: row_ends_def sent_columns_def)
  have provider: "run True (ignore (UpdateAttemptProvider (job_AttemptID job) pn fo)) d' E (\<lambda>_. ?S)" if "?S d'" for pn fo d'
    using that unfolding row_ends_def [of _ _ d'] by (elim exE conjE) (rule run_provider)
  have audit: "run True (audit t ac j md) d' E (\<lambda>_. ?S)" if "?S d'" for t ac j md d'
    by (rule run_audit_keeps [where S = ?S, OF that]) (auto simp: row_ends_def)
  have report: "run True (return (result_of OutcomeSent, None)) d' E
      (\<lambda>(res, c). row_ends (job_AttemptID job) (\<lambda>b. reported m a b res c))" if "?S d'" for d'
    using that by (intro run_return) (auto simp: row_ends_def reported_def)
  show ?thesis
    unfolding record_sent_def
    by (rule run_step [OF sent] run_step [where S = ?S] run_If provider audit run_skip report; assumption?)+
qed

lemma run_failTerminal:
  assumes "wf_db d" "attempt_row d i = Some a" "att_Status a = InProgress" "IsTerminal e" "\<not> IsRetryable e"
  shows "run True (failTerminal t i channel e) d E (\<lambda>(res, c). row_ends i (\<lambda>b. reported m a b res c))"
proof -
  let ?S = "row_ends i (\<lambda>b _. att_Status b = Failed \<and> att_LastError b = Some (Error e))"
  have failed: "run True (MarkAttemptFailed i (Error e)) d E (\<lambda>_ d'. ?S d' \<and> wf_db d')"
    by (rule run_mono [OF run_finish [OF assms(1-3), of "FailedWith (Error e)", unfolded finish.simps]])
      (auto simp: row_ends_def failed_columns_def)
  have audit: "run True (audit t ac j md) d' E (\<lambda>_. ?S)" if "?S d'" for t ac j md d'
    by (rule run_audit_keeps [where S = ?S, OF that]) (auto simp: row_ends_def)
  have note_it: "run True (handle (GetDeliveryAttemptByID i) (\<lambda>_. return ()) (\<lambda>a. audit t ac i (md a))) d' E (\<lambda>_. ?S)"
    if "?S d' \<and> wf_db d'" for t ac md d'
    by (rule run_handle, rule run_mono [OF run_GetDeliveryAttemptByID])
      (use that in \<open>auto intro: run_return audit\<close>)
  have report: "run True (return (result_of OutcomeFailedTerminal, Some e)) d' E
      (\<lambda>(res, c). row_ends i (\<lambda>b. reported m a b res c))" if "?S d'" for d'
    using that assms(4,5) by (intro run_return) (auto simp: row_ends_def reported_def)
  show ?thesis
    unfolding failTerminal_def
    by (rule run_step [OF failed] run_step [where S = ?S] note_it report; assumption?)+
qed

lemma run_handleRetryable:
  assumes "wf_db d" "attempt_row d (att_ID a) = Some a" "att_Status a = InProgress" "IsRetryable e"
    and "ntf_ID n = att_NotificationID a"
  shows "run True (handleRetryable p n a channel pol e) d
     (\<lambda>_. row_ends (att_ID a) (\<lambda>b _. att_Status b = DeadLettered))
     (\<lambda>(res, c). row_ends (att_ID a) (\<lambda>b. reported (max_attempts p pol) a b res c))"
proof -
  let ?E = "\<lambda>_ :: err. row_ends (att_ID a) (\<lambda>b _. att_Status b = DeadLettered)"
  let ?D = "row_ends (att_ID a) (\<lambda>b _. att_Status b = DeadLettered \<and> att_LastError b = Some (Error e))"
  let ?L = "\<lambda>l d'. ?D d' \<and> l \<in> set (db_dead_letters d') \<and> dl_NotificationID l = att_NotificationID a \<and> dl_FinalError l = Error e"
  let ?R = "\<lambda>t. row_ends (att_ID a) (\<lambda>b _. att_Status b = RetryScheduled \<and> att_LastError b = Some (Error e)
      \<and> att_NextRetryAt b = Some t)"
  have dead: "run True (MarkAttemptDeadLettered (att_ID a) (Error e)) d ?E (\<lambda>_. ?D)"
    by (rule run_mono [OF run_finish [OF assms(1-3), of "DeadWith (Error e)", unfolded finish.simps]])
      (auto simp: row_ends_def dead_columns_def)
  have id: "run True IDGenerator d' ?E (\<lambda>_. ?D)" if "?D d'" for d'
    using that by (rule run_sources)
  have letter: "run True (InsertDeadLetter i (ntf_ID n) channel (Error e)) d' ?E ?L" if "?D d'" for i d'
    unfolding InsertDeadLetter_def using that assms(5)
    by (intro run_intros) (auto simp: insert_dead_letter_def constrained_def row_ends_def split: sum.splits)
  have retry: "run True (ScheduleRetry (att_ID a) (Error e) t) d ?E (\<lambda>_. ?R t)" for t
    by (rule run_mono [OF run_finish [OF assms(1-3), of "RetryAt (Error e) t", unfolded finish.simps]])
      (auto simp: row_ends_def retry_columns_def)
  have audit_letter: "run True (audit t ac j md) d' ?E (\<lambda>_. ?L l)" if "?L l d'" for t ac j md d' l
    by (rule run_audit_keeps [where S = "?L l", OF that]) (auto simp: row_ends_def)
  have audit_retry: "run True (audit s ac j md) d' ?E (\<lambda>_. ?R t)" if "?R t d'" for s ac j md d' t
    by (rule run_audit_keeps [where S = "?R t", OF that]) (auto simp: row_ends_def)
  have now: "run True (nextRetryAt p channel k pol) d ?E (\<lambda>_ d'. d' = d)" for k
    unfolding nextRetryAt_def by (intro run_intros) auto
  show ?thesis
  proof (cases "att_AttemptNumber a \<ge> max_attempts p pol")
    case True
    have report: "run True (return ((result_of OutcomeDeadLettered)\<lparr>rsl_DeadLetter := Some l\<rparr>, Some e)) d' ?E
        (\<lambda>(res, c). row_ends (att_ID a) (\<lambda>b. reported (max_attempts p pol) a b res c))" if "?L l d'" for l d'
      using that assms(4) True by (intro run_return) (auto simp: row_ends_def reported_def)
    from True show ?thesis
      unfolding handleRetryable_def
      apply simp
      apply (rule run_step [OF dead], rule run_step [OF id], assumption)
      apply (rule run_andThen, rule run_mono [OF letter], assumption, assumption)
      apply (rule run_step [OF audit_letter], assumption, rule report, assumption)
      done
  next
    case False
    have report: "run True (return ((result_of OutcomeRetryScheduled)\<lparr>rsl_NextRetryAt := Some t\<rparr>, Some e)) d' ?E
        (\<lambda>(res, c). row_ends (att_ID a) (\<lambda>b. reported (max_attempts p pol) a b res c))" if "?R t d'" for t d'
      using that assms(4) False by (intro run_return) (auto simp: row_ends_def reported_def)
    from False show ?thesis
      unfolding handleRetryable_def
      apply simp
      apply (rule run_step [OF now])
      apply (rule run_step, simp, rule retry)
      apply (rule run_step [OF audit_retry], assumption, rule report, assumption)
      done
  qed
qed

definition tenant_of_job :: "dispatch_job \<Rightarrow> db \<Rightarrow> string" where
  "tenant_of_job job d = (case notification_row d (job_NotificationID job) of None \<Rightarrow> [] | Some n \<Rightarrow> ntf_TenantID n)"

text \<open>The number of attempts that the policies of the tables allow for a job.\<close>

definition attempts_allowed :: "retry_policy \<Rightarrow> dispatch_job \<Rightarrow> db \<Rightarrow> int" where
  "attempts_allowed p job d = max_attempts p (resolve (tenant_of_job job d) (job_Channel job) d)"

lemma resolve_same: "db_policies d' = db_policies d \<Longrightarrow> resolve t c d' = resolve t c d"
  by (simp add: resolve_def matching_policies_def)

lemma attempts_allowed_same:
  assumes "rest_same d d'"
  shows "attempts_allowed p job d' = attempts_allowed p job d"
proof -
  have "map_option ntf_TenantID (notification_row d' (job_NotificationID job))
      = map_option ntf_TenantID (notification_row d (job_NotificationID job))"
    and p: "db_policies d' = db_policies d"
    using assms by (simp_all add: rest_same_def)
  then have "tenant_of_job job d' = tenant_of_job job d"
    by (cases "notification_row d' (job_NotificationID job)"; cases "notification_row d (job_NotificationID job)")
      (simp_all add: tenant_of_job_def)
  with resolve_same [OF p] show ?thesis by (simp add: attempts_allowed_def)
qed

lemma reported_active [simp]: "reported m (active_columns t a) b res c = reported m a b res c"
  by (auto simp: reported_def active_columns_def fun_eq_iff split: delivery_outcome.split)

lemma active_status [simp]: "att_Status (active_columns t a) = InProgress"
  by (simp add: active_columns_def)

text \<open>A job whose attempt is not pending changes nothing but the audit trail.\<close>

lemma run_refused:
  assumes "wf_db d" "attempt_row d i = Some a" "att_Status a \<noteq> Pending"
  shows "run True (MarkAttemptInProgress i) d (\<lambda>e d'. d' = d \<and> e = activation_refusal a) (\<lambda>_ _. False)"
  unfolding transitions
  by (rule run_mono [OF run_transition [OF assms(1)]])
    (use assms(2,3) in \<open>auto simp: active_columns_def attempt_move_def attempt_key_def attempt_ok_def\<close>)

lemma run_suppress_duplicate:
  assumes "wf_db d" "attempt_row d (job_AttemptID job) = Some a"
  shows "run True (suppress_duplicate job) d (\<lambda>_ _. False)
     (\<lambda>(res, c) d'. rsl_Outcome res = OutcomeDuplicateSuppressed \<and> c = None \<and> (\<exists>as. d' = d\<lparr>db_audits := as\<rparr>))"
proof -
  have get: "run True (GetDeliveryAttemptByID (job_AttemptID job)) d (\<lambda>_ _. False) (\<lambda>_ d'. d' = d)"
    unfolding GetDeliveryAttemptByID_def
    by (intro run_intros) (use assms(2) in \<open>auto simp: filter_lookup1 [OF wf_distinct(3) [OF assms(1)]]\<close>)
  show ?thesis
    unfolding suppress_duplicate_def
    by (rule run_step [OF get], rule run_andThen, rule run_audit) (auto intro!: run_return)
qed

context sender_contract
begin

lemma run_process_refused:
  assumes wf: "wf_db d" and a: "attempt_row d (job_AttemptID job) = Some a" "att_Status a \<noteq> Pending"
  shows "run True (process p sender job) d (\<lambda>e d'. d' = d \<and> att_Status a = Delivered \<and> e = ErrInvalidStateTransition)
     (\<lambda>(res, c) d'. rsl_Outcome res = OutcomeDuplicateSuppressed \<and> c = None \<and> att_Status a \<noteq> Delivered
        \<and> (\<exists>as. d' = d\<lparr>db_audits := as\<rparr>))"
proof -
  have cases: "IsAttemptAlreadyFinalized (activation_refusal a) \<or> IsAttemptAlreadyProcessing (activation_refusal a)
      \<longleftrightarrow> att_Status a \<noteq> Delivered"
    using a(2) by (cases "att_Status a")
      (auto simp: activation_refusal_def IsAttemptAlreadyFinalized_def IsAttemptAlreadyProcessing_def)
  show ?thesis
    unfolding process_def
    apply (rule run_handle, rule run_mono [OF run_refused [OF wf a]])
     apply (clarsimp simp only: cases)
     apply (rule run_If)
      apply (rule run_mono [OF run_suppress_duplicate [OF wf a(1)]]; auto)
     apply (rule run_fail)
     apply (simp add: activation_refusal_def)
    apply simp
    done
qed

lemma run_deliver:
  assumes wf: "wf_db d" and a: "attempt_row d (job_AttemptID job) = Some a" "att_Status a = InProgress"
  shows "run True (deliver p sender job) d
     (\<lambda>_. row_ends (job_AttemptID job) (\<lambda>b _. att_Status b \<in> {InProgress, DeadLettered}))
     (\<lambda>(res, c). row_ends (job_AttemptID job) (\<lambda>b. reported (attempts_allowed p job d) a b res c))"
proof -
  let ?i = "job_AttemptID job"
  let ?E = "\<lambda>_ :: err. row_ends ?i (\<lambda>b _. att_Status b \<in> {InProgress, DeadLettered})"
  let ?Q = "\<lambda>pol (res, c). row_ends ?i (\<lambda>b. reported (max_attempts p pol) a b res c)"
  have id: "att_ID a = ?i" using a(1) by (auto dest: lookup_Some)
  have stuck: "?E e d" for e using a by (simp add: row_ends_def)
  have finish: "run True (case snd_Error s of None \<Rightarrow> record_sent job s
       | Some e \<Rightarrow> if IsRetryable e then handleRetryable p n a (job_Channel job) pol e
           else failTerminal (ntf_TenantID n) (att_ID a) (job_Channel job) e) d ?E (?Q pol)"
    if "sending_ok pol es s" "ntf_ID n = att_NotificationID a" for es s n pol
  proof (cases "snd_Error s")
    case None
    then show ?thesis using run_record_sent [OF wf a] by simp
  next
    case (Some e)
    show ?thesis
    proof (cases "IsRetryable e")
      case True
      have "run True (handleRetryable p n a (job_Channel job) pol e) d ?E (?Q pol)"
        using a id by (intro run_mono [OF run_handleRetryable [OF wf _ _ True that(2)]]) (auto simp: row_ends_def)
      with Some True show ?thesis by simp
    next
      case False
      then have "IsTerminal e" using that(1) Some by (simp add: sending_ok_def)
      from run_failTerminal [OF wf a this False] False Some id show ?thesis by simp
    qed
  qed
  have send: "run True (andThen (ResolveDeliveryPolicy (ntf_TenantID n) (job_Channel job)) (\<lambda>pol.
     andThen (sender job n tp pol) (\<lambda>s. case snd_Error s of
         None \<Rightarrow> record_sent job s
       | Some e \<Rightarrow> if IsRetryable e then handleRetryable p n a (job_Channel job) pol e
           else failTerminal (ntf_TenantID n) (att_ID a) (job_Channel job) e))) d ?E
     (?Q (resolve (ntf_TenantID n) (job_Channel job) d))"
    if "ntf_ID n = att_NotificationID a" for n tp
    unfolding ResolveDeliveryPolicy_def
    by (rule run_andThen, rule run_query) (rule run_andThen, rule run_talks [OF sends], rule finish [OF _ that], simp_all)
  show ?thesis
    unfolding deliver_def
    apply (rule run_andThen, rule run_mono [OF run_LoadDeliveryJob [OF wf]])
     apply (use stuck in simp)
    apply (clarsimp simp: a(1))
    apply (rule run_mono [OF send])
    apply (auto simp: attempts_allowed_def tenant_of_job_def)
    done
qed

lemma run_process:
  assumes wf: "wf_db d" and a: "attempt_row d (job_AttemptID job) = Some a" "att_Status a = Pending"
  shows "run True (process p sender job) d
     (\<lambda>_. row_ends (job_AttemptID job) (\<lambda>b _. att_Status b \<in> {InProgress, DeadLettered}))
     (\<lambda>(res, c). row_ends (job_AttemptID job) (\<lambda>b. reported (attempts_allowed p job d) a b res c))"
  unfolding process_def
  apply (rule run_handle, rule run_mono [OF run_activate [OF wf a]])
   apply simp
  apply clarsimp
  subgoal for d' t
    using run_deliver [of d' job "active_columns t a" p] attempts_allowed_same [of d d' p job]
    by simp
  done

end

text \<open>
  C3.  The report of a worker is true, when the database answers.  For a pending attempt: it
  reports sent exactly when the row is sent; a terminal failure with the row failed; a retry with
  the row rescheduled for the reported time, and only while the tenant's attempts are not used up;
  a dead letter with the row dead-lettered and the letter stored, and only then; an error of the
  store leaves the attempt in progress or, without its letter, dead-lettered.  For any other
  attempt it suppresses the duplicate (or refuses), and changes nothing but the audit trail.
\<close>

theorem worker_reports_truth:
  assumes "wf_db (w_db w)" "calm w" "attempt_row (w_db w) (job_AttemptID job) = Some a"
    and "ProcessWebhook p tt backup job w = (r, w') \<or> ProcessEmail p tt primary secondary job w = (r, w')"
  shows "if att_Status a = Pending then (case r of
        Inl _ \<Rightarrow> row_ends (job_AttemptID job) (\<lambda>b _. att_Status b \<in> {InProgress, DeadLettered}) (w_db w')
      | Inr (res, c) \<Rightarrow> row_ends (job_AttemptID job)
          (\<lambda>b. reported (attempts_allowed p job (w_db w)) a b res c) (w_db w'))
    else (\<exists>as. w_db w' = (w_db w)\<lparr>db_audits := as\<rparr>) \<and> (case r of
        Inl e \<Rightarrow> att_Status a = Delivered \<and> e = ErrInvalidStateTransition
      | Inr (res, c) \<Rightarrow> att_Status a \<noteq> Delivered \<and> rsl_Outcome res = OutcomeDuplicateSuppressed \<and> c = None)"
  using assms(4)
proof
  assume "ProcessWebhook p tt backup job w = (r, w')"
  then have run: "process p (webhook_sender tt backup) job w = (r, w')" by (simp add: ProcessWebhook_def)
  show ?thesis
  proof (cases "att_Status a = Pending")
    case True
    from run_ends [OF webhook.run_process [OF assms(1,3) True] assms(2) run] True show ?thesis by (cases r) auto
  next
    case False
    from run_ends [OF webhook.run_process_refused [OF assms(1,3) False] assms(2) run] False
    show ?thesis by (cases r) (auto intro: exI [of _ "db_audits (w_db w)"])
  qed
next
  assume "ProcessEmail p tt primary secondary job w = (r, w')"
  then have run: "process p (email_sender tt primary secondary) job w = (r, w')" by (simp add: ProcessEmail_def)
  show ?thesis
  proof (cases "att_Status a = Pending")
    case True
    from run_ends [OF email.run_process [OF assms(1,3) True] assms(2) run] True show ?thesis by (cases r) auto
  next
    case False
    from run_ends [OF email.run_process_refused [OF assms(1,3) False] assms(2) run] False
    show ?thesis by (cases r) (auto intro: exI [of _ "db_audits (w_db w)"])
  qed
qed

text \<open>
  The witness: an email whose server refuses the recipient, once with attempts left and once, on
  the tables of \<^verbatim>\<open>db/schema.sql\<close>, without.
\<close>

definition refusing :: "event list \<Rightarrow> smtp_command \<Rightarrow> string option" where
  "refusing es c = (case c of RcptTo _ \<Rightarrow> Some ''550 no such user'' | _ \<Rightarrow> None)"

definition tired_worker :: worker_world where
  "tired_worker = worker_on refusing (sample_db Snapshot [att_in ''c'' ''n'' 3 Pending] [])"

lemma tired_worker_ok: "wf_db (w_db tired_worker)" "calm tired_worker"
  "attempt_row (w_db tired_worker) (job_AttemptID (job_for ''c'')) = Some (att_in ''c'' ''n'' 3 Pending)"
  by (simp_all add: tired_worker_def worker_on_def calm_def sample_wf_defs job_for_def lookup_def)

definition tired_delivery :: "(err + result \<times> cause option) \<times> worker_world" where
  "tired_delivery = ProcessEmail default_retries plain_text (mail_host ''h'') None (job_for ''c'') tired_worker"

lemma tired_delivery_result:
  "(case fst tired_delivery of Inl _ \<Rightarrow> None | Inr (res, c) \<Rightarrow> Some (rsl_Outcome res)) = Some OutcomeDeadLettered"
  by code_simp

theorem worker_reports_truth_witness:
  "row_ends ''c'' (\<lambda>b d. att_Status b = DeadLettered
     \<and> att_LastError b = Some ''set smtp recipient: 550 no such user'') (w_db (snd tired_delivery))"
proof -
  have "ProcessEmail default_retries plain_text (mail_host ''h'') None (job_for ''c'') tired_worker
      = (fst tired_delivery, snd tired_delivery)"
    by (simp add: tired_delivery_def)
  note truth = worker_reports_truth [OF tired_worker_ok disjI2 [OF this]]
  obtain res c where r: "fst tired_delivery = Inr (res, c)" "rsl_Outcome res = OutcomeDeadLettered"
    using tired_delivery_result by (auto split: sum.splits prod.splits)
  have "(case fst tired_delivery of Inl _ \<Rightarrow> None | Inr (res, c) \<Rightarrow> map_option Error c)
      = Some ''set smtp recipient: 550 no such user''"
    by code_simp
  with truth r show ?thesis
    by (auto simp: att_in_def job_for_def row_ends_def reported_def)
qed

subsection \<open>An email the server has accepted\<close>

definition plain_session :: "smtp_settings \<Rightarrow> bool" where
  "plain_session cfg = (smtp_Username cfg = [] \<and> \<not> smtp_StartTLS cfg \<and> one_line (smtp_From cfg))"

definition session_events :: "smtp_settings \<Rightarrow> email_request \<Rightarrow> event list" where
  "session_events cfg req = map Smtp [Dial (smtp_Host cfg) (smtp_Port cfg), Greet (smtp_Host cfg) (smtp_UseTLS cfg),
     MailFrom (smtp_From cfg), RcptTo (erq_To req), OpenData, WriteData (buildEmailMessage (smtp_From cfg) req),
     CloseData, Quit]"

text \<open>A server that accepts every command but drops the connection at the last one.\<close>

definition hangs_up :: "string \<Rightarrow> event list \<Rightarrow> smtp_command \<Rightarrow> string option" where
  "hangs_up e es c = (if c = Quit then Some e else None)"

lemma SMTPSend_hangs_up:
  assumes "plain_session cfg" "one_line (erq_To req)" "ww_smtp w = hangs_up e"
  shows "SMTPSend cfg req w = (Inr (Some (WrappedError ''smtp quit'' (PlainError e))),
    w\<lparr>ww_log := ww_log w @ session_events cfg req\<rparr>)"
  using assms
  by (simp add: SMTPSend_def attempting_def smtp_call_def andThen_def handle_def return_def encrypted_def
      authenticated_def transfer_def validated_line_def plain_session_def hangs_up_def session_events_def)

text \<open>
  \<^verbatim>\<open>Send\<close> reports a failure although the server has accepted the message, if only the
  closing \<^verbatim>\<open>QUIT\<close> fails.  With failover both servers then have accepted a copy, and the delivery
  is still reported as a failure that is to be retried: the recipient gets the message again.
\<close>

theorem accepted_mail_sent_again:
  assumes "plain_session primary" "plain_session secondary" "ww_smtp w = hangs_up e"
    and "ntf_RecipientEmail n = Some addr" "one_line addr" "trim_space addr \<noteq> []"
    and "RenderTemplate tt (tpl_Body tp) (ntf_Variables n) = Inr body" "res_FailoverEnabled pol"
  shows "\<exists>s. email_sender tt primary (Some secondary) job n tp pol w = (Inr s,
      w\<lparr>ww_log := ww_log w @ session_events primary (email_to job n tp body) @ session_events secondary (email_to job n tp body)\<rparr>)
    \<and> snd_Error s = Some (RetryableError (WrappedError ''smtp quit'' (PlainError e)))"
proof -
  let ?req = "email_to job n tp body"
  have to: "one_line (erq_To ?req)" using assms(4,5) by (simp add: email_to_def)
  note first = SMTPSend_hangs_up [OF assms(1) to assms(3)]
  have "ww_smtp (w\<lparr>ww_log := ww_log w @ session_events primary ?req\<rparr>) = hangs_up e" using assms(3) by simp
  note second = SMTPSend_hangs_up [OF assms(2) to this]
  show ?thesis
    using assms(4,6-8) first second
    by (simp add: email_sender_def blank_def andThen_def handle_def return_def MaybeRetryable_def not_sent_def)
qed

theorem accepted_mail_sent_again_witness:
  "\<exists>s. email_sender plain_text (mail_host ''h'') (Some (mail_host ''k'')) (job_for ''a'') ntf1 template1
      ((default_policy ''t'' ''email'')\<lparr>res_FailoverEnabled := True\<rparr>) (worker_on (hangs_up ''eof'') (w_db sample1)) =
      (Inr s, (worker_on (hangs_up ''eof'') (w_db sample1))\<lparr>ww_log :=
         session_events (mail_host ''h'') (email_to (job_for ''a'') ntf1 template1 ''hi'')
         @ session_events (mail_host ''k'') (email_to (job_for ''a'') ntf1 template1 ''hi'')\<rparr>)
    \<and> snd_Error s = Some (RetryableError (WrappedError ''smtp quit'' (PlainError ''eof'')))"
proof -
  have "RenderTemplate plain_text (tpl_Body template1) (ntf_Variables ntf1) = Inr ''hi''" by code_simp
  moreover have "ww_log (worker_on (hangs_up ''eof'') (w_db sample1)) = []" by (simp add: worker_on_def)
  ultimately show ?thesis
    using accepted_mail_sent_again [of "mail_host ''h''" "mail_host ''k''" "worker_on (hangs_up ''eof'') (w_db sample1)"
        "''eof''" ntf1 "''a@b''" plain_text template1 "''hi''"
        "(default_policy ''t'' ''email'')\<lparr>res_FailoverEnabled := True\<rparr>" "job_for ''a''"]
    by (simp add: plain_session_def mail_host_def CR_def LF_def worker_on_def ntf1_def trim_space_def is_space_def)
qed

end
