(* ===== verification/Dispatcher.thy ===== *)
theory Dispatcher
  imports Queue_Outcome
begin

text \<open>
  The dispatcher (\<^verbatim>\<open>cmd/dispatcher/main.go\<close>): it takes jobs from the shared queue and routes them to
  the queue of their channel.  The log lines and pauses are left out; a pass of the loop returns what
  it would log.
\<close>

datatype dispatch_report = NotReserved err | Discarded reserved_job | LeftReserved reserved_job
  | Requeued reserved_job | RoutedNotAcked reserved_job | Routed reserved_job

definition dispatch_once :: "nat \<Rightarrow> job_codec \<Rightarrow> ('t, 'r) redis_server \<Rightarrow> ('t, 'r, 'x, dispatch_report) qm" where
  "dispatch_once polls jc srv =
     handle (ReserveDispatch polls jc srv 1) (\<lambda>e. return (NotReserved e)) (\<lambda>reserved.
       case QueueNameForChannel (job_Channel (rsv_Job reserved)) of
         None \<Rightarrow> andThen (ignore (AckReserved srv reserved)) (\<lambda>_. return (Discarded reserved))
       | Some targetQueue \<Rightarrow>
           handle (EnqueueChannel jc srv (rsv_Job reserved))
             (\<lambda>_. handle (RequeueReserved srv reserved)
                (\<lambda>_. return (LeftReserved reserved)) (\<lambda>_. return (Requeued reserved)))
             (\<lambda>_. handle (AckReserved srv reserved)
                (\<lambda>_. return (RoutedNotAcked reserved)) (\<lambda>_. return (Routed reserved))))"

text \<open>
  The loop, until the context is done or the given number of passes is made; each pass polls until it
  gets a job or an error.
\<close>

fun dispatcher :: "nat \<Rightarrow> nat \<Rightarrow> job_codec \<Rightarrow> ('t, 'r) redis_server \<Rightarrow> ('t, 'r, 'x, dispatch_report list) qm" where
  "dispatcher 0 polls jc srv = return []"
| "dispatcher (Suc n) polls jc srv = andThen (dispatch_once polls jc srv) (\<lambda>rep.
     if rep = NotReserved context_canceled then return [rep]
     else andThen (dispatcher n polls jc srv) (\<lambda>reps. return (rep # reps)))"

definition routed :: "dispatch_report \<Rightarrow> reserved_job option" where
  "routed rep = (case rep of RoutedNotAcked r \<Rightarrow> Some r | Routed r \<Rightarrow> Some r | _ \<Rightarrow> None)"

definition given_up :: "dispatch_report \<Rightarrow> reserved_job option" where
  "given_up rep = (case rep of Discarded r \<Rightarrow> Some r | _ \<Rightarrow> routed rep)"

lemma channel_queue_source: "QueueNameForChannel c = Some t \<Longrightarrow> t \<in> sources \<and> t \<noteq> DispatchQueueName"
  by (auto simp: QueueNameForChannel_def sources_def queue_names split: if_splits)

context redis_lists
begin

lemma dispatch_once_outcome:
  assumes "steady w" "dispatch_once polls jc srv w = (x, w')"
  shows "\<exists>rep. x = Inr rep \<and> steady w'
    \<and> (\<forall>v. held DispatchQueueName v (contents (rw_data w))
        \<le> held DispatchQueueName v (contents (rw_data w')) + of_bool (\<exists>r. given_up rep = Some r \<and> rsv_payload r = v))
    \<and> (\<forall>r. rep = Discarded r \<longrightarrow> QueueNameForChannel (job_Channel (rsv_Job r)) = None)
    \<and> (\<forall>r. routed rep = Some r \<longrightarrow> (\<exists>t p. QueueNameForChannel (job_Channel (rsv_Job r)) = Some t
        \<and> jc_marshal jc (rsv_Job r) = Some p
        \<and> held t p (contents (rw_data w')) \<ge> Suc (held t p (contents (rw_data w)))))"
proof -
  let ?D = DispatchQueueName and ?B = "\<lambda>w. contents (rw_data w)"
  have D: "?D \<in> sources" by (simp add: sources_def)
  obtain y u where y: "ReserveDispatch polls jc srv 1 w = (y, u)" by (cases "ReserveDispatch polls jc srv 1 w")
  note res = reserve_counts [OF assms(1) D _ y [unfolded ReserveDispatch_def ReserveChannel_def]]
  show ?thesis
  proof (cases y)
    case (Inl e)
    then show ?thesis using assms(2) y res [OF D] by (auto simp: dispatch_once_def handle_def return_def given_up_def routed_def)
  next
    case (Inr r)
    then obtain p where r: "r = reservation ?D (rsv_Job r) p" "rsv_payload r = p" and u: "steady u"
      and held_u: "\<And>q v. q \<in> sources \<Longrightarrow> held q v (?B u) = held q v (?B w)"
      using res D by blast
    show ?thesis
    proof (cases "QueueNameForChannel (job_Channel (rsv_Job r))")
      case None
      obtain z u' where z: "AckReserved srv r u = (z, u')" by (cases "AckReserved srv r u")
      have x: "x = Inr (Discarded r)" "w' = u'" using assms(2) y Inr None z
        by (auto simp: dispatch_once_def handle_def return_def ignore_def andThen_def split: sum.splits)
      have "AckReserved srv (reservation ?D (rsv_Job r) p) u = (z, u')" using z r(1) by simp
      from ack_counts [OF u D D this] have a: "steady u'"
        "\<And>v. held ?D v (?B w) \<le> held ?D v (?B u') + of_bool (v = p)"
        by (simp_all add: held_u [OF D])
      have "held ?D v (?B w) \<le> held ?D v (?B u') + of_bool (rsv_payload r = v)" for v
        using a(2) [of v] r(2) by (simp add: eq_commute)
      with a(1) x None show ?thesis by (simp add: given_up_def routed_def)
    next
      case (Some t)
      note t = channel_queue_source [OF Some]
      obtain z u1 where z: "EnqueueChannel jc srv (rsv_Job r) u = (z, u1)" by (cases "EnqueueChannel jc srv (rsv_Job r) u")
      then have e: "enqueue jc srv t (rsv_Job r) u = (z, u1)" using Some by (simp add: EnqueueChannel_def)
      have s1: "steady u1" and h1: "\<And>q v. q \<in> sources \<Longrightarrow> held q v (?B w) \<le> held q v (?B u1)"
        using enqueue_counts [OF u conjunct1 [OF t] _ e] held_u D by metis+
      show ?thesis
      proof (cases z)
        case (Inl err)
        obtain a u2 where a: "RequeueReserved srv r u1 = (a, u2)" by (cases "RequeueReserved srv r u1")
        have "x = Inr (case a of Inl _ \<Rightarrow> LeftReserved r | Inr _ \<Rightarrow> Requeued r)" "w' = u2"
          using assms(2) y \<open>y = Inr r\<close> Some z Inl a by (auto simp: dispatch_once_def handle_def return_def split: sum.splits)
        then show ?thesis using requeue_counts [OF s1 D D, of "rsv_Job r" p a u2] a r h1 [OF D]
          by (auto simp: given_up_def routed_def intro: le_trans split: sum.splits)
      next
        case Inr2: (Inr un)
        obtain a u2 where a: "AckReserved srv r u1 = (a, u2)" by (cases "AckReserved srv r u1")
        have x: "x = Inr (case a of Inl _ \<Rightarrow> RoutedNotAcked r | Inr _ \<Rightarrow> Routed r)" "w' = u2"
          using assms(2) y \<open>y = Inr r\<close> Some z Inr2 a by (auto simp: dispatch_once_def handle_def return_def split: sum.splits)
        obtain p' where p': "jc_marshal jc (rsv_Job r) = Some p'" "?B u1 = pushed t p' (?B u)"
          using enqueue_outcome [OF u conjunct1 [OF t] e] Inr2 by auto
        then have new: "held t p' (?B u1) = Suc (held t p' (?B w))"
          using held_u [of t p'] t source_apart [of t t] by (simp add: held_def pushed_def)
        have ack: "steady u2 \<and> held q v (?B u1) \<le> held q v (?B u2) + of_bool (q = ?D \<and> v = p)" if "q \<in> sources" for q v
          using ack_counts [OF s1 D that, of "rsv_Job r" p a u2] a r by metis
        have "held ?D v (?B w) \<le> held ?D v (?B u2) + of_bool (p = v)" for v
          using h1 [OF D, of v] ack [OF D, of v] by (auto intro: le_trans split: if_splits)
        moreover have "Suc (held t p' (?B w)) \<le> held t p' (?B u2)" using ack [of t p'] t new by simp
        moreover have "steady u2" using ack [OF D, of p] by blast
        moreover have "x = Inr rep \<Longrightarrow> given_up rep = Some r \<and> routed rep = Some r \<and> (\<forall>r'. rep \<noteq> Discarded r')" for rep
          using x(1) by (auto simp: given_up_def routed_def split: sum.splits)
        ultimately show ?thesis using x p'(1) Some r(2) by auto
      qed
    qed
  qed
qed

end

text \<open>
  C26.  The dispatcher loses no job.  After a pass, under any faults, every payload has at least as many
  copies in the shared queue and its processing queue as before, but for the one job that the pass
  acknowledged; that job has no channel queue, or a new copy of it is in the queue of its channel.
\<close>

theorem dispatcher_keeps_jobs:
  assumes "redis_lists srv authed ready password db contents queued"
    "settled ready password db w" "dispatch_once polls jc srv w = (x, w')"
  shows "\<exists>rep. x = Inr rep
    \<and> (\<forall>v. held DispatchQueueName v (contents (rw_data w)) \<le> held DispatchQueueName v (contents (rw_data w'))
         \<or> (\<exists>r. given_up rep = Some r \<and> rsv_payload r = v
            \<and> held DispatchQueueName v (contents (rw_data w)) \<le> Suc (held DispatchQueueName v (contents (rw_data w')))
            \<and> (case QueueNameForChannel (job_Channel (rsv_Job r)) of None \<Rightarrow> rep = Discarded r
               | Some t \<Rightarrow> \<exists>p. jc_marshal jc (rsv_Job r) = Some p
                   \<and> held t p (contents (rw_data w')) \<ge> Suc (held t p (contents (rw_data w))))))"
proof -
  from redis_lists.dispatch_once_outcome [OF assms] obtain rep where rep: "x = Inr rep"
    "\<And>v. held DispatchQueueName v (contents (rw_data w))
        \<le> held DispatchQueueName v (contents (rw_data w')) + of_bool (\<exists>r. given_up rep = Some r \<and> rsv_payload r = v)"
    "\<And>r. rep = Discarded r \<Longrightarrow> QueueNameForChannel (job_Channel (rsv_Job r)) = None"
    "\<And>r. routed rep = Some r \<Longrightarrow> \<exists>t p. QueueNameForChannel (job_Channel (rsv_Job r)) = Some t
        \<and> jc_marshal jc (rsv_Job r) = Some p \<and> held t p (contents (rw_data w')) \<ge> Suc (held t p (contents (rw_data w)))"
    by blast
  let ?D = DispatchQueueName
  have g: "case QueueNameForChannel (job_Channel (rsv_Job r)) of None \<Rightarrow> rep = Discarded r
      | Some t \<Rightarrow> \<exists>p. jc_marshal jc (rsv_Job r) = Some p
          \<and> held t p (contents (rw_data w')) \<ge> Suc (held t p (contents (rw_data w)))" if "given_up rep = Some r" for r
    using rep(3) [of r] rep(4) [of r] that by (cases rep) (auto simp: given_up_def routed_def)
  have "held ?D v (contents (rw_data w)) \<le> held ?D v (contents (rw_data w'))
      \<or> (\<exists>r. given_up rep = Some r \<and> rsv_payload r = v
          \<and> held ?D v (contents (rw_data w)) \<le> Suc (held ?D v (contents (rw_data w'))))" for v
    using rep(2) [of v] by (cases "\<exists>r. given_up rep = Some r \<and> rsv_payload r = v") auto
  with g rep(1) show ?thesis by blast
qed

text \<open>The witness: the job is put into the queue for mail, but the connection is lost at the acknowledgement.\<close>

definition mail_codec :: job_codec where
  "mail_codec = id_codec\<lparr>jc_unmarshal := (\<lambda>v. Some (some_job\<lparr>job_JobID := v, job_Channel := ''email''\<rparr>))\<rparr>"

definition waiting_client where
  "waiting_client = new_client (replicate 4 Works @ [AnswerLost])
     (empty_keys(2 := (empty_keys 2)\<lparr>ks_lists := (\<lambda>_. [])(DispatchQueueName := [''j''])\<rparr>))"

definition routing_run where
  "routing_run = dispatch_once 1 mail_codec ref_server waiting_client"

theorem dispatcher_keeps_jobs_witness:
  "(\<exists>rep. fst routing_run = Inr rep
    \<and> (held DispatchQueueName ''j'' (ref_contents (rw_data waiting_client))
          \<le> held DispatchQueueName ''j'' (ref_contents (rw_data (snd routing_run)))
         \<or> (\<exists>r. given_up rep = Some r \<and> rsv_payload r = ''j''
            \<and> (\<exists>p. jc_marshal mail_codec (rsv_Job r) = Some p
                   \<and> held DispatchEmailQueueName p (ref_contents (rw_data (snd routing_run)))
                      \<ge> Suc (held DispatchEmailQueueName p (ref_contents (rw_data waiting_client)))))))
   \<and> map_sum id (\<lambda>rep. (map_option rsv_payload (routed rep), map_option (job_Channel \<circ> rsv_Job) (routed rep)))
       (fst routing_run) = Inr (Some ''j'', Some ''email'')"
proof -
  have s: "settled (ref_ready 2) ref_secret 2 waiting_client" by (simp add: waiting_client_def)
  have v: "map_sum id (\<lambda>rep. (map_option rsv_payload (routed rep), map_option (job_Channel \<circ> rsv_Job) (routed rep)))
       (fst routing_run) = Inr (Some ''j'', Some ''email'')" by code_simp
  from dispatcher_keeps_jobs [OF ref.redis_lists_axioms s routing_run_def [symmetric, THEN trans, OF prod.collapse [symmetric]]]
  obtain rep where rep: "fst routing_run = Inr rep"
    "held DispatchQueueName ''j'' (ref_contents (rw_data waiting_client))
          \<le> held DispatchQueueName ''j'' (ref_contents (rw_data (snd routing_run)))
         \<or> (\<exists>r. given_up rep = Some r \<and> rsv_payload r = ''j''
            \<and> (case QueueNameForChannel (job_Channel (rsv_Job r)) of None \<Rightarrow> rep = Discarded r
               | Some t \<Rightarrow> \<exists>p. jc_marshal mail_codec (rsv_Job r) = Some p
                   \<and> held t p (ref_contents (rw_data (snd routing_run))) \<ge> Suc (held t p (ref_contents (rw_data waiting_client)))))"
    by blast
  have "job_Channel (rsv_Job r) = ''email''" if "given_up rep = Some r" for r
    using v rep(1) that by (cases rep) (auto simp: given_up_def routed_def)
  then show ?thesis using rep v by (auto simp: QueueNameForChannel_def)
qed

end
