(* ===== verification/Outbox_Publisher.thy ===== *)
theory Outbox_Publisher
  imports Store_Leases Store_Retry Store_Schedule Worker_Runner Go_Time Config
begin

text \<open>
  The processes that move durable work along: the outbox publisher (\<^verbatim>\<open>internal/outbox/publisher.go\<close>),
  the retry worker (\<^verbatim>\<open>cmd/retry_worker\<close>) and the scheduler (\<^verbatim>\<open>cmd/scheduler\<close>), each as one pass of
  its loop.  Tickers and log lines are left out.
\<close>

subsection \<open>Identifiers\<close>

definition generateID :: "string \<Rightarrow> ('x world_scheme, string) sm" where
  "generateID prefix = andThen time_Now (\<lambda>now. return (prefix @ ''-'' @ Format_stamp now))"

definition retryAttemptID :: "string \<Rightarrow> string" where
  "retryAttemptID scheduledAttemptID = ''retry-'' @ scheduledAttemptID"

subsection \<open>The publisher\<close>

definition claimBatchSize :: int where
  "claimBatchSize = 10"

definition publishTimeout :: duration where
  "publishTimeout = 15 * second"

definition claimTimeout :: duration where
  "claimTimeout = (claimBatchSize + 1) * publishTimeout"

definition ErrorString :: "(err \<Rightarrow> string) \<Rightarrow> err option \<Rightarrow> string" where
  "ErrorString text e = (case e of None \<Rightarrow> [] | Some e \<Rightarrow> text e)"

text \<open>
  One claimed intent: its job is enqueued, then it is reported published; if the queue does not
  confirm the job, the intent is released with the error.  \<open>text\<close> is \<^verbatim>\<open>err.Error()\<close>; the result says
  whether the publication failed.
\<close>

definition job_of_intent :: "string \<Rightarrow> time \<Rightarrow> intent \<Rightarrow> dispatch_job" where
  "job_of_intent jobID now i = \<lparr>job_JobID = jobID, job_NotificationID = int_NotificationID i,
     job_AttemptID = int_AttemptID i, job_TenantID = int_TenantID i, job_Channel = int_Channel i, job_CreatedAt = now\<rparr>"

definition publication_audit :: "intent \<Rightarrow> json" where
  "publication_audit i = JObject [(''notification_id'', JString (int_NotificationID i)),
     (''attempt_id'', JString (int_AttemptID i)), (''channel'', JString (int_Channel i)),
     (''source'', JString (int_Source i))]"

definition publish_item ::
    "(err \<Rightarrow> string) \<Rightarrow> job_codec \<Rightarrow> ('t, 'r) redis_server \<Rightarrow> claimed_intent \<Rightarrow>
     (('t, 'r, 'x) redis_world_scheme \<times> 'y world_scheme, bool) sm" where
  "publish_item text jc srv item = (let i = cli_Intent item in
     case int_ClaimedAt i of
       None \<Rightarrow> fail (ErrText (''claimed dispatch intent missing claimed_at: '' @ int_ID i))
     | Some claimedAt \<Rightarrow>
         andThen (on_rest (generateID ''job'')) (\<lambda>jobID.
         andThen (on_rest time_Now) (\<lambda>now.
         handle (on_queue (EnqueueDispatch jc srv (job_of_intent jobID now i)))
           (\<lambda>e. andThen (ignore (on_rest (RecordDispatchIntentError (int_ID i) claimedAt (text e)))) (\<lambda>_.
                return True))
           (\<lambda>_. andThen (on_rest (MarkDispatchIntentPublished (int_ID i) claimedAt)) (\<lambda>_.
                andThen (on_rest (generateID ''audit'')) (\<lambda>auditID.
                andThen (ignore (on_rest (RecordAuditEvent auditID (int_TenantID i) ''outbox-publisher''
                  ''dispatch_published'' ''dispatch_intent'' (int_ID i) (publication_audit i)))) (\<lambda>_.
                return False)))))))"

definition publish_batch where
  "publish_batch text jc srv pending =
     andThen (forEach pending (publish_item text jc srv)) (\<lambda>failures. return (list_ex id failures))"

definition delayed :: "int \<Rightarrow> pressure_snapshot \<Rightarrow> bool" where
  "delayed softLimit snapshot =
     AnySoftLimited (if softLimit > 0 then snapshot\<lparr>prs_SoftLimit := softLimit\<rparr> else snapshot)"

text \<open>
  Claims and publishes batches until there is none, one failed, or the queues are too long.  Each
  round of the loop uses a unit of fuel.
\<close>

fun RunOnce ::
    "nat \<Rightarrow> (err \<Rightarrow> string) \<Rightarrow> job_codec \<Rightarrow> ('t, 'r) redis_server \<Rightarrow> int \<Rightarrow>
     (('t, 'r, 'x) redis_world_scheme \<times> 'y world_scheme, unit) sm" where
  "RunOnce 0 text jc srv softLimit = fail out_of_fuel"
| "RunOnce (Suc fuel) text jc srv softLimit =
     andThen (handle (on_queue (PressureSnapshot srv)) (\<lambda>_. return False) (\<lambda>snapshot. return (delayed softLimit snapshot)))
       (\<lambda>wait. if wait then return () else
         andThen (on_rest (ClaimPendingDispatchIntents claimBatchSize claimTimeout)) (\<lambda>pending.
         if pending = [] then return () else
         andThen (publish_batch text jc srv pending) (\<lambda>hadPublishFailure.
         if hadPublishFailure then return () else RunOnce fuel text jc srv softLimit)))"

subsection \<open>The retry worker and the scheduler\<close>

definition retry_audit :: "string \<Rightarrow> attempt \<Rightarrow> json" where
  "retry_audit scheduledID a = JObject [(''scheduled_attempt_id'', JString scheduledID),
     (''notification_id'', JString (att_NotificationID a)), (''channel'', JString (att_Channel a)),
     (''source'', JString ''retry''), (''attempt_id'', JString (att_ID a))]"

definition retry_item :: "retry_due \<Rightarrow> ('x world_scheme, unit) sm" where
  "retry_item item = (let scheduledID = att_ID (rda_Attempt item) in
     handle (EnsureRetryAttempt scheduledID (retryAttemptID scheduledID))
       (\<lambda>e. if e = ErrNotFound then return () else fail e)
       (\<lambda>created. andThen (generateID ''audit'') (\<lambda>auditID.
          ignore (RecordAuditEvent auditID (rda_TenantID created) ''retry-worker'' ''dispatch_intent_created''
            ''dispatch_intent'' (''intent-'' @ att_ID (rda_Attempt created))
            (retry_audit scheduledID (rda_Attempt created))))))"

definition retry_runOnce :: "('x world_scheme, unit) sm" where
  "retry_runOnce = andThen (ListDueRetryAttempts 50) (\<lambda>due.
     andThen (forEach due retry_item) (\<lambda>_. return ()))"

definition promotion_audit :: "promoted \<Rightarrow> json" where
  "promotion_audit item = JObject [(''attempt_id'', JString (att_ID (prm_Attempt item))),
     (''intent_id'', JString (int_ID (prm_Intent item))), (''channel'', JString (att_Channel (prm_Attempt item)))]"

definition scheduler_runOnce :: "time \<Rightarrow> ('x world_scheme, unit) sm" where
  "scheduler_runOnce now = andThen (PromoteDueScheduledNotifications 50 now) (\<lambda>promoted.
     andThen (forEach promoted (\<lambda>item. andThen (generateID ''audit'') (\<lambda>auditID.
       ignore (RecordAuditEvent auditID (ntf_TenantID (prm_Notification item)) ''scheduler'' ''notification_promoted''
         ''notification'' (ntf_ID (prm_Notification item)) (promotion_audit item))))) (\<lambda>_. return ()))"

text \<open>\<^verbatim>\<open>cmd/maintenance\<close>: the report is printed.\<close>

definition maintenance_run :: "config \<Rightarrow> time \<Rightarrow> ('x world_scheme, cleanup_result) sm" where
  "maintenance_run cfg now = RunMaintenance \<lparr>clp_Now = now,
     clp_AuditRetention = cfg_MaintenanceAuditRetention cfg, clp_OutboxRetention = cfg_MaintenanceOutboxRetention cfg,
     clp_DeadLetterRetention = cfg_MaintenanceDeadLetterRetention cfg, clp_DryRun = cfg_MaintenanceDryRun cfg\<rparr>"

lemma moves_generateID [moves_intros]: "obeys moves w_db (generateID prefix)"
  unfolding generateID_def by (intro mv.db_compose)

lemma moves_passes:
  "obeys moves w_db retry_runOnce" "obeys moves w_db (scheduler_runOnce now)"
  "obeys moves w_db (maintenance_run cfg now)"
  unfolding retry_runOnce_def retry_item_def scheduler_runOnce_def maintenance_run_def
  by (intro moves_intros mv.db_compose)+

subsection \<open>Triples of the common parts\<close>

lemma run_kept:
  "run True m d E Q \<Longrightarrow> obeys moves w_db m \<Longrightarrow> wf_db d \<Longrightarrow>
     run True m d (\<lambda>e d'. E e d' \<and> wf_db d') (\<lambda>x d'. Q x d' \<and> wf_db d')"
  unfolding run_def obeys_def moves_def by (auto split: sum.splits)

definition audited :: "db \<Rightarrow> db \<Rightarrow> bool" where
  "audited d d' = (\<exists>as. d' = d\<lparr>db_audits := as\<rparr>)"

lemma run_audited:
  "run True (RecordAuditEvent i tn ac an rt ri md) d (\<lambda>_. audited d) (\<lambda>_. audited d)"
proof -
  have "audited d d" unfolding audited_def by (rule exI [of _ "db_audits d"]) simp
  moreover have "audited d (d\<lparr>db_audits := as\<rparr>)" for as by (auto simp: audited_def)
  ultimately show ?thesis
    unfolding RecordAuditEvent_def
    by (intro run_intros) (auto simp: insert_audit_def constrained_def intro: run_return)
qed

lemma run_generateID [run_intros]: "(\<And>i. Q i d) \<Longrightarrow> run ok (generateID prefix) d E Q"
  unfolding generateID_def by (intro run_intros)

end
