(* ===== verification/Publisher_Outcome.thy ===== *)
theory Publisher_Outcome
  imports Outbox_Publisher
begin

text \<open>
  What the outbox publisher guarantees between the two stores: a job is in the queue before its
  intent is published, and a pass over a database that answers ends.
\<close>

subsection \<open>Pairs of a queue client and a store\<close>

definition job_for_intent :: "intent \<Rightarrow> dispatch_job \<Rightarrow> bool" where
  "job_for_intent i job = (job_AttemptID job = int_AttemptID i \<and> job_NotificationID job = int_NotificationID i
     \<and> job_TenantID job = int_TenantID i \<and> job_Channel job = int_Channel i)"

definition carried :: "job_codec \<Rightarrow> string list \<Rightarrow> intent \<Rightarrow> bool" where
  "carried jc ps i = list_ex (\<lambda>p. \<exists>job. jc_marshal jc job = Some p \<and> job_for_intent i job) ps"

lemma carried_frame: "intent_frame i j \<Longrightarrow> carried jc ps j = carried jc ps i"
  by (simp add: carried_def job_for_intent_def intent_frame_def)

text \<open>
  No intent is new, and a published one was published before, or it is one that \<open>C\<close> allows (as far
  as what the intent is for goes).
\<close>

definition allowed :: "(intent \<Rightarrow> bool) \<Rightarrow> intent \<Rightarrow> bool" where
  "allowed C i = (\<exists>j. intent_frame i j \<and> C j)"

definition publishes :: "(intent \<Rightarrow> bool) \<Rightarrow> db \<Rightarrow> db \<Rightarrow> bool" where
  "publishes C d d' = (\<forall>i' \<in> set (db_outbox d'). \<exists>i \<in> set (db_outbox d). intent_frame i i'
     \<and> (int_Status i' = IPublished \<longrightarrow> int_Status i = IPublished \<or> allowed C i))"

lemma intent_frame_refl [simp]: "intent_frame i i"
  by (simp add: intent_frame_def)

lemma allowed_frame: "intent_frame i j \<Longrightarrow> allowed C j = allowed C i"
  by (simp add: allowed_def intent_frame_def)

lemma allowed_self: "C i \<Longrightarrow> allowed C i"
  using intent_frame_refl unfolding allowed_def by blast

lemma publishesE:
  assumes "publishes C d d'" "i' \<in> set (db_outbox d')"
  obtains i where "i \<in> set (db_outbox d)" "intent_frame i i'"
    "int_Status i' = IPublished \<Longrightarrow> int_Status i = IPublished \<or> allowed C i"
  using assms unfolding publishes_def by blast

lemma publishes_weaken:
  assumes "publishes C d d'" "\<And>i. i \<in> set (db_outbox d) \<Longrightarrow> allowed C i \<Longrightarrow> allowed C' i"
  shows "publishes C' d d'"
  unfolding publishes_def by (meson assms publishesE)

interpretation pb: db_history "publishes C" for C
proof unfold_locales
  show "publishes C x x" for x by (auto simp: publishes_def intro: intent_frame_refl)
  show "publishes C x z" if "publishes C x y" "publishes C y z" for x y z
    unfolding publishes_def
  proof
    fix k assume "k \<in> set (db_outbox z)"
    with that(2) obtain j where j: "j \<in> set (db_outbox y)" "intent_frame j k"
      "int_Status k = IPublished \<Longrightarrow> int_Status j = IPublished \<or> allowed C j" using publishesE by blast
    from publishesE [OF that(1) j(1)] obtain i where i: "i \<in> set (db_outbox x)" "intent_frame i j"
      "int_Status j = IPublished \<Longrightarrow> int_Status i = IPublished \<or> allowed C i" by blast
    have "intent_frame i k" using i(2) j(2) by (simp add: intent_frame_def)
    moreover have "int_Status k = IPublished \<longrightarrow> int_Status i = IPublished \<or> allowed C i"
      using i(3) j(3) allowed_frame [OF i(2)] by blast
    ultimately show "\<exists>i \<in> set (db_outbox x). intent_frame i k
        \<and> (int_Status k = IPublished \<longrightarrow> int_Status i = IPublished \<or> allowed C i)" using i(1) by blast
  qed
qed

lemma publishes_update:
  assumes "\<And>i. i \<in> set (db_outbox d) \<Longrightarrow> P i \<Longrightarrow> intent_frame i (f i)
      \<and> (int_Status (f i) = IPublished \<longrightarrow> int_Status i = IPublished \<or> C i)"
  shows "publishes C d (d\<lparr>db_outbox := update_where P f (db_outbox d)\<rparr>)"
  using assms by (force simp: publishes_def update_where_def intro: allowed_self)

lemma publishes_same: "db_outbox d' = db_outbox d \<Longrightarrow> publishes C d d'"
  unfolding publishes_def using intent_frame_refl by metis

text \<open>The operations of the publisher.\<close>

lemma publishes_claim: "obeys (publishes C) w_db (ClaimPendingDispatchIntents l s)"
  unfolding ClaimPendingDispatchIntents_def
  by (intro pb.If pb.fail pb.stmt)
    (auto simp: claim_def Let_def claimed_row_def intent_frame_def intro!: publishes_update)

lemma publishes_record: "obeys (publishes C) w_db (RecordDispatchIntentError k c e)"
  unfolding RecordDispatchIntentError_def update_outbox_def
  by (intro pb.db_compose pb.stmt)
    (auto simp: released_row_def intent_frame_def intro!: publishes_update)

lemma publishes_audit: "obeys (publishes C) w_db (RecordAuditEvent i tn ac an rt ri md)"
  unfolding RecordAuditEvent_def insert_returning_def insert_audit_def
  by (intro pb.db_compose pb.stmt)
    (auto intro!: publishes_same simp: constrained_def split: sum.splits if_splits)

lemma publishes_generateID: "obeys (publishes C) w_db (generateID prefix)"
  unfolding generateID_def by (intro pb.db_compose)

lemma publishes_returning:
  assumes "\<And>t i. P i \<Longrightarrow> intent_frame i (f t i) \<and> C i"
  shows "obeys (publishes C) w_db (update_outbox_returning P f)"
  unfolding update_outbox_returning_def
  by (rule pb.stmt) (use assms in \<open>auto intro!: publishes_update split: list.splits\<close>)

lemma publishes_mark: "obeys (publishes (\<lambda>i. int_ID i = k)) w_db (MarkDispatchIntentPublished k c)"
  unfolding MarkDispatchIntentPublished_def update_attempts_def update_dead_letters_def
  by (intro pb.db_compose pb.stmt publishes_returning)
    (auto simp: leased_def published_row_def intent_frame_def intro!: publishes_same)

subsection \<open>The queue client and the store together\<close>

text \<open>
  What a computation of the publisher does: it puts jobs into the shared queue, and an intent that
  it published has its job among them.
\<close>

definition backed ::
    "job_codec \<Rightarrow> ('r \<Rightarrow> broker) \<Rightarrow> ('t, 'r, 'x) redis_world_scheme \<times> 'y world_scheme \<Rightarrow>
     ('t, 'r, 'x) redis_world_scheme \<times> 'y world_scheme \<Rightarrow> bool" where
  "backed jc contents w w' = (\<exists>ps. contents (rw_data (fst w')) =
        (contents (rw_data (fst w)))(DispatchQueueName := contents (rw_data (fst w)) DispatchQueueName @ ps)
      \<and> publishes (carried jc ps) (w_db (snd w)) (w_db (snd w')))"

text \<open>A claimed intent stands for the rows with its identifier.\<close>

definition known :: "db \<Rightarrow> intent \<Rightarrow> bool" where
  "known d i = (\<forall>j \<in> set (db_outbox d). int_ID j = int_ID i \<longrightarrow> intent_frame i j)"

lemma known_kept:
  assumes "publishes C d d'" "known d i" shows "known d' i"
  unfolding known_def
proof (intro ballI impI)
  fix j assume j: "j \<in> set (db_outbox d')" "int_ID j = int_ID i"
  from publishesE [OF assms(1) j(1)] obtain k where "k \<in> set (db_outbox d)" "intent_frame k j" by blast
  with assms(2) j(2) show "intent_frame i j" by (auto simp: known_def intent_frame_def)
qed

lemma backed_known: "backed jc contents w w' \<Longrightarrow> known (w_db (snd w)) i \<Longrightarrow> known (w_db (snd w')) i"
  unfolding backed_def using known_kept by blast

definition sound_pair where
  "sound_pair st K w = (st (fst w) \<and> wf_db (w_db (snd w)) \<and> (\<forall>i \<in> K. known (w_db (snd w)) i))"

definition publishing where
  "publishing st K jc contents w w' = (sound_pair st K w \<longrightarrow> sound_pair st K w' \<and> backed jc contents w w')"

lemma backed_trans:
  assumes "backed jc contents u v" "backed jc contents v w"
  shows "backed jc contents u w"
proof -
  from assms obtain ps qs where p: "contents (rw_data (fst v)) =
        (contents (rw_data (fst u)))(DispatchQueueName := contents (rw_data (fst u)) DispatchQueueName @ ps)"
      "publishes (carried jc ps) (w_db (snd u)) (w_db (snd v))"
    and q: "contents (rw_data (fst w)) =
        (contents (rw_data (fst v)))(DispatchQueueName := contents (rw_data (fst v)) DispatchQueueName @ qs)"
      "publishes (carried jc qs) (w_db (snd v)) (w_db (snd w))" unfolding backed_def by blast
  have "publishes (carried jc (ps @ qs)) (w_db (snd u)) (w_db (snd w))"
  proof (rule pb.trans)
    show "publishes (carried jc (ps @ qs)) (w_db (snd u)) (w_db (snd v))"
      using p(2) by (rule publishes_weaken) (auto simp: allowed_def carried_def)
    show "publishes (carried jc (ps @ qs)) (w_db (snd v)) (w_db (snd w))"
      using q(2) by (rule publishes_weaken) (auto simp: allowed_def carried_def)
  qed
  then show ?thesis using p(1) q(1) unfolding backed_def by (intro exI [of _ "ps @ qs"]) simp
qed

interpretation pp: history "publishing st K jc contents" for st K jc contents
proof unfold_locales
  show "publishing st K jc contents x x" for x
    by (auto simp: publishing_def backed_def pb.refl intro!: exI [of _ "[]"])
  show "publishing st K jc contents x y \<Longrightarrow> publishing st K jc contents y z \<Longrightarrow> publishing st K jc contents x z" for x y z
    unfolding publishing_def using backed_trans by blast
qed

lemma publishing_more:
  assumes "publishing st {} jc contents w w'" shows "publishing st K jc contents w w'"
  unfolding publishing_def
proof
  assume s: "sound_pair st K w"
  then have "sound_pair st {} w" by (simp add: sound_pair_def)
  with assms have "sound_pair st {} w'" and b: "backed jc contents w w'" by (simp_all add: publishing_def)
  with s backed_known [OF b] show "sound_pair st K w' \<and> backed jc contents w w'" by (simp add: sound_pair_def)
qed

lemma ends_more:
  assumes "obeys (publishing st {} jc contents) id m" shows "obeys (publishing st K jc contents) id m"
  unfolding obeys_def
proof
  fix w show "publishing st K jc contents (id w) (id (snd (m w)))"
    by (rule publishing_more) (rule assms [unfolded obeys_def, rule_format])
qed

lemma publishing_chain:
  assumes "publishing st {} jc contents u v" "publishing st K jc contents v w"
    "wf_db (w_db (snd u)) \<Longrightarrow> \<forall>i \<in> K. known (w_db (snd v)) i"
  shows "publishing st {} jc contents u w"
  unfolding publishing_def
proof
  assume s: "sound_pair st {} u"
  with assms(1) have "sound_pair st {} v" and b: "backed jc contents u v" by (simp_all add: publishing_def)
  with s assms(3) have "sound_pair st K v" by (simp add: sound_pair_def)
  with assms(2) have "sound_pair st K w" "backed jc contents v w" by (simp_all add: publishing_def)
  with backed_trans [OF b] show "sound_pair st {} w \<and> backed jc contents u w"
    by (simp add: sound_pair_def)
qed

lemma backed_rest:
  fixes m :: "('y world_scheme, 'a) sm" and contents :: "'r \<Rightarrow> broker"
  assumes "obeys moves w_db m" "obeys (publishes (\<lambda>_. False)) w_db m"
  shows "obeys (publishing (st :: ('t, 'r, 'x) redis_world_scheme \<Rightarrow> bool) K jc contents) id (on_rest m)"
  unfolding obeys_def
proof
  fix w :: "('t, 'r, 'x) redis_world_scheme \<times> 'y world_scheme"
  obtain x d where m: "m (snd w) = (x, d)" by (cases "m (snd w)")
  have "publishes (carried jc []) (w_db (snd w)) (w_db d)"
    using obeysD [OF assms(2) m] by (rule publishes_weaken) (simp add: allowed_def)
  then have b: "backed jc contents w (fst w, d)" unfolding backed_def by (intro exI [of _ "[]"]) simp
  show "publishing st K jc contents (id w) (id (snd (on_rest m w)))"
    using m obeysD [OF assms(1) m] b backed_known [OF b]
    by (simp add: publishing_def on_rest_def sound_pair_def moves_def)
qed

lemma backed_queue:
  fixes m :: "(('t, 'r, 'x) redis_world_scheme, 'a) sm" and contents :: "'r \<Rightarrow> broker"
  assumes "\<And>u x u'. st u \<Longrightarrow> m u = (x, u') \<Longrightarrow> st u' \<and> contents (rw_data u') = contents (rw_data u)"
  shows "obeys (publishing st K jc contents) id (on_queue m :: (('t, 'r, 'x) redis_world_scheme \<times> 'y world_scheme, 'a) sm)"
  unfolding obeys_def
proof
  fix w :: "('t, 'r, 'x) redis_world_scheme \<times> 'y world_scheme"
  obtain x u where m: "m (fst w) = (x, u)" by (cases "m (fst w)")
  have "backed jc contents w (u, snd w)" if "st (fst w)"
    using assms [OF that m] unfolding backed_def by (intro exI [of _ "[]"]) (simp add: pb.refl)
  then show "publishing st K jc contents (id w) (id (snd (on_queue m w)))"
    using m assms [OF _ m] by (simp add: publishing_def on_queue_def sound_pair_def)
qed

lemma known_claimed:
  assumes "wf_db (w_db d)" "ClaimPendingDispatchIntents l s d = (Inr xs, d')" "x \<in> set xs"
  shows "known (w_db d') (cli_Intent x)"
proof -
  from ClaimPendingDispatchIntents_claim [OF assms(2)] obtain t where
    c: "claim (limit_or 100 l) (stale_seconds s) t (w_db d) = (xs, w_db d')" by blast
  from claim_result [OF assms(1) c assms(3)] obtain i where
    i: "cli_Intent x = claimed_row t i" "claimed_row t i \<in> set (db_outbox (w_db d'))" by metis
  have "wf_db (w_db d')" using obeysD [OF moves_Claim assms(2)] assms(1) by (simp add: moves_def)
  then have "j = claimed_row t i" if "j \<in> set (db_outbox (w_db d'))" "int_ID j = int_ID (claimed_row t i)" for j
    using lookup_distinct [OF wf_distinct(4)] that i(2) by (metis option.inject)
  then show ?thesis using i(1) by (auto simp: known_def)
qed

lemma carried_job: "jc_marshal jc (job_of_intent jobID now i) = Some v \<Longrightarrow> carried jc [v] i"
  by (auto simp: carried_def job_for_intent_def job_of_intent_def)

lemma backed_mark:
  assumes "known (w_db d) i" "carried jc [v] i" "MarkDispatchIntentPublished (int_ID i) c d = (x, d')"
    "contents (rw_data u') = pushed DispatchQueueName v (contents (rw_data u))"
  shows "backed jc contents (u, d) (u', d')"
proof -
  have "publishes (carried jc [v]) (w_db d) (w_db d')"
    using obeysD [OF publishes_mark assms(3)]
  proof (rule publishes_weaken)
    fix j assume "j \<in> set (db_outbox (w_db d))" "allowed (\<lambda>j. int_ID j = int_ID i) j"
    then have "intent_frame i j" using assms(1) by (auto simp: allowed_def known_def intent_frame_def)
    then show "allowed (carried jc [v]) j"
      using assms(2) allowed_frame allowed_self by blast
  qed
  with assms(4) show ?thesis
    unfolding backed_def by (intro exI [of _ "[v]"]) (simp add: pushed_def)
qed

lemmas store_backed = backed_rest [OF moves_Claim publishes_claim]
  backed_rest [OF moves_reports(2) publishes_record] backed_rest [OF moves_records(4) publishes_audit]
  backed_rest [OF moves_generateID publishes_generateID] backed_rest [OF mv.time_Now pb.time_Now]

context redis_lists
begin

abbreviation ends_backed where
  "ends_backed \<equiv> \<lambda>K jc m. obeys (publishing steady K jc contents) id m"

lemma backed_pressure: "ends_backed K jc (on_queue (PressureSnapshot srv))"
proof (rule backed_queue)
  have "obeys (\<lambda>u u'. steady u \<longrightarrow> steady u' \<and> contents (rw_data u') = contents (rw_data u)) id (QueueDepth srv q)"
    if "q \<in> sources" for q
    unfolding obeys_def
  proof (intro allI impI)
    fix u assume u: "steady (id u)"
    have "run_op jc srv (OpDepth q) u = (case fst (QueueDepth srv q u) of Inl e \<Rightarrow> Inl e | Inr n \<Rightarrow> Inr (Count n),
        snd (QueueDepth srv q u))"
      by (cases "QueueDepth srv q u") (auto simp: andThen_def handle_def fail_def return_def split: sum.split)
    from op_refined [OF u [simplified] _ this] that
    show "steady (id (snd (QueueDepth srv q u)))
        \<and> contents (rw_data (id (snd (QueueDepth srv q u)))) = contents (rw_data (id u))"
      by (auto simp: refined_def)
  qed
  moreover have "history (\<lambda>u u'. steady u \<longrightarrow> steady u' \<and> contents (rw_data u') = contents (rw_data u))"
    by unfold_locales auto
  ultimately have "obeys (\<lambda>u u'. steady u \<longrightarrow> steady u' \<and> contents (rw_data u') = contents (rw_data u)) id (PressureSnapshot srv)"
    unfolding PressureSnapshot_def
    by (intro history.andThen history.forEach history.return) (auto simp: sources_def)
  then show "steady u' \<and> contents (rw_data u') = contents (rw_data u)"
    if "steady u" "PressureSnapshot srv u = (x, u')" for u x u'
    using obeysD that by fastforce
qed

lemma enqueue_pushes:
  assumes "steady u" "q \<in> sources" "enqueue jc srv q job u = (x, u')"
  shows "steady u' \<and> ((\<exists>v. jc_marshal jc job = Some v \<and> contents (rw_data u') = pushed q v (contents (rw_data u)))
    \<or> x \<noteq> Inr () \<and> contents (rw_data u') = contents (rw_data u))"
proof -
  have "run_op jc srv (OpEnqueue q job) u = (case x of Inl e \<Rightarrow> Inl e | Inr _ \<Rightarrow> Inr Done, u')"
    using assms(3) by (simp add: andThen_def handle_def fail_def return_def split: sum.split)
  from op_refined [OF assms(1) _ this] assms(2) show ?thesis
    by (cases x) (auto simp: refined_def failed_def split: option.splits if_splits)
qed

lemma backed_publish:
  fixes h :: "err \<Rightarrow> (('t, 'r, 'x) redis_world_scheme \<times> 'y world_scheme, 'a) sm"
  assumes "i \<in> K" "\<And>e. ends_backed K jc (h e)" "\<And>y. ends_backed K jc (k y)"
  shows "ends_backed K jc (handle (on_queue (EnqueueDispatch jc srv (job_of_intent jobID now i))) h
    (\<lambda>_. andThen (on_rest (MarkDispatchIntentPublished (int_ID i) c)) k))" (is "ends_backed K jc ?m")
  unfolding obeys_def
proof
  fix w :: "('t, 'r, 'x) redis_world_scheme \<times> 'y world_scheme"
  let ?R = "publishing steady K jc contents" and ?job = "job_of_intent jobID now i"
  obtain y u where y: "EnqueueDispatch jc srv ?job (fst w) = (y, u)" by (cases "EnqueueDispatch jc srv ?job (fst w)")
  note push = enqueue_pushes [OF _ _ y [unfolded EnqueueDispatch_def]]
  show "?R (id w) (id (snd (?m w)))"
  proof (cases y)
    case (Inl e)
    have "?R w (u, snd w)" unfolding publishing_def
    proof
      assume s: "sound_pair steady K w"
      then have "backed jc contents w (u, snd w)" using push unfolding backed_def
        by (auto simp: sound_pair_def sources_def pushed_def pb.refl intro: exI [of _ "[]"])
      then show "sound_pair steady K (u, snd w) \<and> backed jc contents w (u, snd w)"
        using s push by (auto simp: sound_pair_def sources_def)
    qed
    moreover have "?R (u, snd w) (snd (h e (u, snd w)))" using assms(2) by (simp add: obeys_def)
    ultimately have "?R w (snd (h e (u, snd w)))" by (rule pp.trans)
    then show ?thesis using y Inl by (simp add: handle_def on_queue_def)
  next
    case (Inr un)
    obtain z d where z: "MarkDispatchIntentPublished (int_ID i) c (snd w) = (z, d)"
      by (cases "MarkDispatchIntentPublished (int_ID i) c (snd w)")
    have first: "?R w (u, d)" unfolding publishing_def
    proof
      assume s: "sound_pair steady K w"
      then obtain v where v: "jc_marshal jc ?job = Some v" "steady u"
        "contents (rw_data u) = pushed DispatchQueueName v (contents (rw_data (fst w)))"
        using push Inr by (auto simp: sound_pair_def sources_def)
      have "known (w_db (snd w)) i" using s assms(1) by (simp add: sound_pair_def)
      then have b: "backed jc contents w (u, d)" using backed_mark [OF _ carried_job [OF v(1)] z v(3)] by simp
      moreover have "wf_db (w_db d)"
        using s obeysD [OF moves_reports(1) z] by (simp add: sound_pair_def moves_def)
      ultimately show "sound_pair steady K (u, d) \<and> backed jc contents w (u, d)"
        using v(2) s backed_known [OF b] by (simp add: sound_pair_def)
    qed
    show ?thesis
    proof (cases z)
      case (Inl e)
      then show ?thesis using first y Inr z by (simp add: handle_def andThen_def on_queue_def on_rest_def fail_def)
    next
      case Inr2: (Inr t)
      have "?R (u, d) (snd (k t (u, d)))" using assms(3) by (simp add: obeys_def)
      with first have "?R w (snd (k t (u, d)))" by (rule pp.trans)
      then show ?thesis using y Inr z Inr2 by (simp add: handle_def andThen_def on_queue_def on_rest_def)
    qed
  qed
qed

lemma backed_item:
  assumes "cli_Intent item \<in> K" shows "ends_backed K jc (publish_item text jc srv item)"
  unfolding publish_item_def Let_def
  by (cases "int_ClaimedAt (cli_Intent item)")
    (auto intro!: pp.compose store_backed backed_publish [OF assms])

lemma backed_RunOnce: "ends_backed {} jc (RunOnce fuel text jc srv softLimit
    :: (('t, 'r, 'x) redis_world_scheme \<times> 'y world_scheme, unit) sm)"
proof (induction fuel)
  case (Suc fuel)
  let ?rest = "\<lambda>pending. if pending = [] then return () else
    andThen (publish_batch text jc srv pending) (\<lambda>failure. if failure then return () else RunOnce fuel text jc srv softLimit
      :: (('t, 'r, 'x) redis_world_scheme \<times> 'y world_scheme, unit) sm)"
  have step: "ends_backed {} jc (andThen (on_rest (ClaimPendingDispatchIntents claimBatchSize claimTimeout)) ?rest)"
    (is "ends_backed {} jc ?m") unfolding obeys_def
  proof
    fix w :: "('t, 'r, 'x) redis_world_scheme \<times> 'y world_scheme"
    obtain y d where y: "ClaimPendingDispatchIntents claimBatchSize claimTimeout (snd w) = (y, d)"
      by (cases "ClaimPendingDispatchIntents claimBatchSize claimTimeout (snd w)")
    have first: "publishing steady {} jc contents w (fst w, d)"
    proof -
      have "on_rest (ClaimPendingDispatchIntents claimBatchSize claimTimeout) w = (y, (fst w, d))"
        by (simp add: on_rest_def y)
      from obeysD [OF store_backed(1) this] show ?thesis by simp
    qed
    show "publishing steady {} jc contents (id w) (id (snd (?m w)))"
    proof (cases y)
      case (Inl e)
      then show ?thesis using first y by (simp add: andThen_def handle_def on_rest_def fail_def)
    next
      case (Inr pending)
      let ?K = "cli_Intent ` set pending"
      have "ends_backed ?K jc (publish_batch text jc srv pending)"
        unfolding publish_batch_def by (intro pp.compose backed_item) simp
      moreover note ends_more [OF Suc.IH, where K = ?K]
      ultimately have "ends_backed ?K jc (?rest pending)" by (intro pp.compose)
      then have "publishing steady ?K jc contents (fst w, d) (snd (?rest pending (fst w, d)))"
        unfolding obeys_def by simp
      moreover have "\<forall>i \<in> ?K. known (w_db d) i" if "wf_db (w_db (snd w))"
        using known_claimed [OF that y [unfolded Inr]] by blast
      ultimately have "publishing steady {} jc contents w (snd (?rest pending (fst w, d)))"
        using publishing_chain [OF first] by simp
      then show ?thesis using y Inr by (simp add: andThen_def handle_def on_rest_def)
    qed
  qed
  show ?case unfolding RunOnce.simps by (intro pp.compose step backed_pressure)
qed (auto intro!: pp.compose)

end

text \<open>
  C17.  A job is in the queue before its intent is published.  Whatever the network, the server and the
  database do during a pass of the publisher, the shared queue only grows, and every intent that is
  published afterwards was published before, or a job for its attempt is among those the pass enqueued.
\<close>

theorem publisher_enqueues_first:
  assumes "redis_lists srv authed ready password db contents queued"
    "settled ready password db (fst w)" "wf_db (w_db (snd w))" "RunOnce fuel text jc srv softLimit w = (x, w')"
  shows "\<exists>ps. contents (rw_data (fst w')) = (contents (rw_data (fst w)))
        (DispatchQueueName := contents (rw_data (fst w)) DispatchQueueName @ ps)
    \<and> (\<forall>i' \<in> set (db_outbox (w_db (snd w'))). int_Status i' = IPublished \<longrightarrow>
        (\<exists>i \<in> set (db_outbox (w_db (snd w))). int_ID i = int_ID i' \<and> int_Status i = IPublished) \<or> carried jc ps i')"
proof -
  have "sound_pair (settled ready password db) {} w" using assms(2,3) by (simp add: sound_pair_def)
  with obeysD [OF redis_lists.backed_RunOnce [OF assms(1)] assms(4)]
  obtain ps where ps: "contents (rw_data (fst w')) = (contents (rw_data (fst w)))
        (DispatchQueueName := contents (rw_data (fst w)) DispatchQueueName @ ps)"
      "publishes (carried jc ps) (w_db (snd w)) (w_db (snd w'))"
    by (auto simp: publishing_def backed_def)
  have "(\<exists>i \<in> set (db_outbox (w_db (snd w))). int_ID i = int_ID i' \<and> int_Status i = IPublished) \<or> carried jc ps i'"
    if "i' \<in> set (db_outbox (w_db (snd w')))" "int_Status i' = IPublished" for i'
  proof -
    from publishesE [OF ps(2) that(1)] that(2) obtain i where i: "i \<in> set (db_outbox (w_db (snd w)))"
      "intent_frame i i'" "int_Status i = IPublished \<or> allowed (carried jc ps) i" by blast
    have "carried jc ps i'" if "allowed (carried jc ps) i"
      using that carried_frame i(2) unfolding allowed_def by blast
    with i show ?thesis by (auto simp: intent_frame_def)
  qed
  with ps(1) show ?thesis by blast
qed

text \<open>The witness: of two intents one is free; its job is enqueued, and the intent is published.\<close>

definition publisher_run where
  "publisher_run = RunOnce 3 (\<lambda>_. ''error'') id_codec ref_server 5 (new_client [] empty_keys, sample3)"

theorem publisher_enqueues_first_witness:
  "fst publisher_run = Inr () \<and> map int_Status (db_outbox (w_db (snd (snd publisher_run)))) = [IPublished, IPublishing]
   \<and> (\<exists>ps. ref_contents (rw_data (fst (snd publisher_run))) DispatchQueueName = ps
        \<and> carried id_codec ps (intent_for ''i'' (att_in ''a'' ''n'' 1 Pending)))"
proof -
  have run: "fst publisher_run = Inr ()" "map int_Status (db_outbox (w_db (snd (snd publisher_run)))) = [IPublished, IPublishing]"
    by code_simp+
  have row: "intent_frame (intent_for ''i'' (att_in ''a'' ''n'' 1 Pending)) (hd (db_outbox (w_db (snd (snd publisher_run)))))"
    by code_simp
  have old: "int_ID i = ''i'' \<Longrightarrow> int_Status i \<noteq> IPublished" if "i \<in> set (db_outbox (w_db sample3))" for i
    using that by (auto simp: sample3_def sample_defs)
  have s: "settled (ref_ready 2) ref_secret 2 (fst (new_client [] empty_keys, sample3))"
    "wf_db (w_db (snd (new_client [] empty_keys, sample3)))" by (simp_all add: sample3_ok)
  from publisher_enqueues_first [OF ref.redis_lists_axioms s publisher_run_def [symmetric, THEN trans, OF prod.collapse [symmetric]]]
  obtain ps where ps: "ref_contents (rw_data (fst (snd publisher_run))) DispatchQueueName = ps"
    "\<And>i'. i' \<in> set (db_outbox (w_db (snd (snd publisher_run)))) \<Longrightarrow> int_Status i' = IPublished \<Longrightarrow>
      (\<exists>i \<in> set (db_outbox (w_db sample3)). int_ID i = int_ID i' \<and> int_Status i = IPublished) \<or> carried id_codec ps i'"
    by (auto simp: ref_contents_def new_client_def empty_keys_def)
  let ?i = "hd (db_outbox (w_db (snd (snd publisher_run))))"
  have "?i \<in> set (db_outbox (w_db (snd (snd publisher_run))))" "int_Status ?i = IPublished"
    using run(2) by (cases "db_outbox (w_db (snd (snd publisher_run)))"; simp)+
  then have "carried id_codec ps ?i" using ps(2) [of ?i] old row by (auto simp: intent_frame_def intent_for_def)
  with ps(1) carried_frame [OF row] run show ?thesis by simp
qed

end
