(* ===== verification/Pair_Logic.thy ===== *)
theory Pair_Logic
  imports Worker_Runner Store_Logic
begin

text \<open>
  Triples for computations on a queue client and a store together: from tables \<open>d\<close>, what holds of the
  tables after an error and after a result, whatever the queue does.  With \<open>ok\<close> the database
  answers throughout; without it the triple holds under any faults.
\<close>

definition pair_run ::
    "bool \<Rightarrow> ('q \<times> 'y world_scheme, 'a) sm \<Rightarrow> db \<Rightarrow> (err \<Rightarrow> db \<Rightarrow> bool) \<Rightarrow> ('a \<Rightarrow> db \<Rightarrow> bool) \<Rightarrow> bool" where
  "pair_run ok m d E Q \<longleftrightarrow> (\<forall>w. (ok \<longrightarrow> calm (snd w)) \<and> w_db (snd w) = d \<longrightarrow> (ok \<longrightarrow> calm (snd (snd (m w))))
     \<and> (case fst (m w) of Inl e \<Rightarrow> E e (w_db (snd (snd (m w)))) | Inr x \<Rightarrow> Q x (w_db (snd (snd (m w))))))"

named_theorems pair_intros \<open>triples of the compositions\<close>

lemma pair_runI:
  "(\<And>w. (ok \<Longrightarrow> calm (snd w)) \<Longrightarrow> w_db (snd w) = d \<Longrightarrow> (ok \<longrightarrow> calm (snd (snd (m w))))
     \<and> (case fst (m w) of Inl e \<Rightarrow> E e (w_db (snd (snd (m w)))) | Inr x \<Rightarrow> Q x (w_db (snd (snd (m w)))))) \<Longrightarrow> pair_run ok m d E Q"
  by (simp add: pair_run_def)

lemma pair_ends:
  "pair_run ok m (w_db (snd w)) E Q \<Longrightarrow> (ok \<Longrightarrow> calm (snd w)) \<Longrightarrow> m w = (r, w') \<Longrightarrow>
     (ok \<longrightarrow> calm (snd w')) \<and> (case r of Inl e \<Rightarrow> E e (w_db (snd w')) | Inr x \<Rightarrow> Q x (w_db (snd w')))"
  unfolding pair_run_def by (drule spec [of _ w]) (cases r; auto)

lemma pair_at:
  "pair_run ok m d E Q \<Longrightarrow> (ok \<Longrightarrow> calm (snd w)) \<Longrightarrow> w_db (snd w) = d \<Longrightarrow> (ok \<longrightarrow> calm (snd (snd (m w))))
     \<and> (case fst (m w) of Inl e \<Rightarrow> E e (w_db (snd (snd (m w)))) | Inr x \<Rightarrow> Q x (w_db (snd (snd (m w)))))"
  unfolding pair_run_def by (drule spec [of _ w]) simp

lemma pair_mono:
  fixes m :: "('a \<times> 'b world_scheme, 'c) sm"
  assumes "pair_run ok m d E Q" "\<And>e d'. E e d' \<Longrightarrow> E' e d'" "\<And>x d'. Q x d' \<Longrightarrow> Q' x d'"
  shows "pair_run ok m d E' Q'"
proof (rule pair_runI)
  fix w :: "'a \<times> 'b world_scheme"
  assume "ok \<Longrightarrow> calm (snd w)" "w_db (snd w) = d"
  from pair_at [OF assms(1) this]
  show "(ok \<longrightarrow> calm (snd (snd (m w)))) \<and> (case fst (m w) of Inl e \<Rightarrow> E' e (w_db (snd (snd (m w))))
      | Inr x \<Rightarrow> Q' x (w_db (snd (snd (m w)))))"
    using assms(2,3) by (cases "fst (m w)") auto
qed

lemma pair_return [pair_intros]: "Q x d \<Longrightarrow> pair_run ok (return x) d E Q"
  by (simp add: pair_run_def return_def)

lemma pair_fail [pair_intros]: "E e d \<Longrightarrow> pair_run ok (fail e) d E Q"
  by (simp add: pair_run_def fail_def)

lemma pair_rest [pair_intros]: "run ok m d E Q \<Longrightarrow> pair_run ok (on_rest m) d E Q"
  unfolding pair_run_def run_def on_rest_def by (auto simp: prod.case_eq_if split: sum.splits)

lemma pair_queue_at:
  "(\<And>e q q'. m q = (Inl e, q') \<Longrightarrow> E e d) \<Longrightarrow> (\<And>x q q'. m q = (Inr x, q') \<Longrightarrow> Q x d) \<Longrightarrow> pair_run ok (on_queue m) d E Q"
  unfolding pair_run_def on_queue_def by (auto split: prod.splits sum.splits)

lemma pair_queue [pair_intros]: "(\<And>e. E e d) \<Longrightarrow> (\<And>x. Q x d) \<Longrightarrow> pair_run ok (on_queue m) d E Q"
  by (rule pair_queue_at)

lemma pair_handle [pair_intros]:
  fixes m :: "('q \<times> 'y world_scheme, 'a) sm"
  assumes "pair_run ok m d (\<lambda>e d'. pair_run ok (h e) d' E Q) (\<lambda>x d'. pair_run ok (k x) d' E Q)"
  shows "pair_run ok (handle m h k) d E Q"
proof (rule pair_runI)
  fix w :: "'q \<times> 'y world_scheme"
  assume w: "ok \<Longrightarrow> calm (snd w)" "w_db (snd w) = d"
  obtain r w' where m: "m w = (r, w')" by (cases "m w")
  have r: "(ok \<longrightarrow> calm (snd w')) \<and> (case r of Inl e \<Rightarrow> pair_run ok (h e) (w_db (snd w')) E Q
      | Inr x \<Rightarrow> pair_run ok (k x) (w_db (snd w')) E Q)"
    by (rule pair_ends [OF assms [folded w(2)] w(1) m])
  show "(ok \<longrightarrow> calm (snd (snd (handle m h k w)))) \<and> (case fst (handle m h k w) of
      Inl e \<Rightarrow> E e (w_db (snd (snd (handle m h k w)))) | Inr x \<Rightarrow> Q x (w_db (snd (snd (handle m h k w)))))"
  proof (cases r)
    case (Inl e)
    then have eq: "handle m h k w = h e w'" using m by (simp add: handle_def)
    show ?thesis unfolding eq by (rule pair_at [OF _ _ refl]) (use r Inl in simp_all)
  next
    case (Inr x)
    then have eq: "handle m h k w = k x w'" using m by (simp add: handle_def)
    show ?thesis unfolding eq by (rule pair_at [OF _ _ refl]) (use r Inr in simp_all)
  qed
qed

lemma pair_andThen [pair_intros]:
  "pair_run ok m d E (\<lambda>x d'. pair_run ok (k x) d' E Q) \<Longrightarrow> pair_run ok (andThen m k) d E Q"
  unfolding andThen_def by (rule pair_handle, erule pair_mono) (auto intro: pair_fail)

lemma pair_ignore [pair_intros]:
  "pair_run ok m d (\<lambda>_ d'. Q () d') (\<lambda>_ d'. Q () d') \<Longrightarrow> pair_run ok (ignore m) d E Q"
  unfolding ignore_def by (rule pair_handle, erule pair_mono) (auto intro: pair_return)

text \<open>
  The same for computations that do not fail while the database answers, from a given state of the queue client, with
  the state it is left in.
\<close>

definition full_run ::
    "('q \<times> 'y world_scheme, 'a) sm \<Rightarrow> 'q \<Rightarrow> db \<Rightarrow> ('a \<Rightarrow> 'q \<Rightarrow> db \<Rightarrow> bool) \<Rightarrow> bool" where
  "full_run m q d Q \<longleftrightarrow> (\<forall>w. fst w = q \<and> calm (snd w) \<and> w_db (snd w) = d \<longrightarrow>
     calm (snd (snd (m w))) \<and> (\<exists>x. fst (m w) = Inr x \<and> Q x (fst (snd (m w))) (w_db (snd (snd (m w))))))"

named_theorems full_intros \<open>triples of the compositions, with the queue client\<close>

lemma full_of_pair: "pair_run True m d (\<lambda>_ _. False) (\<lambda>x d'. \<forall>q'. Q x q' d') \<Longrightarrow> full_run m q d Q"
  unfolding pair_run_def full_run_def by (fastforce split: sum.splits)

lemma full_return [full_intros]: "Q x q d \<Longrightarrow> full_run (return x) q d Q"
  by (simp add: full_run_def return_def)

lemma full_andThen [full_intros]:
  "full_run m q d (\<lambda>x q' d'. full_run (k x) q' d' Q) \<Longrightarrow> full_run (andThen m k) q d Q"
  unfolding full_run_def andThen_def handle_def fail_def by (fastforce split: prod.splits sum.splits)

lemma full_handle_queue [full_intros]:
  "(\<And>e q'. m q = (Inl e, q') \<Longrightarrow> full_run (h e) q' d Q) \<Longrightarrow> (\<And>x q'. m q = (Inr x, q') \<Longrightarrow> full_run (k x) q' d Q) \<Longrightarrow>
   full_run (handle (on_queue m) h k) q d Q"
  unfolding full_run_def handle_def on_queue_def by (fastforce split: prod.splits sum.splits)

lemma full_mono: "full_run m q d Q \<Longrightarrow> (\<And>x q' d'. Q x q' d' \<Longrightarrow> Q' x q' d') \<Longrightarrow> full_run m q d Q'"
  unfolding full_run_def by fast

lemma full_ends:
  "full_run m (fst w) (w_db (snd w)) Q \<Longrightarrow> calm (snd w) \<Longrightarrow> m w = (x, w') \<Longrightarrow>
   \<exists>y. x = Inr y \<and> Q y (fst w') (w_db (snd w'))"
  unfolding full_run_def by (metis fst_conv snd_conv)

end
