(* ===== verification/Publisher_Progress.thy ===== *)
theory Publisher_Progress
  imports Publisher_Outcome Pair_Logic
begin

text \<open>
  A pass of the publisher over a database that answers ends: every round leaves fewer intents to
  publish, or is the last one, whatever the queue does.
\<close>

subsection \<open>What is left to publish\<close>

definition unpublished :: "db \<Rightarrow> string set" where
  "unpublished d = {k. \<exists>i. intent_row d k = Some i \<and> int_Status i \<noteq> IPublished}"

lemma finite_unpublished [simp]: "finite (unpublished d)"
proof (rule finite_subset)
  show "unpublished d \<subseteq> int_ID ` set (db_outbox d)" using lookup_Some by (force simp: unpublished_def)
  show "finite (int_ID ` set (db_outbox d))" by simp
qed

lemma unpublished_bound: "card (unpublished d) \<le> length (db_outbox d)"
proof -
  have "unpublished d \<subseteq> set (map int_ID (db_outbox d))" using lookup_Some by (force simp: unpublished_def)
  then show ?thesis by (metis List.finite_set card_length card_mono le_trans length_map)
qed

text \<open>A batch has one item for each of its intents.\<close>

lemma at_most_one:
  "distinct (keys_of key rs) \<Longrightarrow> length (filter (\<lambda>r. key r = Some k) rs) \<le> 1"
proof (induction rs)
  case (Cons r rs)
  show ?case
  proof (cases "key r = Some k")
    case True
    then have "Some k \<notin> key ` set rs" using Cons.prems by (auto simp: keys_of_def)
    then have "filter (\<lambda>r. key r = Some k) rs = []" by (force simp: filter_empty_conv)
    then show ?thesis by simp
  next
    case False
    moreover have "distinct (keys_of key rs)" using Cons.prems by (simp add: keys_of_def split: if_splits)
    ultimately show ?thesis using Cons.IH by simp
  qed
qed (simp add: keys_of_def)

lemma one_item:
  assumes "wf_db d" shows "map (int_ID \<circ> cli_Intent) (with_dead_letters d i) = [int_ID i]"
proof -
  have "length (filter (\<lambda>l. dl_ReplayAttemptID l = Some (int_AttemptID i)) (db_dead_letters d)) \<le> 1"
    by (rule at_most_one) (use assms in \<open>simp add: wf_db_defs\<close>)
  then show ?thesis by (auto simp: with_dead_letters_def length_Suc_conv split: list.split)
qed

lemma claim_distinct:
  assumes "wf_db d" "claim l s t d = (xs, d')"
  shows "distinct (map (int_ID \<circ> cli_Intent) xs)"
proof -
  let ?P = "\<lambda>i. int_ID i \<in> set (claim_ids l s t d)"
  let ?ys = "sort_key int_CreatedAt (map (claimed_row t) (filter ?P (db_outbox d)))"
  have "map (int_ID \<circ> cli_Intent) (concat (map (with_dead_letters d) ys)) = map int_ID ys" for ys
    using one_item [OF assms(1)] by (induction ys) (simp_all add: o_def)
  moreover have "xs = concat (map (with_dead_letters d) ?ys)" using assms(2) by (simp add: claim_def Let_def)
  moreover have "distinct (map int_ID ?ys)"
  proof -
    have "mset (map int_ID ?ys) = mset (map int_ID (filter ?P (db_outbox d)))"
      by (simp add: multiset.map_comp o_def)
    moreover have "distinct (map int_ID (filter ?P (db_outbox d)))"
      using wf_distinct(4) [OF assms(1)] by (rule distinct_map_filter)
    ultimately show ?thesis using mset_eq_imp_distinct_iff by blast
  qed
  ultimately show ?thesis by simp
qed

lemma unpublished_fewer:
  assumes "length (filter (\<lambda>i. int_Status i \<noteq> IPublished) (db_outbox d)) < fuel"
  shows "card (unpublished d) < fuel"
proof -
  have "unpublished d \<subseteq> set (map int_ID (filter (\<lambda>i. int_Status i \<noteq> IPublished) (db_outbox d)))"
    using lookup_Some by (force simp: unpublished_def)
  then have "card (unpublished d) \<le> length (filter (\<lambda>i. int_Status i \<noteq> IPublished) (db_outbox d))"
    by (metis List.finite_set card_length card_mono le_trans length_map)
  with assms show ?thesis by simp
qed

subsection \<open>The pass\<close>

definition leased_item :: "db \<Rightarrow> claimed_intent \<Rightarrow> bool" where
  "leased_item d x = (let k = int_ID (cli_Intent x) in \<exists>c. int_ClaimedAt (cli_Intent x) = Some c
     \<and> intent_row d k = Some (cli_Intent x) \<and> leased k c (cli_Intent x))"

lemma leased_unpublished: "leased_item d x \<Longrightarrow> int_ID (cli_Intent x) \<in> unpublished d"
  by (auto simp: leased_item_def unpublished_def leased_def Let_def)

text \<open>No intent waits any more, unless its delivery is paused.\<close>

definition nothing_waiting :: "db \<Rightarrow> bool" where
  "nothing_waiting d = (\<forall>i \<in> set (db_outbox d). int_Status i = IPending \<longrightarrow> sql_paused (int_TenantID i) (int_Channel i) d)"

lemma empty_claim:
  assumes "0 < l" "claim l s t d = (xs, d')" "xs = []"
  shows "nothing_waiting d'"
proof -
  let ?chosen = "\<lambda>i. int_ID i \<in> set (claim_ids l s t d)"
  have "with_dead_letters d i \<noteq> []" for i by (auto simp: with_dead_letters_def split: list.split)
  then have none: "filter ?chosen (db_outbox d) = []"
    using assms(2,3) by (auto simp: claim_def Let_def concat_eq_Nil_conv)
  have "claim_ids l s t d = []"
  proof (rule ccontr)
    assume "claim_ids l s t d \<noteq> []"
    then obtain i where "i \<in> set (take l (sort_key int_CreatedAt (filter (claimable s t d) (db_outbox d))))"
      unfolding claim_ids_def by (metis ex_in_conv list.map_disc_iff set_empty)
    then have "i \<in> set (db_outbox d)" "?chosen i" by (auto simp: claim_ids_def dest: in_set_takeD)
    with none show False by (metis empty_filter_conv)
  qed
  then have "filter (claimable s t d) (db_outbox d) = []"
    using assms(1) unfolding claim_ids_def
    by (metis (no_types) length_0_conv length_sort list.map_disc_iff neq0_conv take_eq_Nil)
  then have "\<forall>i \<in> set (db_outbox d). \<not> claimable s t d i" by (simp add: filter_empty_conv)
  moreover have "d' = d\<lparr>db_outbox := db_outbox d\<rparr>"
    using assms(2) \<open>claim_ids l s t d = []\<close> by (auto simp: claim_def Let_def update_where_def)
  ultimately show ?thesis by (auto simp: nothing_waiting_def claimable_def)
qed

lemma run_claim:
  assumes "wf_db d"
  shows "run True (ClaimPendingDispatchIntents claimBatchSize claimTimeout) d (\<lambda>_ _. False)
    (\<lambda>xs d'. wf_db d' \<and> unpublished d' = unpublished d \<and> distinct (map (int_ID \<circ> cli_Intent) xs)
      \<and> (\<forall>x \<in> set xs. leased_item d' x) \<and> (xs = [] \<longrightarrow> nothing_waiting d'))"
proof -
  have Q: "wf_db d' \<and> unpublished d' = unpublished d \<and> distinct (map (int_ID \<circ> cli_Intent) xs)
      \<and> (\<forall>x \<in> set xs. leased_item d' x) \<and> (xs = [] \<longrightarrow> nothing_waiting d')" if l: "0 < l" and c: "claim l s t d = (xs, d')" for l s t xs d'
  proof -
    have "moves d d'" using c by (auto simp: claim_def Let_def intro!: moves_update_outbox_db)
    with assms have wf: "wf_db d'" by (simp add: moves_def)
    have row: "intent_row d' j = map_option (\<lambda>i. if int_ID i \<in> set (claim_ids l s t d) then claimed_row t i else i) (intent_row d j)" for j
      using c by (auto simp: claim_def Let_def lookup_update_where)
    have "int_Status i \<noteq> IPublished" if "intent_row d j = Some i" "int_ID i \<in> set (claim_ids l s t d)" for i j
      using claim_ids_claimable [OF assms that(2)] lookup_Some [OF that(1)] by (auto simp: claimable_def)
    then have "j \<in> unpublished d' \<longleftrightarrow> j \<in> unpublished d" for j
      by (cases "intent_row d j") (auto simp: unpublished_def row claimed_row_def)
    then have u: "unpublished d' = unpublished d" by blast
    have "leased_item d' x" if "x \<in> set xs" for x
    proof -
      from claim_result [OF assms c that] obtain i where i: "cli_Intent x = claimed_row t i"
        "claimed_row t i \<in> set (db_outbox d')" by metis
      from lookup_distinct [OF wf_distinct(4) [OF wf] i(2)] show ?thesis
        by (simp add: leased_item_def i(1) leased_def) (simp add: claimed_row_def)
    qed
    with wf u claim_distinct [OF assms c] empty_claim [OF l c] show ?thesis by blast
  qed
  have "claimTimeout > 0" by (simp add: claimTimeout_def claimBatchSize_def publishTimeout_def second_def)
  then show ?thesis unfolding ClaimPendingDispatchIntents_def
    by (simp, intro run_stmt) (auto dest: Q [rotated] simp: limit_or_def claimBatchSize_def split: prod.split)
qed

text \<open>An intent waits again after its publication failed, and tells with what error.\<close>

definition gave_up :: "(err \<Rightarrow> string) \<Rightarrow> (dispatch_job \<Rightarrow> err \<Rightarrow> bool) \<Rightarrow> db \<Rightarrow> string \<Rightarrow> bool" where
  "gave_up text failing d k = (\<exists>i jobID now e. intent_row d k = Some i \<and> int_Status i = IPending
     \<and> int_LastError i = Some (text e) \<and> failing (job_of_intent jobID now i) e)"

lemma pair_item:
  fixes srv :: "('t, 'r) redis_server"
  assumes wf: "wf_db d" and x: "leased_item d x"
    and failing: "\<And>job e (q :: ('t, 'r, 'x) redis_world_scheme) q'. EnqueueDispatch jc srv job q = (Inl e, q') \<Longrightarrow> failing job e"
  defines "k \<equiv> int_ID (cli_Intent x)"
  shows "pair_run True (publish_item text jc srv x :: (('t, 'r, 'x) redis_world_scheme \<times> 'y world_scheme, bool) sm) d (\<lambda>_ _. False)
    (\<lambda>failure d'. wf_db d' \<and> (\<forall>j. j \<noteq> k \<longrightarrow> intent_row d' j = intent_row d j)
      \<and> unpublished d' = (if failure then unpublished d else unpublished d - {k})
      \<and> (failure \<longrightarrow> gave_up text failing d' k))"
    (is "pair_run True _ d _ ?Q")
proof -
  let ?i = "cli_Intent x"
  from x obtain c where i: "int_ClaimedAt ?i = Some c" "intent_row d k = Some ?i" "leased k c ?i"
    by (auto simp: leased_item_def k_def Let_def)
  let ?same = "\<lambda>d'. \<forall>j. j \<noteq> k \<longrightarrow> intent_row d' j = intent_row d j"
  have k: "k \<in> unpublished d" using leased_unpublished [OF x] by (simp add: k_def)
  have still: "unpublished d' = unpublished d" if "?same d'" "\<And>i'. intent_row d' k = Some i' \<Longrightarrow> int_Status i' \<noteq> IPublished"
    "intent_row d' k \<noteq> None" for d'
  proof -
    have "j \<in> unpublished d' \<longleftrightarrow> j \<in> unpublished d" for j
      using that k by (cases "j = k") (auto simp: unpublished_def)
    then show ?thesis by blast
  qed
  have gone: "unpublished d' = unpublished d - {k}" if "?same d'" "intent_row d' k = Some i'" "int_Status i' = IPublished" for d' i'
  proof -
    have "j \<in> unpublished d' \<longleftrightarrow> j \<in> unpublished d \<and> j \<noteq> k" for j
      using that by (cases "j = k") (auto simp: unpublished_def)
    then show ?thesis by blast
  qed
  have released: "run True (RecordDispatchIntentError k c (text e)) d (\<lambda>_ _. False) (\<lambda>_ d'. ?Q True d')"
    if "failing (job_of_intent jobID now ?i) e" for e jobID now
    using run_kept [OF run_RecordDispatchIntentError [OF wf] moves_reports(2) wf]
  proof (rule run_mono)
    fix u d' assume "(case intent_row d k of None \<Rightarrow> False
        | Some i \<Rightarrow> if leased k c i then d' = d\<lparr>db_outbox := db_outbox d'\<rparr>
              \<and> (\<forall>j. intent_row d' j = (if j = k then Some (released_row (text e) i) else intent_row d j))
            else int_Status i = IPublished \<and> d' = d) \<and> wf_db d'"
    then have r: "wf_db d'" "\<And>j. intent_row d' j = (if j = k then Some (released_row (text e) ?i) else intent_row d j)"
      using i by simp_all
    have "job_of_intent jobID now (released_row (text e) ?i) = job_of_intent jobID now ?i"
      by (simp add: job_of_intent_def released_row_def)
    with that r have "gave_up text failing d' k"
      unfolding gave_up_def
      by (intro exI [of _ "released_row (text e) ?i"] exI [of _ jobID] exI [of _ now] exI [of _ e])
        (simp add: released_row_def)
    with r show "?Q True d'" using still [of d'] by (simp add: released_row_def)
  qed (use i in simp)
  have published: "run True (MarkDispatchIntentPublished k c) d (\<lambda>_ _. False) (\<lambda>_ d'. ?Q False d')"
    using run_kept [OF run_MarkDispatchIntentPublished [OF wf] moves_reports(1) wf]
  proof (rule run_mono)
    fix u d' assume "(case intent_row d k of None \<Rightarrow> False
        | Some i \<Rightarrow> if leased k c i then reported k d d' i else int_Status i = IPublished \<and> d' = d) \<and> wf_db d'"
    then have "wf_db d'" "reported k d d' ?i" using i by simp_all
    moreover from this(2) obtain t where "intent_row d' k = Some (published_row t ?i)" "?same d'"
      by (auto simp: reported_def)
    ultimately show "?Q False d'" using gone [of d'] by (simp add: published_row_def)
  qed (use i in simp)
  have audited: "run True (RecordAuditEvent ai tn ac an rt ri md) d' (\<lambda>_ d'. ?Q False d') (\<lambda>_ d'. ?Q False d')"
    if "?Q False d'" for d' ai tn ac an rt ri md
    using run_kept [OF run_audited moves_records(4) conjunct1 [OF that]]
    by (rule run_mono) (use that in \<open>auto simp: unpublished_def audited_def\<close>)
  have failure: "pair_run True (andThen (ignore (on_rest (RecordDispatchIntentError k c (text e)))) (\<lambda>_. return True)) d
      (\<lambda>_ _. False) ?Q"
    if "EnqueueDispatch jc srv (job_of_intent jobID now ?i) q = (Inl e, q')"
    for e jobID now and q q' :: "('t, 'r, 'x) redis_world_scheme"
    by (intro pair_andThen pair_ignore pair_rest run_mono [OF released [OF failing [OF that]]]) (auto intro: pair_return)
  have success: "pair_run True (andThen (on_rest (MarkDispatchIntentPublished k c)) (\<lambda>_.
      andThen (on_rest (generateID ''audit'')) (\<lambda>auditID.
      andThen (ignore (on_rest (RecordAuditEvent auditID (int_TenantID ?i) ''outbox-publisher''
        ''dispatch_published'' ''dispatch_intent'' k (publication_audit ?i)))) (\<lambda>_. return False)))) d (\<lambda>_ _. False) ?Q"
    by (intro pair_intros run_intros run_mono [OF published]) (auto intro!: pair_intros run_intros run_mono [OF audited])
  show ?thesis
    unfolding publish_item_def Let_def i(1) option.case k_def [symmetric]
    by (intro pair_andThen pair_rest run_intros pair_handle pair_queue_at failure success)
qed

lemma pair_items:
  fixes srv :: "('t, 'r) redis_server"
  assumes failing: "\<And>job e (q :: ('t, 'r, 'x) redis_world_scheme) q'. EnqueueDispatch jc srv job q = (Inl e, q') \<Longrightarrow> failing job e"
    and "wf_db d" "distinct (map (int_ID \<circ> cli_Intent) items)" "\<forall>x \<in> set items. leased_item d x"
  shows "pair_run True (forEach items (publish_item text jc srv
    :: claimed_intent \<Rightarrow> (('t, 'r, 'x) redis_world_scheme \<times> 'y world_scheme, bool) sm)) d (\<lambda>_ _. False) (\<lambda>failures d'. wf_db d'
    \<and> (\<forall>j. j \<notin> (int_ID \<circ> cli_Intent) ` set items \<longrightarrow> intent_row d' j = intent_row d j)
    \<and> (if list_ex id failures then \<exists>k. gave_up text failing d' k
       else unpublished d' = unpublished d - (int_ID \<circ> cli_Intent) ` set items))"
  using assms(2-4)
proof (induction items arbitrary: d)
  case (Cons x items)
  let ?k = "int_ID (cli_Intent x)" and ?ks = "(int_ID \<circ> cli_Intent) ` set items"
  let ?loop = "forEach items (publish_item text jc srv
    :: claimed_intent \<Rightarrow> (('t, 'r, 'x) redis_world_scheme \<times> 'y world_scheme, bool) sm)"
  from Cons.prems have x: "leased_item d x" by simp
  have k: "?k \<notin> ?ks" using Cons.prems(2) by (simp add: o_def)
  show ?case unfolding forEach.simps
  proof (rule pair_andThen, rule pair_mono [OF pair_item [OF Cons.prems(1) x failing]])
    fix failure d1
    assume d1: "wf_db d1 \<and> (\<forall>j. j \<noteq> ?k \<longrightarrow> intent_row d1 j = intent_row d j)
      \<and> unpublished d1 = (if failure then unpublished d else unpublished d - {?k})
      \<and> (failure \<longrightarrow> gave_up text failing d1 ?k)"
    have "leased_item d1 y" if "y \<in> set items" for y
    proof -
      have "int_ID (cli_Intent y) \<noteq> ?k" using that k by (metis comp_apply image_eqI)
      then show ?thesis using Cons.prems(3) that d1 by (simp add: leased_item_def)
    qed
    then have "\<forall>y \<in> set items. leased_item d1 y" by blast
    with Cons.prems(2) d1 have "pair_run True ?loop d1 (\<lambda>_ _. False) (\<lambda>failures d'. wf_db d'
        \<and> (\<forall>j. j \<notin> ?ks \<longrightarrow> intent_row d' j = intent_row d1 j)
        \<and> (if list_ex id failures then \<exists>k. gave_up text failing d' k else unpublished d' = unpublished d1 - ?ks))"
      by (intro Cons.IH) auto
    moreover have "(\<forall>j. j \<notin> (int_ID \<circ> cli_Intent) ` set (x # items) \<longrightarrow> intent_row d' j = intent_row d j)
        \<and> (if list_ex id (failure # failures) then \<exists>k. gave_up text failing d' k
           else unpublished d' = unpublished d - (int_ID \<circ> cli_Intent) ` set (x # items))"
      if "(\<forall>j. j \<notin> ?ks \<longrightarrow> intent_row d' j = intent_row d1 j)
        \<and> (if list_ex id failures then \<exists>k. gave_up text failing d' k else unpublished d' = unpublished d1 - ?ks)" for failures d'
    proof -
      have "intent_row d' ?k = intent_row d1 ?k" using that k by blast
      with d1 have "failure \<Longrightarrow> gave_up text failing d' ?k" by (simp add: gave_up_def)
      then show ?thesis using that d1 by (auto split: if_splits)
    qed
    ultimately show "pair_run True (andThen ?loop (\<lambda>ys. return (failure # ys))) d1
      (\<lambda>_ _. False) (\<lambda>failures d'. wf_db d'
        \<and> (\<forall>j. j \<notin> (int_ID \<circ> cli_Intent) ` set (x # items) \<longrightarrow> intent_row d' j = intent_row d j)
        \<and> (if list_ex id failures then \<exists>k. gave_up text failing d' k
           else unpublished d' = unpublished d - (int_ID \<circ> cli_Intent) ` set (x # items)))"
      by (intro pair_andThen) (erule pair_mono, simp, rule pair_return, blast)
  qed simp
qed (simp add: pair_return)

text \<open>Why a pass ended: nothing waits, a publication failed, or the queues were too long at the last look.\<close>

definition pass_ended ::
    "(err \<Rightarrow> string) \<Rightarrow> (dispatch_job \<Rightarrow> err \<Rightarrow> bool) \<Rightarrow> ('q \<Rightarrow> (err + pressure_snapshot) \<times> 'q) \<Rightarrow> int \<Rightarrow> 'q \<Rightarrow> db \<Rightarrow> bool" where
  "pass_ended text failing look softLimit q d = (nothing_waiting d \<or> (\<exists>k. gave_up text failing d k)
     \<or> (\<exists>q0 snapshot. look q0 = (Inr snapshot, q) \<and> delayed softLimit snapshot))"

lemma full_RunOnce:
  fixes srv :: "('t, 'r) redis_server" and q :: "('t, 'r, 'x) redis_world_scheme"
  assumes failing: "\<And>job e (q :: ('t, 'r, 'x) redis_world_scheme) q'. EnqueueDispatch jc srv job q = (Inl e, q') \<Longrightarrow> failing job e"
    and "wf_db d" "card (unpublished d) < fuel"
  shows "full_run (RunOnce fuel text jc srv softLimit
    :: (('t, 'r, 'x) redis_world_scheme \<times> 'y world_scheme, unit) sm) q d
      (\<lambda>_ q' d'. pass_ended text failing (PressureSnapshot srv) softLimit q' d')"
  using assms(2,3)
proof (induction fuel arbitrary: q d)
  case (Suc fuel)
  let ?Q = "\<lambda>_ q' d'. pass_ended text failing (PressureSnapshot srv) softLimit q' d'"
  let ?run = "RunOnce fuel text jc srv softLimit :: (('t, 'r, 'x) redis_world_scheme \<times> 'y world_scheme, unit) sm"
  let ?rest = "\<lambda>pending. if pending = [] then return ()
    else andThen (publish_batch text jc srv pending) (\<lambda>failure. if failure then return () else ?run)"
  have batch: "full_run (?rest pending) q1 d1 ?Q"
    if "wf_db d1" "unpublished d1 = unpublished d" "distinct (map (int_ID \<circ> cli_Intent) pending)"
      "\<forall>x \<in> set pending. leased_item d1 x" "pending = [] \<longrightarrow> nothing_waiting d1" for d1 pending q1
  proof (cases "pending = []")
    case True
    then show ?thesis using that(5) by (simp add: full_return pass_ended_def)
  next
    case False
    then obtain x where x: "x \<in> set pending" by (cases pending) auto
    have again: "full_run (if list_ex id failures then return () else ?run) q' d' ?Q"
      if d': "wf_db d' \<and> (\<forall>j. j \<notin> (int_ID \<circ> cli_Intent) ` set pending \<longrightarrow> intent_row d' j = intent_row d1 j)
        \<and> (if list_ex id failures then \<exists>k. gave_up text failing d' k
           else unpublished d' = unpublished d1 - (int_ID \<circ> cli_Intent) ` set pending)" for failures q' d'
    proof (cases "list_ex id failures")
      case True
      with d' show ?thesis by (simp add: full_return pass_ended_def)
    next
      case False
      then have u: "unpublished d' = unpublished d - (int_ID \<circ> cli_Intent) ` set pending"
        using d' \<open>unpublished d1 = unpublished d\<close> by simp
      have "int_ID (cli_Intent x) \<in> unpublished d"
        using \<open>\<forall>x \<in> set pending. leased_item d1 x\<close> leased_unpublished x \<open>unpublished d1 = unpublished d\<close> by blast
      then have "unpublished d' \<subset> unpublished d" using x u by (auto simp: o_def)
      then have "card (unpublished d') < card (unpublished d)" by (simp add: psubset_card_mono)
      then have "card (unpublished d') < fuel" using Suc.prems(2) by simp
      with Suc.IH d' False show ?thesis by simp
    qed
    show ?thesis unfolding publish_batch_def using False
      by (simp, intro full_andThen full_of_pair, intro pair_mono [OF pair_items [OF failing that(1,3,4)]])
        (auto intro!: full_return again)
  qed
  have claimed: "full_run (andThen (on_rest (ClaimPendingDispatchIntents claimBatchSize claimTimeout)) ?rest) q1 d ?Q" for q1
  proof (intro full_andThen full_of_pair pair_rest, rule run_mono [OF run_claim [OF Suc.prems(1)]])
    fix pending d1
    assume "wf_db d1 \<and> unpublished d1 = unpublished d \<and> distinct (map (int_ID \<circ> cli_Intent) pending)
      \<and> (\<forall>x \<in> set pending. leased_item d1 x) \<and> (pending = [] \<longrightarrow> nothing_waiting d1)"
    then show "\<forall>q'. full_run (?rest pending) q' d1 ?Q" by (intro allI batch) blast+
  qed
  have stop: "full_run (return ()) q' d ?Q" if "PressureSnapshot srv q = (Inr snapshot, q')" "delayed softLimit snapshot" for snapshot q'
    by (rule full_return) (use that in \<open>auto simp: pass_ended_def\<close>)
  show ?case unfolding RunOnce.simps
    by (intro full_andThen full_handle_queue full_return) (auto intro: claimed stop)
qed simp



text \<open>Without the reason.\<close>

theorem publisher_pass_ends:
  fixes w :: "('t, 'r, 'x) redis_world_scheme \<times> 'y world_scheme"
  assumes "wf_db (w_db (snd w))" "calm (snd w)"
    "length (filter (\<lambda>i. int_Status i \<noteq> IPublished) (db_outbox (w_db (snd w)))) < fuel"
  shows "fst (RunOnce fuel text jc srv softLimit w) = Inr ()"
proof -
  have "full_run (RunOnce fuel text jc srv softLimit) (fst w) (w_db (snd w))
      (\<lambda>_ q' d'. pass_ended text (\<lambda>_ _. True) (PressureSnapshot srv) softLimit q' d')"
    by (rule full_RunOnce [OF _ assms(1) unpublished_fewer [OF assms(3)]]) blast
  from full_ends [OF this assms(2) prod.collapse [symmetric]] show ?thesis by simp
qed

theorem publisher_pass_ends_witness:
  "fst (RunOnce 3 (\<lambda>_. ''error'') id_codec ref_server 0 (new_client [AnswerLost, Works, Works, AnswerLost] empty_keys, sample3)) = Inr ()"
  by (rule publisher_pass_ends) (simp_all add: sample3_ok, simp add: sample3_def sample_defs)

end
