(* ===== verification/Pressure_Monitor.thy ===== *)
theory Pressure_Monitor
  imports Queue_Client
begin

text \<open>
  The pressure monitor (\<^verbatim>\<open>internal/pressure/pressure.go\<close>): the depths of the queues against the limits
  of the process, and the counters of what the process refused.
\<close>

record monitor =
  mon_softLimit :: int
  mon_hardLimit :: int
  mon_retryAfter :: duration
  mon_rateLimitedTotal :: int
  mon_rejectedTotal :: int
  mon_workerSaturated :: int
  mon_throttledTenants :: int

record metrics_snapshot =
  mts_Queue :: pressure_snapshot
  mts_RateLimitedTotal :: int
  mts_RejectedTotal :: int
  mts_WorkerSaturated :: int
  mts_TenantThrottled :: int
  mts_CollectedAt :: time

definition NewMonitor :: "int \<Rightarrow> int \<Rightarrow> duration \<Rightarrow> monitor" where
  "NewMonitor softLimit hardLimit retryAfter = \<lparr>mon_softLimit = softLimit, mon_hardLimit = hardLimit,
     mon_retryAfter = retryAfter, mon_rateLimitedTotal = 0, mon_rejectedTotal = 0, mon_workerSaturated = 0,
     mon_throttledTenants = 0\<rparr>"

text \<open>
  The snapshot of a monitor that may be nil, around a source of depths that may be nil.
\<close>

definition with_limits :: "monitor \<Rightarrow> pressure_snapshot \<Rightarrow> pressure_snapshot" where
  "with_limits m snapshot = snapshot\<lparr>prs_SoftLimit := mon_softLimit m, prs_HardLimit := mon_hardLimit m,
     prs_RetryAfter := (if prs_RetryAfter snapshot \<le> 0 then mon_retryAfter m else prs_RetryAfter snapshot)\<rparr>"

definition no_snapshot :: pressure_snapshot where
  "no_snapshot = \<lparr>prs_Depths = [], prs_SoftLimit = 0, prs_HardLimit = 0, prs_RetryAfter = 0\<rparr>"

definition Snapshot ::
    "monitor option \<Rightarrow> ('s, pressure_snapshot) sm option \<Rightarrow> ('s, pressure_snapshot) sm" where
  "Snapshot m queues = (case m of
     None \<Rightarrow> return no_snapshot
   | Some m \<Rightarrow> (case queues of
       None \<Rightarrow> return (with_limits m no_snapshot)
     | Some depths \<Rightarrow> andThen depths (\<lambda>snapshot. return (with_limits m snapshot))))"

definition IncRateLimited :: "monitor \<Rightarrow> monitor" where
  "IncRateLimited m = m\<lparr>mon_rateLimitedTotal := wrap64 (mon_rateLimitedTotal m + 1),
     mon_throttledTenants := wrap64 (mon_throttledTenants m + 1)\<rparr>"

definition IncRejected :: "monitor \<Rightarrow> monitor" where
  "IncRejected m = m\<lparr>mon_rejectedTotal := wrap64 (mon_rejectedTotal m + 1)\<rparr>"

definition IncWorkerSaturated :: "monitor \<Rightarrow> monitor" where
  "IncWorkerSaturated m = m\<lparr>mon_workerSaturated := wrap64 (mon_workerSaturated m + 1)\<rparr>"

definition Metrics_of :: "monitor \<Rightarrow> time \<Rightarrow> pressure_snapshot \<Rightarrow> metrics_snapshot" where
  "Metrics_of m now q = \<lparr>mts_Queue = q, mts_RateLimitedTotal = mon_rateLimitedTotal m,
     mts_RejectedTotal = mon_rejectedTotal m, mts_WorkerSaturated = mon_workerSaturated m,
     mts_TenantThrottled = mon_throttledTenants m, mts_CollectedAt = now\<rparr>"

text \<open>
  With no hard limit nothing is refused; a hard limit that is not above the soft one is reached as
  soon as the soft one.
\<close>

lemma no_limit_accepts: "mon_hardLimit m \<le> 0 \<Longrightarrow> AcceptingWrites (with_limits m s)"
  by (auto simp: AcceptingWrites_def AnyHardLimited_def with_limits_def list_ex_iff)

lemma hard_implies_soft:
  assumes "0 < mon_softLimit m" "mon_softLimit m \<le> mon_hardLimit m" "AnyHardLimited (with_limits m s)"
  shows "AnySoftLimited (with_limits m s)"
proof -
  from assms(3) obtain q n where "(q, n) \<in> set (prs_Depths s)" "mon_hardLimit m \<le> n"
    by (auto simp: AnyHardLimited_def with_limits_def list_ex_iff)
  then have "\<exists>x \<in> set (prs_Depths s). mon_softLimit m \<le> snd x" using assms(2) by force
  with assms(1) show ?thesis by (simp add: AnySoftLimited_def with_limits_def list_ex_iff case_prod_beta)
qed

end
