(* ===== verification/Http_Model.thy ===== *)
theory Http_Model
  imports Store_Retry Store_Schedule Worker_Runner Pressure_Monitor Go_Time
begin

text \<open>
  The vocabulary of the HTTP surface (\<^verbatim>\<open>internal/http\<close>): what a handler answers, the bodies it
  accepts, and the machine it runs on.  A response is its status, the header the handlers set, and the
  value that is encoded as JSON.
\<close>

subsection \<open>Responses\<close>

datatype body =
    ErrorBody string string
  | PlainText string
  | TenantBody tenant
  | TemplateBody template
  | NotificationBody notification
  | AttemptBody attempt
  | AttemptsBody "attempt list"
  | InspectionBody notification "attempt list"
  | DeadLetterBody dead_letter
  | DeadLettersBody "dead_letter list"
  | PolicyBody policy
  | PoliciesBody "policy list"
  | HealthBody string string
  | ReadinessBody string "(string \<times> string) list"
  | MetricsBody string "metrics_snapshot option" "metrics option"

record response =
  rsp_Status :: int
  rsp_RetryAfter :: "string option"
  rsp_Body :: body

definition writeJSON :: "int \<Rightarrow> body \<Rightarrow> ('s, response) sm" where
  "writeJSON status value = return \<lparr>rsp_Status = status, rsp_RetryAfter = None, rsp_Body = value\<rparr>"

definition writeError :: "int \<Rightarrow> string \<Rightarrow> string \<Rightarrow> ('s, response) sm" where
  "writeError status code message = writeJSON status (ErrorBody code message)"

abbreviation internalError :: "('s, response) sm" where
  "internalError \<equiv> writeError 500 ''internal_error'' ''internal server error''"

text \<open>\<^verbatim>\<open>fmt.Sprintf("%.0f", d.Seconds())\<close>: the nearest whole number of seconds, a half to the even one.\<close>

definition whole_seconds :: "duration \<Rightarrow> int" where
  "whole_seconds d = (let s = d div second; r = 2 * (d mod second) in
     if r < second \<or> r = second \<and> even s then s else s + 1)"

definition retry_after :: "duration \<Rightarrow> ('s, response) sm \<Rightarrow> ('s, response) sm" where
  "retry_after d m = andThen m (\<lambda>r. return (r\<lparr>rsp_RetryAfter := Some (Itoa (whole_seconds d))\<rparr>))"

subsection \<open>Bodies\<close>

text \<open>
  What one call of \<^verbatim>\<open>json.Decoder.Decode\<close> gives: a value, the end of the body, the limit of the
  body's length, or another error with its text.  The decoder itself is a parameter of the router.
\<close>

datatype 'a decoded = Value 'a | EndOfBody | BodyTooLarge | BadJSON string

datatype decode_error = RequestTooLarge | DecodeText string

definition decodeJSON :: "'a decoded \<times> unit decoded \<Rightarrow> decode_error + 'a" where
  "decodeJSON b = (case fst b of
     EndOfBody \<Rightarrow> Inl (DecodeText ''request body must not be empty'')
   | BodyTooLarge \<Rightarrow> Inl RequestTooLarge
   | BadJSON text \<Rightarrow> Inl (DecodeText text)
   | Value x \<Rightarrow> (case snd b of
       EndOfBody \<Rightarrow> Inr x
     | BodyTooLarge \<Rightarrow> Inl RequestTooLarge
     | _ \<Rightarrow> Inl (DecodeText ''request body must contain only a single JSON object'')))"

definition writeDecodeError :: "decode_error \<Rightarrow> ('s, response) sm" where
  "writeDecodeError e = (case e of
     RequestTooLarge \<Rightarrow> writeError 413 ''request_too_large'' ''request body exceeds configured limit''
   | DecodeText text \<Rightarrow> writeError 400 ''bad_request'' (''invalid request body: '' @ text))"

definition decoding :: "'a decoded \<times> unit decoded \<Rightarrow> ('a \<Rightarrow> ('s, response) sm) \<Rightarrow> ('s, response) sm" where
  "decoding b k = (case decodeJSON b of Inl e \<Rightarrow> writeDecodeError e | Inr req \<Rightarrow> k req)"

definition required :: "string \<Rightarrow> string \<Rightarrow> ('s, response) sm \<Rightarrow> ('s, response) sm" where
  "required name value k =
     (if trim_space value = [] then writeError 400 ''bad_request'' (name @ '' is required'') else k)"

record create_tenant_request =
  ctr_ID :: string
  ctr_Name :: string
  ctr_DailyQuota :: int

record create_template_request =
  cmr_ID :: string
  cmr_TenantID :: string
  cmr_Name :: string
  cmr_Channel :: string
  cmr_Version :: int
  cmr_Body :: string

record create_notification_request =
  cnr_ID :: string
  cnr_TenantID :: string
  cnr_TemplateID :: string
  cnr_IdempotencyKey :: string
  cnr_RecipientEmail :: string
  cnr_RecipientWebhookURL :: string
  cnr_SecondaryWebhookURL :: string
  cnr_ScheduledFor :: "time option"
  cnr_Variables :: json

record upsert_policy_request =
  upr_ID :: string
  upr_TenantID :: "string option"
  upr_Channel :: "string option"
  upr_Paused :: "bool option"
  upr_FailoverEnabled :: "bool option"
  upr_SchedulingEnabled :: "bool option"
  upr_ReplayAllowed :: "bool option"
  upr_MaxAttemptsOverride :: "int option"
  upr_RetryBaseDelaySeconds :: "int option"
  upr_RetryMaxDelaySeconds :: "int option"

subsection \<open>The machine\<close>

text \<open>
  The process has a queue client, the store, its pressure monitor, and a source of random bytes:
  the n-th read gives eight bytes or fails.
\<close>

record api_world = world +
  aw_monitor :: monitor
  aw_random :: "nat \<Rightarrow> string option"
  aw_reads :: nat

type_synonym ('t, 'r, 'x, 'y, 'a) am =
  "(('t, 'r, 'x) redis_world_scheme \<times> 'y api_world_scheme, 'a) sm"

text \<open>\<^verbatim>\<open>API\<close>: the limiter may be nil, and so may the monitor.\<close>

record api =
  api_limiter :: "tenant_limiter option"
  api_monitored :: bool

definition rand_Read :: "('y api_world_scheme, string option) sm" where
  "rand_Read w = (Inr (aw_random w (aw_reads w)), w\<lparr>aw_reads := Suc (aw_reads w)\<rparr>)"

definition hex_digit :: "nat \<Rightarrow> char" where
  "hex_digit n = ''0123456789abcdef'' ! n"

definition EncodeToString :: "string \<Rightarrow> string" where
  "EncodeToString bytes = concat (map (\<lambda>c. let n = of_char c :: nat in [hex_digit (n div 16), hex_digit (n mod 16)]) bytes)"

text \<open>Nanoseconds since 1970; the clock counts from the year 1.\<close>

definition UnixNano :: "time \<Rightarrow> int" where
  "UnixNano t = wrap64 (t - 62135596800 * second)"

definition api_generateID :: "string \<Rightarrow> ('y api_world_scheme, string) sm" where
  "api_generateID prefix = andThen rand_Read (\<lambda>bytes. case bytes of
     None \<Rightarrow> andThen time_Now (\<lambda>now. return (prefix @ ''_'' @ Itoa (UnixNano now)))
   | Some bytes \<Rightarrow> return (prefix @ ''_'' @ EncodeToString bytes))"

definition update_monitor :: "(monitor \<Rightarrow> monitor) \<Rightarrow> ('y api_world_scheme, unit) sm" where
  "update_monitor f w = (Inr (), w\<lparr>aw_monitor := f (aw_monitor w)\<rparr>)"

definition read_monitor :: "('y api_world_scheme, monitor) sm" where
  "read_monitor w = (Inr (aw_monitor w), w)"

lemma hex_examples: "EncodeToString (map char_of [0::nat, 171, 255]) = ''00abff''"
  by code_simp

end
