(* ===== verification/Http_Api.thy ===== *)
theory Http_Api
  imports Http_Model
begin

text \<open>
  The handlers of \<^verbatim>\<open>internal/http/handlers/api.go\<close>.  A handler is a computation that always answers;
  the log lines are left out.
\<close>

subsection \<open>Shared parts\<close>

abbreviation on_store :: "('y api_world_scheme, 'a) sm \<Rightarrow> ('t, 'r, 'x, 'y, 'a) am" where
  "on_store \<equiv> on_rest"

definition recordAudit ::
    "string \<Rightarrow> string \<Rightarrow> string \<Rightarrow> string \<Rightarrow> string \<Rightarrow> json \<Rightarrow> ('y api_world_scheme, unit) sm" where
  "recordAudit tenantID actor action resourceType resourceID metadata =
     andThen (api_generateID ''audit'') (\<lambda>i.
     ignore (RecordAuditEvent i tenantID actor action resourceType resourceID metadata))"

definition recordPolicyAudit :: "policy \<Rightarrow> string \<Rightarrow> ('y api_world_scheme, unit) sm" where
  "recordPolicyAudit policy action = (case pol_TenantID policy of
     None \<Rightarrow> return ()
   | Some tenantID \<Rightarrow> if trim_space tenantID = [] then return ()
       else recordAudit tenantID ''api'' action ''delivery_policy'' (pol_ID policy) (JObject []))"

text \<open>The two gates: a response that refuses the request, or none.\<close>

definition enforceRateLimit ::
    "api \<Rightarrow> ('t, 'r) redis_server \<Rightarrow> string \<Rightarrow> ('t, 'r, 'x, 'y, response option) am" where
  "enforceRateLimit a srv tenantID =
     (if api_limiter a = None \<or> tenantID = [] then return None
      else handle (on_queue (limiter_Allow (api_limiter a) srv tenantID))
        (\<lambda>_. andThen (writeError 503 ''pressure_unavailable'' ''unable to evaluate request pressure'') (\<lambda>r. return (Some r)))
        (\<lambda>(allowed, retryAfter). if allowed then return None
           else andThen (if api_monitored a then on_store (update_monitor IncRateLimited) else return ()) (\<lambda>_.
             andThen (retry_after retryAfter (writeError 429 ''rate_limited'' ''tenant request rate exceeded''))
               (\<lambda>r. return (Some r)))))"

definition enforceBackpressure ::
    "api \<Rightarrow> ('t, 'r) redis_server \<Rightarrow> ('t, 'r, 'x, 'y, response option) am" where
  "enforceBackpressure a srv =
     (if \<not> api_monitored a then return None
      else andThen (on_store read_monitor) (\<lambda>m.
        handle (on_queue (Snapshot (Some m) (Some (PressureSnapshot srv))))
          (\<lambda>_. andThen (writeError 503 ''pressure_unavailable'' ''unable to evaluate queue pressure'') (\<lambda>r. return (Some r)))
          (\<lambda>snapshot. if AcceptingWrites snapshot then return None
             else andThen (on_store (update_monitor IncRejected)) (\<lambda>_.
               andThen (retry_after (prs_RetryAfter snapshot)
                 (writeError (if AnyHardLimited snapshot then 429 else 503) ''queue_overloaded''
                    ''notification service is saturated; retry later''))
                 (\<lambda>r. return (Some r))))))"

definition gate :: "('s, response option) sm \<Rightarrow> ('s, response) sm \<Rightarrow> ('s, response) sm" where
  "gate g k = andThen g (\<lambda>refused. case refused of Some r \<Rightarrow> return r | None \<Rightarrow> k)"

text \<open>\<^verbatim>\<open>if errors.Is(err, store.ErrNotFound) { 404 } else { 500 }\<close>\<close>

definition notFound_or_internal :: "string \<Rightarrow> err \<Rightarrow> ('s, response) sm" where
  "notFound_or_internal message e =
     (if e = ErrNotFound then writeError 404 ''not_found'' message else internalError)"

definition conflict_or_internal :: "string \<Rightarrow> err \<Rightarrow> ('s, response) sm" where
  "conflict_or_internal message e =
     (if IsConflict e then writeError 409 ''conflict'' message else internalError)"

subsection \<open>Tenants and templates\<close>

definition api_CreateTenant ::
    "create_tenant_request decoded \<times> unit decoded \<Rightarrow> ('t, 'r, 'x, 'y, response) am" where
  "api_CreateTenant b = decoding b (\<lambda>req.
     required ''id'' (ctr_ID req) (
     required ''name'' (ctr_Name req) (
     if ctr_DailyQuota req \<le> 0 then writeError 400 ''bad_request'' ''daily_quota must be greater than 0''
     else handle (on_store (CreateTenant \<lparr>ctp_ID = ctr_ID req, ctp_Name = ctr_Name req, ctp_DailyQuota = ctr_DailyQuota req\<rparr>))
       (conflict_or_internal ''tenant already exists'')
       (\<lambda>tenant. writeJSON 201 (TenantBody tenant)))))"

definition api_CreateTemplate ::
    "create_template_request decoded \<times> unit decoded \<Rightarrow> ('t, 'r, 'x, 'y, response) am" where
  "api_CreateTemplate b = decoding b (\<lambda>req.
     required ''id'' (cmr_ID req) (
     required ''tenant_id'' (cmr_TenantID req) (
     required ''name'' (cmr_Name req) (
     if cmr_Channel req \<noteq> ''email'' \<and> cmr_Channel req \<noteq> ''webhook''
       then writeError 400 ''bad_request'' ''channel must be one of: email, webhook''
     else if cmr_Version req \<le> 0 then writeError 400 ''bad_request'' ''version must be greater than 0''
     else required ''body'' (cmr_Body req) (
       handle (on_store (GetTenantByID (cmr_TenantID req))) (notFound_or_internal ''tenant not found'') (\<lambda>_.
       handle (on_store (CreateTemplate \<lparr>ctm_ID = cmr_ID req, ctm_TenantID = cmr_TenantID req, ctm_Name = cmr_Name req,
            ctm_Channel = cmr_Channel req, ctm_Version = cmr_Version req, ctm_Body = cmr_Body req\<rparr>))
         (conflict_or_internal ''template already exists'')
         (\<lambda>template. writeJSON 201 (TemplateBody template))))))))"

subsection \<open>Submission\<close>

definition dispatch_audit :: "string \<Rightarrow> string \<Rightarrow> string \<Rightarrow> string \<Rightarrow> json" where
  "dispatch_audit notificationID channel source attemptID = JObject [(''notification_id'', JString notificationID),
     (''channel'', JString channel), (''source'', JString source), (''attempt_id'', JString attemptID)]"

definition ensureInitialAttempt :: "notification \<Rightarrow> ('t, 'r, 'x, 'y, response) am" where
  "ensureInitialAttempt existing =
     handle (on_store (GetTemplateByID (ntf_TemplateID existing))) (\<lambda>_. internalError) (\<lambda>template.
     andThen (on_store (api_generateID ''attempt'')) (\<lambda>attemptID.
     andThen (on_store (api_generateID ''intent'')) (\<lambda>intentID.
     handle (on_store (EnsureInitialAttempt (ntf_ID existing) (tpl_Channel template) attemptID intentID))
       (notFound_or_internal ''notification not found'')
       (\<lambda>(attempt, _).
         if att_DispatchEnqueuedAt attempt \<noteq> None then writeJSON 200 (NotificationBody existing)
         else andThen (on_store (recordAudit (ntf_TenantID existing) ''api'' ''dispatch_pending'' ''delivery_attempt'' (att_ID attempt)
             (JObject [(''notification_id'', JString (ntf_ID existing)), (''channel'', JString (att_Channel attempt)),
                (''source'', JString ''initial'')]))) (\<lambda>_.
           writeJSON 202 (NotificationBody existing))))))"

text \<open>A text that is only spaces counts as absent.\<close>

definition present :: "string \<Rightarrow> string option" where
  "present s = (if s = [] then None else Some s)"

definition params_of :: "create_notification_request \<Rightarrow> notification_params" where
  "params_of req = \<lparr>cnp_ID = cnr_ID req, cnp_TenantID = cnr_TenantID req, cnp_TemplateID = cnr_TemplateID req,
     cnp_IdempotencyKey = present (cnr_IdempotencyKey req),
     cnp_RecipientEmail = present (trim_space (cnr_RecipientEmail req)),
     cnp_RecipientWebhookURL = present (trim_space (cnr_RecipientWebhookURL req)),
     cnp_SecondaryWebhookURL = present (trim_space (cnr_SecondaryWebhookURL req)),
     cnp_Variables = cnr_Variables req, cnp_ScheduledFor = cnr_ScheduledFor req\<rparr>"

definition accepted ::
    "template \<Rightarrow> notification \<times> attempt \<times> intent option \<Rightarrow> ('t, 'r, 'x, 'y, response) am" where
  "accepted template created = (case created of (n, a, i) \<Rightarrow>
     andThen (on_store (recordAudit (ntf_TenantID n) ''api'' ''notification_accepted'' ''notification'' (ntf_ID n)
       (JObject [(''template_id'', JString (ntf_TemplateID n))]))) (\<lambda>_.
     andThen (case i of
         Some i \<Rightarrow> on_store (recordAudit (ntf_TenantID n) ''api'' ''dispatch_intent_created'' ''dispatch_intent'' (int_ID i)
           (dispatch_audit (ntf_ID n) (tpl_Channel template) ''initial'' (att_ID a)))
       | None \<Rightarrow> (case ntf_ScheduledFor n of None \<Rightarrow> return ()
          | Some at \<Rightarrow> on_store (recordAudit (ntf_TenantID n) ''api'' ''notification_scheduled'' ''notification'' (ntf_ID n)
             (JObject [(''template_id'', JString (ntf_TemplateID n)), (''channel'', JString (tpl_Channel template)),
                (''attempt_id'', JString (att_ID a)), (''scheduled_for'', JString (Format_RFC3339Nano at))])))) (\<lambda>_.
     writeJSON 202 (NotificationBody n))))"

definition submit :: "create_notification_request \<Rightarrow> template \<Rightarrow> ('t, 'r, 'x, 'y, response) am" where
  "submit req template =
     handle (on_store (ResolveDeliveryPolicy (cnr_TenantID req) (tpl_Channel template))) (\<lambda>_. internalError) (\<lambda>policy.
     if cnr_ScheduledFor req \<noteq> None \<and> \<not> res_SchedulingEnabled policy
       then writeError 409 ''conflict'' ''scheduled delivery is disabled for this tenant/channel''
     else
       andThen (on_store (api_generateID ''attempt'')) (\<lambda>attemptID.
       andThen (on_store (api_generateID ''intent'')) (\<lambda>intentID.
       handle (on_store (CreateNotificationWithInitialDispatch \<lparr>cdp_Notification = params_of req,
           cdp_Channel = tpl_Channel template, cdp_AttemptID = attemptID, cdp_IntentID = intentID\<rparr>))
         (\<lambda>e. let refuse = conflict_or_internal ''notification already exists'' e in
            if cnr_IdempotencyKey req \<noteq> [] \<and> IsConflict e then
              handle (on_store (GetNotificationByTenantAndIdempotencyKey (cnr_TenantID req) (cnr_IdempotencyKey req)))
                (\<lambda>_. refuse) ensureInitialAttempt
            else refuse)
         (accepted template))))"

definition recipient_missing :: "create_notification_request \<Rightarrow> template \<Rightarrow> ('s, response) sm option" where
  "recipient_missing req template =
     (if tpl_Channel template = ''email'' then
        (if trim_space (cnr_RecipientEmail req) = []
         then Some (writeError 400 ''bad_request'' ''recipient_email is required for email templates'') else None)
      else if tpl_Channel template = ''webhook'' then
        (if trim_space (cnr_RecipientWebhookURL req) = []
         then Some (writeError 400 ''bad_request'' ''recipient_webhook_url is required for webhook templates'') else None)
      else Some internalError)"

definition api_CreateNotification ::
    "api \<Rightarrow> ('t, 'r) redis_server \<Rightarrow> create_notification_request decoded \<times> unit decoded \<Rightarrow>
     ('t, 'r, 'x, 'y, response) am" where
  "api_CreateNotification a srv b = decoding b (\<lambda>req.
     required ''id'' (cnr_ID req) (
     required ''tenant_id'' (cnr_TenantID req) (
     required ''template_id'' (cnr_TemplateID req) (
     gate (enforceRateLimit a srv (cnr_TenantID req)) (
     gate (enforceBackpressure a srv) (
     handle (on_store (GetTenantByID (cnr_TenantID req))) (notFound_or_internal ''tenant not found'') (\<lambda>_.
     handle (on_store (GetTemplateByID (cnr_TemplateID req))) (notFound_or_internal ''template not found'') (\<lambda>template.
     if tpl_TenantID template \<noteq> cnr_TenantID req
       then writeError 400 ''bad_request'' ''template does not belong to tenant''
     else case recipient_missing req template of
       Some refuse \<Rightarrow> refuse
     | None \<Rightarrow>
         if cnr_IdempotencyKey req \<noteq> [] then
           handle (on_store (GetNotificationByTenantAndIdempotencyKey (cnr_TenantID req) (cnr_IdempotencyKey req)))
             (\<lambda>e. if e = ErrNotFound then submit req template else internalError)
             ensureInitialAttempt
         else submit req template))))))))"

subsection \<open>Dead letters\<close>

definition replayAttemptID :: "string \<Rightarrow> string" where
  "replayAttemptID deadLetterID = ''replay_'' @ deadLetterID"

definition api_ListDeadLetters :: "('t, 'r, 'x, 'y, response) am" where
  "api_ListDeadLetters = handle (on_store (ListDeadLetters 100)) (\<lambda>_. internalError)
     (\<lambda>deadLetters. writeJSON 200 (DeadLettersBody deadLetters))"

definition api_GetDeadLetter :: "string \<Rightarrow> ('t, 'r, 'x, 'y, response) am" where
  "api_GetDeadLetter i = handle (on_store (GetDeadLetterByID i)) (notFound_or_internal ''dead letter not found'')
     (\<lambda>deadLetter. writeJSON 200 (DeadLetterBody deadLetter))"

definition replay_audit :: "string \<Rightarrow> attempt \<Rightarrow> json" where
  "replay_audit deadLetterID a = JObject [(''notification_id'', JString (att_NotificationID a)),
     (''dead_letter_id'', JString deadLetterID), (''channel'', JString (att_Channel a)),
     (''source'', JString ''replay''), (''attempt_id'', JString (att_ID a))]"

definition api_ReplayDeadLetter ::
    "api \<Rightarrow> ('t, 'r) redis_server \<Rightarrow> string \<Rightarrow> ('t, 'r, 'x, 'y, response) am" where
  "api_ReplayDeadLetter a srv deadLetterID =
     handle (on_store (GetDeadLetterByID deadLetterID)) (notFound_or_internal ''dead letter not found'') (\<lambda>deadLetter.
     if dl_ReplayedAt deadLetter \<noteq> None then writeError 409 ''conflict'' ''dead letter already replayed''
     else handle (on_store (GetNotificationByID (dl_NotificationID deadLetter))) (\<lambda>_. internalError) (\<lambda>notification.
     gate (enforceBackpressure a srv) (
     handle (on_store (ResolveDeliveryPolicy (ntf_TenantID notification) (dl_Channel deadLetter))) (\<lambda>_. internalError) (\<lambda>policy.
     if \<not> res_ReplayAllowed policy then writeError 409 ''conflict'' ''replay is disabled for this tenant/channel''
     else
       andThen (on_store (recordAudit (ntf_TenantID notification) ''api'' ''replay_requested'' ''dead_letter'' deadLetterID
         (JObject [(''notification_id'', JString (dl_NotificationID deadLetter)), (''channel'', JString (dl_Channel deadLetter))]))) (\<lambda>_.
       handle (on_store (EnsureReplayAttempt deadLetterID (replayAttemptID deadLetterID)))
         (notFound_or_internal ''dead letter not found'')
         (\<lambda>result.
           andThen (on_store (recordAudit (ntf_TenantID notification) ''api'' ''dispatch_intent_created'' ''dispatch_intent''
             (''intent-'' @ att_ID (rdl_Attempt result)) (replay_audit deadLetterID (rdl_Attempt result)))) (\<lambda>_.
           writeJSON 202 (AttemptBody (rdl_Attempt result)))))))))"

subsection \<open>Inspection\<close>

definition api_GetNotification :: "string \<Rightarrow> ('t, 'r, 'x, 'y, response) am" where
  "api_GetNotification i =
     handle (on_store (GetNotificationByID i)) (notFound_or_internal ''notification not found'') (\<lambda>notification.
     handle (on_store (ListDeliveryAttemptsByNotificationID i)) (\<lambda>_. internalError) (\<lambda>attempts.
     writeJSON 200 (InspectionBody notification attempts)))"

definition api_ListNotificationAttempts :: "string \<Rightarrow> ('t, 'r, 'x, 'y, response) am" where
  "api_ListNotificationAttempts i =
     handle (on_store (ListDeliveryAttemptsByNotificationID i)) (\<lambda>_. internalError) (\<lambda>attempts.
     writeJSON 200 (AttemptsBody attempts))"

definition api_GetAttempt :: "string \<Rightarrow> ('t, 'r, 'x, 'y, response) am" where
  "api_GetAttempt i = handle (on_store (GetDeliveryAttemptByID i)) (notFound_or_internal ''attempt not found'')
     (\<lambda>attempt. writeJSON 200 (AttemptBody attempt))"

subsection \<open>Cancellation and redrive\<close>

definition transition_error :: "string \<Rightarrow> err \<Rightarrow> ('s, response) sm" where
  "transition_error message e =
     (if e = ErrNotFound then writeError 404 ''not_found'' ''notification not found''
      else if e = ErrInvalidStateTransition then writeError 409 ''conflict'' message
      else internalError)"

definition api_CancelNotification :: "string \<Rightarrow> ('t, 'r, 'x, 'y, response) am" where
  "api_CancelNotification i =
     handle (on_store (CancelScheduledNotification i)) (transition_error ''notification cannot be cancelled'') (\<lambda>n.
     andThen (on_store (recordAudit (ntf_TenantID n) ''api'' ''scheduled_notification_cancelled'' ''notification'' (ntf_ID n)
       (JObject []))) (\<lambda>_.
     writeJSON 200 (NotificationBody n)))"

definition api_RedriveNotification :: "string \<Rightarrow> ('t, 'r, 'x, 'y, response) am" where
  "api_RedriveNotification i =
     handle (on_store (RedriveNotification i)) (transition_error ''notification cannot be re-driven'') (\<lambda>result.
     let n = prm_Notification result; a = prm_Attempt result in
     andThen (on_store (recordAudit (ntf_TenantID n) ''api'' ''manual_redrive_requested'' ''notification'' (ntf_ID n)
       (JObject [(''attempt_id'', JString (att_ID a)), (''channel'', JString (att_Channel a))]))) (\<lambda>_.
     andThen (on_store (recordAudit (ntf_TenantID n) ''api'' ''dispatch_intent_created'' ''dispatch_intent'' (int_ID (prm_Intent result))
       (dispatch_audit (ntf_ID n) (att_Channel a) (int_Source (prm_Intent result)) (att_ID a)))) (\<lambda>_.
     writeJSON 202 (NotificationBody n))))"

subsection \<open>Policies\<close>

definition api_ListPolicies :: "('t, 'r, 'x, 'y, response) am" where
  "api_ListPolicies = handle (on_store ListDeliveryPolicies) (\<lambda>_. internalError)
     (\<lambda>policies. writeJSON 200 (PoliciesBody policies))"

definition api_GetPolicy :: "string \<Rightarrow> ('t, 'r, 'x, 'y, response) am" where
  "api_GetPolicy i = handle (on_store (GetDeliveryPolicyByID i)) (notFound_or_internal ''policy not found'')
     (\<lambda>policy. writeJSON 200 (PolicyBody policy))"

definition not_positive :: "int option \<Rightarrow> bool" where
  "not_positive v = (case v of None \<Rightarrow> False | Some n \<Rightarrow> n \<le> 0)"

definition policy_params_of :: "upsert_policy_request \<Rightarrow> string option \<Rightarrow> policy_params" where
  "policy_params_of req tenantID = \<lparr>upp_ID = upr_ID req, upp_TenantID = tenantID, upp_Channel = upr_Channel req,
     upp_Paused = upr_Paused req, upp_FailoverEnabled = upr_FailoverEnabled req,
     upp_SchedulingEnabled = upr_SchedulingEnabled req, upp_ReplayAllowed = upr_ReplayAllowed req,
     upp_MaxAttemptsOverride = upr_MaxAttemptsOverride req, upp_RetryBaseDelaySeconds = upr_RetryBaseDelaySeconds req,
     upp_RetryMaxDelaySeconds = upr_RetryMaxDelaySeconds req\<rparr>"

definition api_UpsertPolicy ::
    "upsert_policy_request decoded \<times> unit decoded \<Rightarrow> ('t, 'r, 'x, 'y, response) am" where
  "api_UpsertPolicy b = decoding b (\<lambda>req.
     let upsert = (\<lambda>tenantID.
           handle (on_store (UpsertDeliveryPolicy (policy_params_of req tenantID))) (\<lambda>_. internalError) (\<lambda>policy.
           andThen (on_store (recordPolicyAudit policy ''delivery_policy_updated'')) (\<lambda>_.
           writeJSON 200 (PolicyBody policy)))) in
     required ''id'' (upr_ID req) (
     if upr_Channel req \<noteq> None \<and> upr_Channel req \<noteq> Some ''email'' \<and> upr_Channel req \<noteq> Some ''webhook''
       then writeError 400 ''bad_request'' ''channel must be one of: email, webhook''
     else if list_ex not_positive [upr_MaxAttemptsOverride req, upr_RetryBaseDelaySeconds req, upr_RetryMaxDelaySeconds req]
       then writeError 400 ''bad_request'' ''numeric policy overrides must be greater than 0''
     else case upr_TenantID req of
       None \<Rightarrow> upsert None
     | Some tenantID \<Rightarrow>
         if trim_space tenantID = [] then upsert None
         else handle (on_store (GetTenantByID (trim_space tenantID))) (notFound_or_internal ''tenant not found'')
           (\<lambda>_. upsert (Some (trim_space tenantID)))))"

definition setPaused :: "string \<Rightarrow> bool \<Rightarrow> string \<Rightarrow> ('t, 'r, 'x, 'y, response) am" where
  "setPaused i paused action =
     handle (on_store (SetDeliveryPolicyPaused i paused)) (notFound_or_internal ''policy not found'') (\<lambda>policy.
     andThen (on_store (recordPolicyAudit policy action)) (\<lambda>_.
     writeJSON 200 (PolicyBody policy)))"

definition api_PausePolicy :: "string \<Rightarrow> ('t, 'r, 'x, 'y, response) am" where
  "api_PausePolicy i = setPaused i True ''delivery_paused''"

definition api_ResumePolicy :: "string \<Rightarrow> ('t, 'r, 'x, 'y, response) am" where
  "api_ResumePolicy i = setPaused i False ''delivery_resumed''"

subsection \<open>Health and metrics\<close>

definition Health :: "string \<Rightarrow> ('s, response) sm" where
  "Health serviceName = writeJSON 200
     (HealthBody ''ok'' (if serviceName = [] then ''notification-platform-api'' else serviceName))"

text \<open>A dependency has a name and a probe that may be missing.\<close>

definition probe :: "string \<times> ('s, unit) sm option \<Rightarrow> ('s, string \<times> string) sm" where
  "probe check = (case snd check of
     None \<Rightarrow> return (fst check, ''unknown'')
   | Some ping \<Rightarrow> handle ping (\<lambda>_. return (fst check, ''down'')) (\<lambda>_. return (fst check, ''ok'')))"

definition Readiness :: "(string \<times> ('s, unit) sm option) list \<Rightarrow> ('s, response) sm" where
  "Readiness checks = andThen (forEach checks probe) (\<lambda>dependencies.
     if list_all (\<lambda>d. snd d = ''ok'') dependencies then writeJSON 200 (ReadinessBody ''ready'' dependencies)
     else writeJSON 503 (ReadinessBody ''not_ready'' dependencies))"

definition Metrics ::
    "bool \<Rightarrow> bool \<Rightarrow> ('t, 'r) redis_server \<Rightarrow> ('t, 'r, 'x, 'y, response) am" where
  "Metrics monitored provided srv =
     handle (if monitored then andThen (on_store read_monitor) (\<lambda>m.
           andThen (on_queue (Snapshot (Some m) (Some (PressureSnapshot srv)))) (\<lambda>q.
           andThen (on_store time_Now) (\<lambda>now. return (Some (Metrics_of m now q)))))
         else return None)
       (\<lambda>_. writeError 503 ''metrics_unavailable'' ''unable to collect pressure metrics'')
       (\<lambda>pressure.
     handle (if provided then andThen (on_store time_Now) (\<lambda>now.
           andThen (on_store (CollectOperationalMetrics now)) (\<lambda>m. return (Some m)))
         else return None)
       (\<lambda>_. writeError 503 ''metrics_unavailable'' ''unable to collect operational metrics'')
       (\<lambda>operational.
     writeJSON 200 (MetricsBody (if pressure = None \<and> operational = None then ''disabled'' else ''ok'') pressure operational)))"

end
