(* ===== verification/Http_Router.thy ===== *)
theory Http_Router
  imports Http_Api Config Store_System
begin

text \<open>
  The router (\<^verbatim>\<open>internal/http/router.go\<close>): the routes, the check of the admin credentials and the limit
  of the body.  The JSON decoders and the digest are parameters; the logging middleware is left out,
  and no handler of the model panics.
\<close>

subsection \<open>Requests and routes\<close>

text \<open>The path is the list of its segments, as the mux matches them.\<close>

record api_request =
  arq_Method :: string
  arq_Path :: "string list"
  arq_ContentLength :: int
  arq_AdminToken :: string
  arq_Authorization :: string
  arq_Body :: string

datatype route =
    ToHealth | ToReadiness | ToMetrics | ToCreateTenant | ToCreateTemplate | ToCreateNotification
  | ToGetNotification string | ToAttempts string | ToCancel string | ToRedrive string | ToGetAttempt string
  | ToListPolicies | ToUpsertPolicy | ToGetPolicy string | ToPause string | ToResume string
  | ToListDeadLetters | ToGetDeadLetter string | ToReplay string

definition patterns :: "string list \<Rightarrow> (string \<times> route) list" where
  "patterns segs =
     (if segs = [''healthz''] \<or> segs = [''v1'', ''health''] then [(''GET'', ToHealth)]
      else if segs = [''readyz''] \<or> segs = [''v1'', ''readiness''] then [(''GET'', ToReadiness)]
      else if segs = [''metrics''] \<or> segs = [''v1'', ''metrics''] then [(''GET'', ToMetrics)]
      else if segs = [''v1'', ''tenants''] then [(''POST'', ToCreateTenant)]
      else if segs = [''v1'', ''templates''] then [(''POST'', ToCreateTemplate)]
      else if segs = [''v1'', ''notifications''] then [(''POST'', ToCreateNotification)]
      else if segs = [''v1'', ''policies''] then [(''GET'', ToListPolicies), (''POST'', ToUpsertPolicy)]
      else if segs = [''v1'', ''dead-letters''] then [(''GET'', ToListDeadLetters)]
      else case segs of
        [v, kind, i] \<Rightarrow> if v \<noteq> ''v1'' then []
          else if kind = ''notifications'' then [(''GET'', ToGetNotification i)]
          else if kind = ''attempts'' then [(''GET'', ToGetAttempt i)]
          else if kind = ''policies'' then [(''GET'', ToGetPolicy i)]
          else if kind = ''dead-letters'' then [(''GET'', ToGetDeadLetter i)]
          else []
      | [v, kind, i, action] \<Rightarrow> if v \<noteq> ''v1'' then []
          else if kind = ''notifications'' \<and> action = ''attempts'' then [(''GET'', ToAttempts i)]
          else if kind = ''notifications'' \<and> action = ''cancel'' then [(''POST'', ToCancel i)]
          else if kind = ''notifications'' \<and> action = ''redrive'' then [(''POST'', ToRedrive i)]
          else if kind = ''policies'' \<and> action = ''pause'' then [(''POST'', ToPause i)]
          else if kind = ''policies'' \<and> action = ''resume'' then [(''POST'', ToResume i)]
          else if kind = ''dead-letters'' \<and> action = ''replay'' then [(''POST'', ToReplay i)]
          else []
      | _ \<Rightarrow> [])"

text \<open>A \<^verbatim>\<open>GET\<close> pattern serves \<^verbatim>\<open>HEAD\<close> too.\<close>

definition serves :: "string \<Rightarrow> string \<times> route \<Rightarrow> bool" where
  "serves verb p = (verb = fst p \<or> verb = ''HEAD'' \<and> fst p = ''GET'')"

definition public_route :: "route \<Rightarrow> bool" where
  "public_route r = (r = ToHealth \<or> r = ToReadiness \<or> r = ToCreateNotification)"

subsection \<open>Middleware\<close>

definition unauthorized :: "('s, response) sm" where
  "unauthorized = writeJSON 401 (ErrorBody ''unauthorized'' ''admin credentials required'')"

definition provided_token :: "api_request \<Rightarrow> string" where
  "provided_token r = (let provided = trim_space (arq_AdminToken r); auth = trim_space (arq_Authorization r) in
     if provided \<noteq> [] then provided
     else if has_prefix auth ''Bearer '' then trim_space (trim_prefix auth ''Bearer '')
     else [])"

definition adminMiddleware ::
    "(string \<Rightarrow> string) \<Rightarrow> string \<Rightarrow> api_request \<Rightarrow> ('s, response) sm \<Rightarrow> ('s, response) sm" where
  "adminMiddleware sha256 token r next =
     (if trim_space token = [] then next
      else if sha256 (provided_token r) \<noteq> sha256 token then unauthorized
      else next)"

text \<open>The handler behind it gets the limit of the body, if there is one.\<close>

definition requestBodyLimitMiddleware ::
    "int \<Rightarrow> api_request \<Rightarrow> (int option \<Rightarrow> ('s, response) sm) \<Rightarrow> ('s, response) sm" where
  "requestBodyLimitMiddleware limit r next = (let limit = (if limit \<le> 0 then 1048576 else limit) in
     if arq_Method r = ''POST'' \<or> arq_Method r = ''PUT'' \<or> arq_Method r = ''PATCH'' then
       (if arq_ContentLength r > limit \<and> arq_ContentLength r > 0
        then writeJSON 413 (ErrorBody ''request_too_large'' ''request body exceeds configured limit'')
        else next (Some limit))
     else next None)"

subsection \<open>The router\<close>

type_synonym 'a decoder = "int option \<Rightarrow> string \<Rightarrow> 'a decoded \<times> unit decoded"

record decoders =
  dec_tenant :: "create_tenant_request decoder"
  dec_template :: "create_template_request decoder"
  dec_notification :: "create_notification_request decoder"
  dec_policy :: "upsert_policy_request decoder"

record router_deps =
  rd_AppName :: string
  rd_AdminToken :: string
  rd_MaxRequestBodyBytes :: int
  rd_api :: api

text \<open>\<^verbatim>\<open>postgres.Ping\<close>\<close>

definition db_Ping :: "('y api_world_scheme, unit) sm" where
  "db_Ping = query (\<lambda>_ _. ())"

definition handler ::
    "router_deps \<Rightarrow> decoders \<Rightarrow> ('t, 'r) redis_server \<Rightarrow> route \<Rightarrow> int option \<Rightarrow> string \<Rightarrow> ('t, 'r, 'x, 'y, response) am" where
  "handler deps dec srv to limit b = (let a = rd_api deps in case to of
     ToHealth \<Rightarrow> Health (rd_AppName deps)
   | ToReadiness \<Rightarrow> Readiness [(''postgres'', Some (on_store db_Ping)), (''redis'', Some (on_queue (Ping srv)))]
   | ToMetrics \<Rightarrow> Metrics (api_monitored a) True srv
   | ToCreateTenant \<Rightarrow> api_CreateTenant (dec_tenant dec limit b)
   | ToCreateTemplate \<Rightarrow> api_CreateTemplate (dec_template dec limit b)
   | ToCreateNotification \<Rightarrow> api_CreateNotification a srv (dec_notification dec limit b)
   | ToGetNotification i \<Rightarrow> api_GetNotification i
   | ToAttempts i \<Rightarrow> api_ListNotificationAttempts i
   | ToCancel i \<Rightarrow> api_CancelNotification i
   | ToRedrive i \<Rightarrow> api_RedriveNotification i
   | ToGetAttempt i \<Rightarrow> api_GetAttempt i
   | ToListPolicies \<Rightarrow> api_ListPolicies
   | ToUpsertPolicy \<Rightarrow> api_UpsertPolicy (dec_policy dec limit b)
   | ToGetPolicy i \<Rightarrow> api_GetPolicy i
   | ToPause i \<Rightarrow> api_PausePolicy i
   | ToResume i \<Rightarrow> api_ResumePolicy i
   | ToListDeadLetters \<Rightarrow> api_ListDeadLetters
   | ToGetDeadLetter i \<Rightarrow> api_GetDeadLetter i
   | ToReplay i \<Rightarrow> api_ReplayDeadLetter a srv i)"

definition route_of :: "api_request \<Rightarrow> route option" where
  "route_of r = map_option snd (find (serves (arq_Method r)) (patterns (arq_Path r)))"

definition NewRouter ::
    "router_deps \<Rightarrow> (string \<Rightarrow> string) \<Rightarrow> decoders \<Rightarrow> ('t, 'r) redis_server \<Rightarrow> api_request \<Rightarrow> ('t, 'r, 'x, 'y, response) am" where
  "NewRouter deps sha256 dec srv r = requestBodyLimitMiddleware (rd_MaxRequestBodyBytes deps) r (\<lambda>limit.
     case route_of r of
       None \<Rightarrow> if patterns (arq_Path r) = [] then writeJSON 404 (PlainText ''404 page not found'')
               else writeJSON 405 (PlainText ''Method Not Allowed'')
     | Some to \<Rightarrow> let next = handler deps dec srv to limit (arq_Body r) in
         if public_route to then next else adminMiddleware sha256 (rd_AdminToken deps) r next)"

text \<open>\<^verbatim>\<open>cmd/api\<close>: the dependencies from the settings.\<close>

definition deps_of :: "config \<Rightarrow> router_deps" where
  "deps_of cfg = \<lparr>rd_AppName = cfg_AppName cfg, rd_AdminToken = cfg_AdminToken cfg,
     rd_MaxRequestBodyBytes = cfg_MaxRequestBodyBytes cfg,
     rd_api = \<lparr>api_limiter = Some (NewTenantRateLimiter (cfg_APIRateLimitPerSecond cfg) (cfg_APIRateLimitWindow cfg)),
       api_monitored = True\<rparr>\<rparr>"

subsection \<open>Credentials\<close>

lemma provided_trimmed: "trim_space (provided_token r) = provided_token r"
  by (simp add: provided_token_def Let_def)


text \<open>The witness: a token that was read from a file with its line break.\<close>

definition api_on :: "world \<Rightarrow> api_world" where
  "api_on w = \<lparr>w_db = w_db w, w_clock = w_clock w, w_tx = w_tx w, w_env = w_env w,
     aw_monitor = NewMonitor 500 1000 (2 * second), aw_random = (\<lambda>n. Some (replicate 8 (char_of n))), aw_reads = 0\<rparr>"

definition padded_settings :: config where
  "padded_settings = Load (\<lambda>key. if key = ''ADMIN_TOKEN'' then ''secret'' @ [CHR 0x0A] else [])"

definition get_policies :: api_request where
  "get_policies = \<lparr>arq_Method = ''GET'', arq_Path = [''v1'', ''policies''], arq_ContentLength = 0,
     arq_AdminToken = ''secret'' @ [CHR 0x0A], arq_Authorization = [], arq_Body = []\<rparr>"

definition no_decoders :: decoders where
  "no_decoders = \<lparr>dec_tenant = (\<lambda>_ _. (EndOfBody, EndOfBody)), dec_template = (\<lambda>_ _. (EndOfBody, EndOfBody)),
     dec_notification = (\<lambda>_ _. (EndOfBody, EndOfBody)), dec_policy = (\<lambda>_ _. (EndOfBody, EndOfBody))\<rparr>"


end
