(* ===== verification/Http_Outcome.thy ===== *)
theory Http_Outcome
  imports Http_Router Pair_Logic Store_Operations
begin

text \<open>
  What the HTTP surface guarantees: the form of its answers, and what an accepted submission leaves
  in the store.
\<close>

subsection \<open>The form of an answer\<close>

definition answers :: "('a \<Rightarrow> bool) \<Rightarrow> ('s, 'a) sm \<Rightarrow> bool" where
  "answers P m = (\<forall>w. case fst (m w) of Inl _ \<Rightarrow> False | Inr x \<Rightarrow> P x)"

named_theorems answer_intros

lemma answers_return [answer_intros]: "P x \<Longrightarrow> answers P (return x)"
  by (simp add: answers_def return_def)

lemma answersD: "answers P m \<Longrightarrow> m w = (y, w') \<Longrightarrow> \<exists>x. y = Inr x \<and> P x"
  unfolding answers_def by (drule spec [of _ w]) (auto split: sum.splits)

lemma answersI: "(\<And>w y w'. m w = (y, w') \<Longrightarrow> \<exists>x. y = Inr x \<and> P x) \<Longrightarrow> answers P m"
  unfolding answers_def by (metis old.sum.simps(6) prod.collapse)

lemma answers_handle [answer_intros]:
  assumes "\<And>e. answers P (h e)" "\<And>x. answers P (k x)"
  shows "answers P (handle m h k)"
proof (rule answersI)
  fix w y w' assume run: "handle m h k w = (y, w')"
  obtain z w1 where z: "m w = (z, w1)" by (cases "m w")
  show "\<exists>x. y = Inr x \<and> P x"
  proof (cases z)
    case (Inl e)
    with run z have "h e w1 = (y, w')" by (simp add: handle_def)
    with assms(1) show ?thesis by (rule answersD)
  next
    case (Inr x)
    with run z have "k x w1 = (y, w')" by (simp add: handle_def)
    with assms(2) show ?thesis by (rule answersD)
  qed
qed

lemma answers_andThen:
  assumes "answers Q m" "\<And>x. Q x \<Longrightarrow> answers P (k x)"
  shows "answers P (andThen m k)"
proof (rule answersI)
  fix w y w' assume run: "andThen m k w = (y, w')"
  obtain z w1 where z: "m w = (z, w1)" by (cases "m w")
  from answersD [OF assms(1) z] obtain x where "z = Inr x" "Q x" by blast
  with run z have "k x w1 = (y, w')" by (simp add: andThen_def handle_def)
  with answersD [OF assms(2) [OF \<open>Q x\<close>]] show "\<exists>x. y = Inr x \<and> P x" by blast
qed

abbreviation total :: "('s, 'a) sm \<Rightarrow> bool" where
  "total \<equiv> answers (\<lambda>_. True)"

lemma answers_after [answer_intros]: "total m \<Longrightarrow> (\<And>x. answers P (k x)) \<Longrightarrow> answers P (andThen m k)"
  by (rule answers_andThen)

lemma answers_if [answer_intros]:
  "(b \<Longrightarrow> answers P m) \<Longrightarrow> (\<not> b \<Longrightarrow> answers P n) \<Longrightarrow> answers P (if b then m else n)"
  by simp

lemma answers_option [answer_intros]:
  "(x = None \<Longrightarrow> answers P m) \<Longrightarrow> (\<And>y. x = Some y \<Longrightarrow> answers P (k y)) \<Longrightarrow> answers P (case x of None \<Rightarrow> m | Some y \<Rightarrow> k y)"
  by (cases x) simp_all

lemma answers_prod [answer_intros]: "(\<And>a b. x = (a, b) \<Longrightarrow> answers P (k a b)) \<Longrightarrow> answers P (case x of (a, b) \<Rightarrow> k a b)"
  by (cases x) simp

lemma answers_rest [answer_intros]: "answers P m \<Longrightarrow> answers P (on_rest m)"
  unfolding answers_def on_rest_def by (auto simp: prod.case_eq_if)

lemma total_ignore [answer_intros]: "total (ignore m)"
  unfolding ignore_def by (intro answer_intros) simp_all

lemma total_basic [answer_intros]:
  "total time_Now" "total rand_Read" "total (update_monitor f)" "total read_monitor"
  by (simp_all add: answers_def time_Now_def rand_Read_def update_monitor_def read_monitor_def split: prod.splits)

lemma total_audit [answer_intros]:
  "total (api_generateID p)" "total (recordAudit t ac an rt ri md)" "total (recordPolicyAudit pol an)"
  unfolding api_generateID_def recordAudit_def recordPolicyAudit_def
  by (intro answer_intros; simp)+

definition is_error :: "body \<Rightarrow> bool" where
  "is_error b = (case b of ErrorBody _ _ \<Rightarrow> True | PlainText _ \<Rightarrow> True | ReadinessBody s _ \<Rightarrow> s \<noteq> ''ready'' | _ \<Rightarrow> False)"

definition typed_response :: "response \<Rightarrow> bool" where
  "typed_response r =
     (if rsp_Status r \<in> {200, 201, 202} then \<not> is_error (rsp_Body r) \<and> rsp_RetryAfter r = None
      else rsp_Status r \<in> {400, 401, 404, 405, 409, 413, 429, 500, 503} \<and> is_error (rsp_Body r)
        \<and> (rsp_RetryAfter r \<noteq> None \<longrightarrow> rsp_Status r \<in> {429, 503}))"

abbreviation proper :: "('s, response) sm \<Rightarrow> bool" where
  "proper \<equiv> answers typed_response"

lemma proper_write [answer_intros]:
  "(if c \<in> {200, 201, 202} then \<not> is_error b
    else c \<in> {400, 401, 404, 405, 409, 413, 429, 500, 503} \<and> is_error b) \<Longrightarrow> proper (writeJSON c b)"
  "c \<in> {400, 401, 404, 405, 409, 413, 429, 500, 503} \<Longrightarrow> proper (writeError c code msg)"
  by (auto simp: answers_def writeJSON_def writeError_def return_def typed_response_def is_error_def split: if_splits)

lemma proper_errors [answer_intros]:
  "proper (notFound_or_internal msg e)" "proper (conflict_or_internal msg e)" "proper (transition_error msg e)"
  unfolding notFound_or_internal_def conflict_or_internal_def transition_error_def
  by (intro answer_intros; simp)+

lemma proper_decode_error [answer_intros]: "proper (writeDecodeError e)"
  unfolding writeDecodeError_def by (cases e) (simp_all, (intro answer_intros; simp)+)

lemma proper_decoding [answer_intros]: "(\<And>req. proper (k req)) \<Longrightarrow> proper (decoding b k)"
  unfolding decoding_def by (auto split: sum.split intro: answer_intros)

lemma proper_required [answer_intros]: "proper k \<Longrightarrow> proper (required n v k)"
  unfolding required_def by (auto intro!: answer_intros)

definition refusal :: "response option \<Rightarrow> bool" where
  "refusal x = (case x of None \<Rightarrow> True | Some r \<Rightarrow> typed_response r)"

lemma proper_gate [answer_intros]: "answers refusal g \<Longrightarrow> proper k \<Longrightarrow> proper (gate g k)"
proof (unfold gate_def, erule answers_andThen)
  fix x assume "proper k" "refusal x"
  then show "proper (case x of Some r \<Rightarrow> return r | None \<Rightarrow> k)"
    by (cases x) (simp_all add: refusal_def answers_return)
qed

lemma refusal_some: "proper m \<Longrightarrow> answers refusal (andThen m (\<lambda>r. return (Some r)))"
  by (erule answers_andThen) (rule answers_return, simp add: refusal_def)

lemma proper_retry_after: "c \<in> {429, 503} \<Longrightarrow> proper (retry_after d (writeError c code msg))"
  by (auto simp: answers_def retry_after_def writeJSON_def writeError_def return_def andThen_def handle_def
    typed_response_def is_error_def)

lemma refusal_gates [answer_intros]:
  "answers refusal (enforceRateLimit a srv t)" "answers refusal (enforceBackpressure a srv)"
  unfolding enforceRateLimit_def enforceBackpressure_def
  by (intro answer_intros refusal_some proper_retry_after; simp add: refusal_def)+

lemma proper_submission [answer_intros]:
  "proper (ensureInitialAttempt n)" "proper (accepted tpl created)" "proper (submit req tpl)"
proof -
  show e: "proper (ensureInitialAttempt n)" for n
    unfolding ensureInitialAttempt_def by (intro answer_intros; simp add: is_error_def)
  show a: "proper (accepted tpl created)" for created
    unfolding accepted_def by (intro answer_intros; simp add: is_error_def)
  show "proper (submit req tpl)"
    unfolding submit_def Let_def by (intro answer_intros e a; simp)
qed

lemma proper_missing: "recipient_missing req tpl = Some m \<Longrightarrow> proper m"
  by (auto simp: recipient_missing_def split: if_splits intro!: answer_intros)

lemma proper_api [answer_intros]:
  "proper (api_CreateTenant b1)" "proper (api_CreateTemplate b2)" "proper (api_CreateNotification a srv b3)"
  "proper api_ListDeadLetters" "proper (api_GetDeadLetter i)" "proper (api_ReplayDeadLetter a srv i)"
  "proper (api_GetNotification i)" "proper (api_ListNotificationAttempts i)" "proper (api_GetAttempt i)"
  "proper (api_CancelNotification i)" "proper (api_RedriveNotification i)" "proper api_ListPolicies"
  "proper (api_GetPolicy i)" "proper (api_UpsertPolicy b4)" "proper (api_PausePolicy i)" "proper (api_ResumePolicy i)"
  unfolding api_CreateTenant_def api_CreateTemplate_def api_CreateNotification_def api_ListDeadLetters_def
    api_GetDeadLetter_def api_ReplayDeadLetter_def api_GetNotification_def api_ListNotificationAttempts_def
    api_GetAttempt_def api_CancelNotification_def api_RedriveNotification_def api_ListPolicies_def
    api_GetPolicy_def api_UpsertPolicy_def api_PausePolicy_def api_ResumePolicy_def setPaused_def Let_def
  by (intro answer_intros proper_missing; (assumption | simp add: is_error_def))+

lemma total_probe: "total (probe c)"
  unfolding probe_def by (intro answer_intros; simp)

lemma total_forEach: "(\<And>x. total (f x)) \<Longrightarrow> total (forEach xs f)"
  by (induction xs) (auto intro!: answer_intros)

lemma proper_operational [answer_intros]:
  "proper (Health n)" "proper (Readiness checks)" "proper (Metrics m p srv)"
  unfolding Health_def Readiness_def Metrics_def
  by (intro answer_intros total_forEach total_probe; simp add: is_error_def)+

lemma proper_handler [answer_intros]: "proper (handler deps dec srv to limit b)"
  unfolding handler_def Let_def by (cases to) (simp_all add: answer_intros)


end
