(* ===== verification/Http_Submission.thy ===== *)
theory Http_Submission
  imports Http_Outcome
begin

text \<open>
  What a submission over HTTP leaves in the store, whatever fails on the way.
\<close>

subsection \<open>Triples of the shared parts\<close>

lemma run_monitor [run_intros]:
  "Q () d \<Longrightarrow> run ok (update_monitor f) d E Q" "(\<And>m. Q2 m d) \<Longrightarrow> run ok read_monitor d E Q2"
  "(\<And>b. Q' b d) \<Longrightarrow> run ok rand_Read d E Q'"
  by (auto simp: run_def update_monitor_def read_monitor_def rand_Read_def calm_def)

lemma run_api_generateID [run_intros]: "(\<And>i. Q i d) \<Longrightarrow> run ok (api_generateID p) d E Q"
  unfolding api_generateID_def by (intro run_intros)

definition same_tables :: "db \<Rightarrow> db \<Rightarrow> bool" where
  "same_tables d d' = (db_notifications d' = db_notifications d \<and> db_attempts d' = db_attempts d \<and> db_outbox d' = db_outbox d)"

lemma same_tables_refl [simp]: "same_tables d d"
  by (simp add: same_tables_def)

lemma run_recordAudit: "run False (recordAudit t ac an rt ri md) d (\<lambda>_ _. False) (\<lambda>_ d'. same_tables d d')"
  unfolding recordAudit_def RecordAuditEvent_def insert_audit_def
  by (intro run_intros) (auto simp: constrained_def same_tables_def intro: run_return)

lemma pair_audit:
  assumes "\<And>d'. same_tables d d' \<Longrightarrow> pair_run False k d' E Q"
  shows "pair_run False (andThen (on_store (recordAudit t ac an rt ri md)) (\<lambda>_. k)) d E Q"
  by (rule pair_andThen, rule pair_rest, rule run_mono [OF run_recordAudit]) (use assms in auto)

text \<open>A response that is not a success promises nothing.\<close>

definition if_success :: "(body \<Rightarrow> db \<Rightarrow> bool) \<Rightarrow> response \<Rightarrow> db \<Rightarrow> bool" where
  "if_success P r d = (rsp_Status r \<in> {200, 202} \<longrightarrow> P (rsp_Body r) d)"

lemma pair_errors [pair_intros]:
  "c \<noteq> 200 \<Longrightarrow> c \<noteq> 202 \<Longrightarrow> I d \<Longrightarrow> pair_run ok (writeError c code msg) d E (\<lambda>r d. I d \<and> if_success P r d)"
  "I d \<Longrightarrow> pair_run ok (notFound_or_internal m e) d E (\<lambda>r d. I d \<and> if_success P r d)"
  "I d \<Longrightarrow> pair_run ok (conflict_or_internal m e) d E (\<lambda>r d. I d \<and> if_success P r d)"
  by (auto simp: pair_run_def writeError_def writeJSON_def return_def if_success_def notFound_or_internal_def
    conflict_or_internal_def)

lemma pair_success:
  "I d \<Longrightarrow> P b d \<Longrightarrow> pair_run ok (writeJSON c b) d E (\<lambda>r d. I d \<and> if_success P r d)"
  by (auto simp: pair_run_def writeJSON_def return_def if_success_def)

lemma pair_required:
  "pair_run ok k d E (\<lambda>r d. I d \<and> if_success P r d) \<Longrightarrow> I d \<Longrightarrow>
     pair_run ok (required n v k) d E (\<lambda>r d. I d \<and> if_success P r d)"
  unfolding required_def by (auto intro: pair_errors)

definition refuses :: "response option \<Rightarrow> bool" where
  "refuses x = (case x of None \<Rightarrow> True | Some r \<Rightarrow> rsp_Status r \<notin> {200, 202})"

lemma pair_gate:
  assumes "pair_run ok g d E (\<lambda>x d'. d' = d \<and> refuses x)" "pair_run ok k d E (\<lambda>r d. I d \<and> if_success P r d)" "I d"
  shows "pair_run ok (gate g k) d E (\<lambda>r d. I d \<and> if_success P r d)"
  unfolding gate_def
  by (rule pair_andThen, rule pair_mono [OF assms(1)])
    (use assms(2,3) in \<open>auto simp: refuses_def if_success_def intro!: pair_return split: option.split\<close>)

lemma pair_status:
  "(\<And>r. rsp_Status r = c \<Longrightarrow> Q r d) \<Longrightarrow> pair_run ok (writeError c code msg) d E Q"
  "(\<And>r. rsp_Status r = c \<Longrightarrow> Q r d) \<Longrightarrow> pair_run ok (retry_after s (writeError c code msg)) d E Q"
  by (auto simp: pair_run_def andThen_def handle_def retry_after_def writeError_def writeJSON_def return_def)

lemma pair_gates:
  "pair_run ok (enforceRateLimit a srv t) d E (\<lambda>x d'. d' = d \<and> refuses x)"
  "pair_run ok (enforceBackpressure a srv) d E (\<lambda>x d'. d' = d \<and> refuses x)"
proof -
  have none: "pair_run ok (return None) d E (\<lambda>x d'. d' = d \<and> refuses x)"
    by (rule pair_return) (simp add: refuses_def)
  show "pair_run ok (enforceRateLimit a srv t) d E (\<lambda>x d'. d' = d \<and> refuses x)"
    unfolding enforceRateLimit_def
    by (auto intro!: none pair_handle pair_queue pair_status pair_andThen pair_rest run_monitor pair_return
      simp: refuses_def split: prod.split)
  show "pair_run ok (enforceBackpressure a srv) d E (\<lambda>x d'. d' = d \<and> refuses x)"
    unfolding enforceBackpressure_def
    by (auto intro!: none pair_handle pair_queue pair_status pair_andThen pair_rest run_monitor pair_return
      simp: refuses_def)
qed


subsection \<open>The store calls of a submission\<close>

lemma gives_lookup_key:
  "gives (GetNotificationByTenantAndIdempotencyKey t k) d
     (\<lambda>n d'. d' = d \<and> (\<exists>row \<in> set (db_notifications d). ntf_TenantID row = t \<and> ntf_IdempotencyKey row = Some k
        \<and> ntf_ID n = ntf_ID row \<and> ntf_IdempotencyKey n = Some k))"
  unfolding GetNotificationByTenantAndIdempotencyKey_def
  by (intro run_intros)
    (auto simp: filter_eq_Cons_iff intro!: run_scanNotification split: list.split sum.split)

lemma lookup_key_found:
  assumes "row \<in> set (db_notifications d)" "ntf_TenantID row = t" "ntf_IdempotencyKey row = Some k"
  shows "run False (GetNotificationByTenantAndIdempotencyKey t k) d (\<lambda>e d'. d' = d \<and> e \<noteq> ErrNotFound) (\<lambda>_ _. True)"
proof -
  have "filter (\<lambda>n. ntf_TenantID n = t \<and> ntf_IdempotencyKey n = Some k) (db_notifications d) \<noteq> []"
    using assms by (auto simp: filter_empty_conv)
  then show ?thesis unfolding GetNotificationByTenantAndIdempotencyKey_def
    by (intro run_intros)
      (auto simp: unmarshalVariables_def intro!: run_scanNotification split: list.split sum.split json.split)
qed

lemma run_both:
  "run ok m d E Q \<Longrightarrow> run ok m d E' Q' \<Longrightarrow> run ok m d (\<lambda>e d'. E e d' \<and> E' e d') (\<lambda>x d'. Q x d' \<and> Q' x d')"
  unfolding run_def by (auto split: sum.splits)

definition ids_kept :: "db \<Rightarrow> db \<Rightarrow> bool" where
  "ids_kept d d' = (map ntf_ID (db_notifications d') = map ntf_ID (db_notifications d))"

interpretation ik: db_history ids_kept
  by unfold_locales (simp_all add: ids_kept_def)

lemma ids_kept_Recalculate: "obeys ids_kept w_db (RecalculateNotificationStatus i)"
  unfolding RecalculateNotificationStatus_def ListDeliveryAttemptsByNotificationID_def is_later_def
    update_notifications_def
  by (intro ik.db_compose ik.stmt moves_case_prod) (auto simp: ids_kept_def intro!: update_where_key)

lemma ids_kept_Ensure: "obeys ids_kept w_db (EnsureInitialAttempt n c a i)"
  unfolding EnsureInitialAttempt_def createDispatchIntentTx_def insert_unless_def
  by (intro ik.db_compose ik.stmt moves_case_prod ids_kept_Recalculate)
    (auto simp: ids_kept_def insert_attempt_def insert_intent_def constrained_Inr split: sum.splits if_splits prod.splits)

lemma run_Ensure:
  "run False (EnsureInitialAttempt n c aid iid) d (\<lambda>_ d'. ids_kept d d')
     (\<lambda>(a, i) d'. ids_kept d d' \<and> initial_ensured n c d a d')"
proof -
  have keep: "run False (EnsureInitialAttempt n c aid iid) d (\<lambda>_ d'. ids_kept d d') (\<lambda>_ d'. ids_kept d d')"
    by (rule run_mono [OF run_obeys [OF ids_kept_Ensure, where Q = "ids_kept d"]]) auto
  show ?thesis by (rule run_mono [OF run_both [OF keep gives_EnsureInitialAttempt]]) auto
qed

text \<open>Attempt number one of a notification is there, and has an intent if it needs one.\<close>

definition first_attempt :: "string \<Rightarrow> bool \<Rightarrow> db \<Rightarrow> bool" where
  "first_attempt n needs d = (\<exists>b \<in> set (db_attempts d). att_NotificationID b = n \<and> att_AttemptNumber b = 1
     \<and> (needs \<longrightarrow> (\<exists>j \<in> set (db_outbox d). int_AttemptID j = att_ID b)))"

lemma first_attempt_same [simp]: "same_tables d d' \<Longrightarrow> first_attempt n needs d' = first_attempt n needs d"
  by (simp add: first_attempt_def same_tables_def)

lemma initial_first: "initial_ensured n c d a d' \<Longrightarrow> first_attempt n True d'"
  by (auto simp: initial_ensured_def first_attempt_def attempt_key_def)

lemma ids_kept_trans: "ids_kept d d' \<Longrightarrow> same_tables d' d'' \<Longrightarrow> ids_kept d d''"
  by (simp add: ids_kept_def same_tables_def)

lemma run_reads:
  "run False (GetTenantByID t) d (\<lambda>_ d'. d' = d) (\<lambda>_ d'. d' = d)"
  "run False (GetTemplateByID m) d (\<lambda>_ d'. d' = d) (\<lambda>_ d'. d' = d)"
  "run False (ResolveDeliveryPolicy t c) d (\<lambda>_ d'. d' = d) (\<lambda>_ d'. d' = d)"
  "run False (GetNotificationByTenantAndIdempotencyKey t k) d (\<lambda>_ d'. d' = d) (\<lambda>_ d'. d' = d)"
  unfolding GetTenantByID_def GetTemplateByID_def ResolveDeliveryPolicy_def GetNotificationByTenantAndIdempotencyKey_def
  by (intro run_intros; (intro run_intros)?; auto split: list.split sum.split intro!: run_intros)+

lemma pair_ensure:
  "pair_run False (ensureInitialAttempt n) d (\<lambda>_ _. False)
     (\<lambda>r d'. ids_kept d d' \<and> if_success (\<lambda>b d'. b = NotificationBody n \<and> first_attempt (ntf_ID n) True d') r d')"
proof -
  have I: "ids_kept d d" by (simp add: ids_kept_def)
  show ?thesis
    unfolding ensureInitialAttempt_def
    apply (rule pair_handle, rule pair_rest, rule run_mono [OF run_reads(2)])
     apply (auto intro!: pair_errors I) [1]
    apply (rule pair_andThen, rule pair_rest, rule run_api_generateID)
    apply (rule pair_andThen, rule pair_rest, rule run_api_generateID)
    apply (rule pair_handle, rule pair_rest, clarify, rule run_mono [OF run_Ensure])
     apply (auto intro!: pair_errors) [1]
    apply (clarsimp, intro conjI impI)
     apply (auto intro!: pair_success intro: initial_first) [1]
    apply (rule pair_audit)
    apply (auto intro!: pair_success intro: initial_first ids_kept_trans)
    done
qed


lemma gives_any: "gives m d (\<lambda>_ _. True)"
  by (auto simp: run_def split: sum.split)

lemma gives_GetNotificationByID: "gives (GetNotificationByID i) d (\<lambda>n _. ntf_ID n = i)"
  unfolding GetNotificationByID_def
  by (intro run_intros) (auto simp: filter_eq_Cons_iff intro!: run_scanNotification split: list.split sum.split)

lemma gives_created_id:
  "gives (CreateNotificationWithInitialDispatch p) d (\<lambda>(n, _, _) _. ntf_ID n = cnp_ID (cdp_Notification p))"
proof -
  have tail: "gives (andThen m (\<lambda>_. andThen (GetNotificationByID i) (\<lambda>n'. return (n', a, j)))) e
      (\<lambda>(n, _, _) _. ntf_ID n = i)"
    for m :: "('x world_scheme, unit) sm" and e i and a :: attempt and j :: "intent option"
    by (rule run_andThen, rule run_mono [OF gives_any], simp,
        rule run_andThen, rule run_mono [OF gives_GetNotificationByID]) (simp_all add: run_return)
  show ?thesis
    unfolding CreateNotificationWithInitialDispatch_def
    apply (rule run_andThen, rule run_transaction)
     apply (rule run_mono [where E = "\<lambda>_ _. True" and Q = "\<lambda>(c, n, _, _) _. ntf_ID n = cnp_ID (cdp_Notification p)"])
       apply (rule run_andThen, rule gives_createNotificationTx)
       apply (rule run_andThen, rule run_mono [OF gives_any], simp)
       apply (rule run_andThen, rule run_is_later, rule run_If)
        apply (rule run_commit_with, simp)
       apply (rule run_andThen, rule run_mono [OF gives_any], simp)
       apply (rule run_commit_with, simp)
      apply simp
    subgoal for x d' by (cases x) (auto simp del: split_paired_All intro: tail)
    by simp
qed

text \<open>
  What an accepted submission has left in the tables: the notification that was asked for, or the one
  that carries the key, with its first attempt and, unless a time is given, the intent for it.
\<close>

definition stored :: "create_notification_request \<Rightarrow> body \<Rightarrow> db \<Rightarrow> bool" where
  "stored req b d = (\<exists>n. b = NotificationBody n
     \<and> (ntf_ID n = cnr_ID req \<or> cnr_IdempotencyKey req \<noteq> [] \<and> ntf_IdempotencyKey n = Some (cnr_IdempotencyKey req))
     \<and> ntf_ID n \<in> ntf_ID ` set (db_notifications d)
     \<and> first_attempt (ntf_ID n) (cnr_ScheduledFor req = None) d)"

lemma stored_same: "stored req b d \<Longrightarrow> same_tables d d' \<Longrightarrow> stored req b d'"
  by (auto simp: stored_def same_tables_def first_attempt_def)

lemma submitted_stored:
  assumes "submitted \<lparr>cdp_Notification = params_of req, cdp_Channel = c, cdp_AttemptID = a, cdp_IntentID = i\<rparr> d d'"
    and "ntf_ID n = cnr_ID req"
  shows "stored req (NotificationBody n) d'"
proof -
  from assms(1) obtain ns os t where d': "d' = d\<lparr>db_notifications := ns,
       db_attempts := db_attempts d @ [new_attempt (pending_attempt a (cnr_ID req) c 1 ''initial'') t],
       db_outbox := db_outbox d @ os\<rparr>"
    and ids: "map ntf_ID ns = map ntf_ID (db_notifications d) @ [cnr_ID req]"
    and os: "\<forall>i \<in> set os. int_AttemptID i = a" "cnr_ScheduledFor req = None \<longrightarrow> os \<noteq> []"
    unfolding submitted_def by (auto simp: params_of_def)
  have "cnr_ID req \<in> set (map ntf_ID ns)" unfolding ids by simp
  moreover have "first_attempt (cnr_ID req) (cnr_ScheduledFor req = None) d'"
    unfolding first_attempt_def d' using os
    by (cases os) (auto simp: new_attempt_def pending_attempt_def)
  ultimately show ?thesis using assms(2) by (auto simp: stored_def d')
qed

lemma pair_accepted:
  assumes "\<And>d'. same_tables d d' \<Longrightarrow> I d' \<and> P (NotificationBody n) d'"
  shows "pair_run False (accepted tpl (n, a, i)) d E (\<lambda>r d. I d \<and> if_success P r d)"
proof -
  have fin: "pair_run False (writeJSON 202 (NotificationBody n)) d' E (\<lambda>r d. I d \<and> if_success P r d)"
    if "same_tables d d'" for d'
    by (rule pair_success) (use assms [OF that] in auto)
  have trans: "same_tables d d' \<Longrightarrow> same_tables d' d'' \<Longrightarrow> same_tables d d''" for d' d''
    by (simp add: same_tables_def)
  show ?thesis
    unfolding accepted_def prod.case
    apply (rule pair_audit)
    apply (cases i; cases "ntf_ScheduledFor n"; simp)
       apply (rule pair_andThen, rule pair_return, rule fin, assumption)
      apply (rule pair_audit, rule fin, erule (1) trans)+
    done
qed


lemma pair_If:
  "(b \<Longrightarrow> pair_run ok m d E Q) \<Longrightarrow> (\<not> b \<Longrightarrow> pair_run ok n d E Q) \<Longrightarrow> pair_run ok (if b then m else n) d E Q"
  by simp

lemma ensure_stored:
  assumes "ntf_IdempotencyKey n = Some (cnr_IdempotencyKey req)" "cnr_IdempotencyKey req \<noteq> []"
    "ntf_ID n \<in> ntf_ID ` set (db_notifications d)"
  shows "pair_run False (ensureInitialAttempt n) d (\<lambda>_ _. False) (if_success (stored req))"
proof (rule pair_mono [OF pair_ensure])
  fix r :: response and d'
  assume post: "ids_kept d d' \<and> if_success (\<lambda>b d'. b = NotificationBody n \<and> first_attempt (ntf_ID n) True d') r d'"
  then have "ntf_ID n \<in> ntf_ID ` set (db_notifications d')"
    using assms(3) unfolding ids_kept_def by (metis list.set_map)
  moreover have "first_attempt (ntf_ID n) True d' \<Longrightarrow> first_attempt (ntf_ID n) needs d'" for needs
    by (auto simp: first_attempt_def)
  ultimately show "if_success (stored req) r d'"
    using post assms(1,2) by (auto simp: if_success_def stored_def)
qed simp

lemma pair_submit:
  assumes "wf_db d"
  shows "pair_run False (submit req tpl) d (\<lambda>_ _. False) (if_success (stored req))"
proof -
  let ?p = "\<lambda>a i. \<lparr>cdp_Notification = params_of req, cdp_Channel = tpl_Channel tpl, cdp_AttemptID = a, cdp_IntentID = i\<rparr>"
  have create: "run False (CreateNotificationWithInitialDispatch (?p a i)) d (\<lambda>_ _. True)
      (\<lambda>(n, a, i) d'. stored req (NotificationBody n) d')" for a i
    by (rule run_mono [OF run_both [OF run_submission [OF assms] gives_created_id]])
      (auto intro!: submitted_stored simp: params_of_def)
  note errors = pair_errors [where I = "\<lambda>_. True", simplified]
  show ?thesis
    unfolding submit_def Let_def
    apply (rule pair_handle, rule pair_rest, rule run_mono [OF run_reads(3)])
     apply (auto intro!: errors) [1]
    apply (rule pair_If)
     apply (auto intro!: errors) [1]
    apply (rule pair_andThen, rule pair_rest, rule run_api_generateID)
    apply (rule pair_andThen, rule pair_rest, rule run_api_generateID)
    apply (hypsubst, rule pair_handle, rule pair_rest, rule run_mono [OF create])
    subgoal for policy d' a i e d1
      apply (rule pair_If)
       apply (rule pair_handle, rule pair_rest, rule run_mono [OF gives_lookup_key])
        apply (rule errors)
       apply (rule ensure_stored, auto) [1]
      apply (rule errors)
      done
    subgoal for policy d' a i x d1
      by (cases x) (auto intro!: pair_accepted [where I = "\<lambda>_. True", simplified] intro: stored_same)
    done
qed


lemma one_key:
  "distinct (keys_of key rs) \<Longrightarrow> r \<in> set rs \<Longrightarrow> r' \<in> set rs \<Longrightarrow> key r = Some k \<Longrightarrow> key r' = Some k \<Longrightarrow> r = r'"
  by (induction rs) (force simp: keys_of_def image_iff split: if_splits)+

definition keyed_submit :: "create_notification_request \<Rightarrow> template \<Rightarrow> ('t, 'r, 'x, 'y, response) am" where
  "keyed_submit req template = (if cnr_IdempotencyKey req \<noteq> [] then
       handle (on_store (GetNotificationByTenantAndIdempotencyKey (cnr_TenantID req) (cnr_IdempotencyKey req)))
         (\<lambda>e. if e = ErrNotFound then submit req template else internalError)
         ensureInitialAttempt
     else submit req template)"

lemma pair_preamble:
  assumes "decodeJSON b = Inr req" "I d"
    and "\<And>tpl. pair_run False (keyed_submit req tpl :: ('t, 'r, 'x, 'y, response) am) d E (\<lambda>r d. I d \<and> if_success P r d)"
  shows "pair_run False (api_CreateNotification a srv b :: ('t, 'r, 'x, 'y, response) am) d E (\<lambda>r d. I d \<and> if_success P r d)"
proof -
  show ?thesis
    unfolding api_CreateNotification_def decoding_def assms(1) sum.case keyed_submit_def [symmetric]
    apply (intro pair_required pair_gate pair_gates assms(2))
    apply (rule pair_handle, rule pair_rest, rule run_mono [OF run_reads(1)])
     apply (auto intro!: pair_errors assms(2)) [1]
    apply (hypsubst, rule pair_handle, rule pair_rest, rule run_mono [OF run_reads(2)])
     apply (auto intro!: pair_errors assms(2)) [1]
    apply (hypsubst, rule pair_If)
     apply (auto intro!: pair_errors assms(2)) [1]
    apply (auto simp: recipient_missing_def intro!: pair_errors assms split: option.split)
    done
qed

lemma pair_no_request:
  assumes "decodeJSON b = Inl e"
  shows "pair_run False (api_CreateNotification a srv b) d E (if_success (\<lambda>_ _. False))"
  by (cases e) (auto simp: api_CreateNotification_def decoding_def assms writeDecodeError_def
    intro!: pair_errors(1) [where I = "\<lambda>_. True", simplified])

text \<open>
  C15.  An accepted submission is durable: whenever the handler answers 200 or 202, and whatever the
  connection did on the way, the body was a request and the notification answered for (the one
  asked for, or the one with its idempotency key) is in the store with its first attempt and, when no
  delivery time was asked for, an intent that makes the publisher dispatch it.
\<close>

theorem accepted_is_durable:
  assumes "wf_db (w_db (snd w))" "api_CreateNotification a srv b w = (Inr resp, w')"
    "rsp_Status resp = 200 \<or> rsp_Status resp = 202"
  shows "\<exists>req. decodeJSON b = Inr req \<and> stored req (rsp_Body resp) (w_db (snd w'))"
proof (cases "decodeJSON b")
  case (Inl e)
  from pair_ends [OF pair_no_request [OF Inl] _ assms(2)] assms(3) show ?thesis by (auto simp: if_success_def)
next
  case (Inr req)
  have "pair_run False (keyed_submit req tpl) (w_db (snd w)) (\<lambda>_ _. False) (if_success (stored req))" for tpl
    unfolding keyed_submit_def
    apply (rule pair_If)
     apply (rule pair_handle, rule pair_rest, rule run_mono [OF run_both [OF run_reads(4) gives_lookup_key]])
      apply (auto intro!: pair_If pair_submit assms(1) pair_errors [where I = "\<lambda>_. True", simplified]) [1]
     apply (rule ensure_stored, auto) [1]
    apply (rule pair_submit [OF assms(1)])
    done
  then have "pair_run False (api_CreateNotification a srv b) (w_db (snd w)) (\<lambda>_ _. False) (if_success (stored req))"
    by (rule pair_preamble [OF Inr, where I = "\<lambda>_. True" and P = "stored req", simplified])
  from pair_ends [OF this _ assms(2)] assms(3) Inr show ?thesis by (auto simp: if_success_def)
qed

text \<open>
  C16.  Repeating a request never creates a second notification: when the tenant already has one with
  the key of the request, then no notification is added or removed whatever is answered, and a 200 or 202
  returns that one, whose first attempt then has an intent.  The latter holds of a
  scheduled or cancelled notification too: its repeated submission makes the publisher dispatch it.
\<close>

theorem retry_returns_existing:
  assumes "wf_db (w_db (snd w))" "decodeJSON b = Inr req" "cnr_IdempotencyKey req \<noteq> []"
    "row \<in> set (db_notifications (w_db (snd w)))" "ntf_TenantID row = cnr_TenantID req"
    "ntf_IdempotencyKey row = Some (cnr_IdempotencyKey req)"
    "api_CreateNotification a srv b w = (Inr resp, w')"
  shows "map ntf_ID (db_notifications (w_db (snd w'))) = map ntf_ID (db_notifications (w_db (snd w)))
    \<and> (rsp_Status resp = 200 \<or> rsp_Status resp = 202 \<longrightarrow> (\<exists>n. rsp_Body resp = NotificationBody n
        \<and> ntf_ID n = ntf_ID row \<and> first_attempt (ntf_ID row) True (w_db (snd w'))))"
proof -
  let ?d = "w_db (snd w)"
  let ?P = "\<lambda>b d. \<exists>n. b = NotificationBody n \<and> ntf_ID n = ntf_ID row \<and> first_attempt (ntf_ID row) True d"
  have I: "ids_kept ?d ?d" by (simp add: ids_kept_def)
  have found: "run False (GetNotificationByTenantAndIdempotencyKey (cnr_TenantID req) (cnr_IdempotencyKey req)) ?d
      (\<lambda>e d'. d' = ?d \<and> e \<noteq> ErrNotFound) (\<lambda>n d'. d' = ?d \<and> ntf_ID n = ntf_ID row)"
  proof (rule run_mono [OF run_both [OF lookup_key_found [OF assms(4-6)] gives_lookup_key]])
    have one: "distinct (keys_of idem_key (db_notifications ?d))" using assms(1) by (simp add: wf_db_defs)
    show "d' = ?d \<and> ntf_ID n = ntf_ID row"
      if "True \<and> d' = ?d \<and> (\<exists>r \<in> set (db_notifications ?d). ntf_TenantID r = cnr_TenantID req
        \<and> ntf_IdempotencyKey r = Some (cnr_IdempotencyKey req) \<and> ntf_ID n = ntf_ID r
        \<and> ntf_IdempotencyKey n = Some (cnr_IdempotencyKey req))" for n d'
      using that assms(4-6) one_key [OF one] by (fastforce simp: idem_key_def)
  qed auto
  have "pair_run False (keyed_submit req tpl) ?d (\<lambda>_ _. False) (\<lambda>r d'. ids_kept ?d d' \<and> if_success ?P r d')" for tpl
    unfolding keyed_submit_def
    apply (rule pair_If)
     apply (rule pair_handle, rule pair_rest, rule run_mono [OF found])
      apply (auto intro!: pair_errors I) [1]
     apply (clarify, rule pair_mono [OF pair_ensure])
      apply (auto simp: if_success_def) [2]
    using assms(3) by simp
  from pair_ends [OF pair_preamble [OF assms(2), where I = "ids_kept ?d", OF I this] _ assms(7)]
  show ?thesis by (auto simp: ids_kept_def if_success_def)
qed


subsection \<open>Examples\<close>

text \<open>
  Two requests on the sample database: a new one, and one that repeats the key of the notification
  \<^verbatim>\<open>o\<close>, which is scheduled for the time 50 while the clock shows 7.
\<close>

definition open_api :: api where
  "open_api = \<lparr>api_limiter = None, api_monitored = False\<rparr>"

definition asking :: "string \<Rightarrow> string \<Rightarrow> create_notification_request" where
  "asking i key = \<lparr>cnr_ID = i, cnr_TenantID = ''t'', cnr_TemplateID = ''m'', cnr_IdempotencyKey = key,
     cnr_RecipientEmail = ''a@b'', cnr_RecipientWebhookURL = [], cnr_SecondaryWebhookURL = [],
     cnr_ScheduledFor = None, cnr_Variables = JObject []\<rparr>"

type_synonym sample_world = "(ref_session, int \<Rightarrow> keyspace) redis_world \<times> api_world"

definition started :: sample_world where
  "started = (new_client [] empty_keys, api_on sample5)"

definition posting :: "create_notification_request \<Rightarrow> (err + response) \<times> sample_world" where
  "posting req = api_CreateNotification open_api ref_server (Value req, EndOfBody) started"

lemma started_db: "w_db (snd started) = w_db sample5"
  by (simp add: started_def api_on_def)

lemma posting_eq: "api_CreateNotification open_api ref_server (Value req, EndOfBody) started
    = (fst (posting req), snd (posting req))"
  by (simp add: posting_def)

theorem accepted_is_durable_witness:
  "\<exists>resp. fst (posting (asking ''p'' ''k2'')) = Inr resp \<and> rsp_Status resp = 202
    \<and> stored (asking ''p'' ''k2'') (rsp_Body resp) (w_db (snd (snd (posting (asking ''p'' ''k2'')))))"
proof -
  have "map_sum id rsp_Status (fst (posting (asking ''p'' ''k2''))) = Inr 202" by code_simp
  then obtain resp where r: "fst (posting (asking ''p'' ''k2'')) = Inr resp" "rsp_Status resp = 202"
    by (cases "fst (posting (asking ''p'' ''k2''))") auto
  have "decodeJSON (Value (asking ''p'' ''k2''), EndOfBody) = Inr (asking ''p'' ''k2'')" by (simp add: decodeJSON_def)
  moreover have "api_CreateNotification open_api ref_server (Value (asking ''p'' ''k2''), EndOfBody) started
      = (Inr resp, snd (posting (asking ''p'' ''k2'')))" using r(1) by (simp add: posting_eq)
  note accepted_is_durable [OF _ this]
  ultimately show ?thesis using r started_db sample5_ok(1) by auto
qed

theorem retry_returns_existing_witness:
  "first_attempt ''o'' True (w_db (snd (snd (posting (asking ''z'' ''l'')))))
    \<and> map (\<lambda>i. (int_AttemptID i, int_Status i)) (db_outbox (w_db (snd (snd (posting (asking ''z'' ''l'')))))) = [(''a'', IPending), (''c'', IPending)]
    \<and> map ntf_ID (db_notifications (w_db (snd (snd (posting (asking ''z'' ''l'')))))) = [''n'', ''o'']"
proof -
  have c: "map_sum id rsp_Status (fst (posting (asking ''z'' ''l''))) = Inr 202
      \<and> map (\<lambda>i. (int_AttemptID i, int_Status i)) (db_outbox (w_db (snd (snd (posting (asking ''z'' ''l'')))))) = [(''a'', IPending), (''c'', IPending)]"
    by code_simp
  then obtain resp where r: "fst (posting (asking ''z'' ''l'')) = Inr resp" "rsp_Status resp = 202"
    by (cases "fst (posting (asking ''z'' ''l''))") auto
  have d: "decodeJSON (Value (asking ''z'' ''l''), EndOfBody) = Inr (asking ''z'' ''l'')" by (simp add: decodeJSON_def)
  have row: "ntf2 \<in> set (db_notifications (w_db (snd started)))" "map ntf_ID (db_notifications (w_db (snd started))) = [''n'', ''o'']"
    by (simp_all add: started_db sample5_def sample_defs)
  have "wf_db (w_db (snd started))" by (simp add: started_db sample5_ok)
  moreover have "api_CreateNotification open_api ref_server (Value (asking ''z'' ''l''), EndOfBody) started
      = (Inr resp, snd (posting (asking ''z'' ''l'')))" using r(1) by (simp add: posting_eq)
  note retry_returns_existing [OF calculation d _ row(1) _ _ this]
  with r(2) c row(2)
  show ?thesis by (auto simp: asking_def ntf2_def ntf1_def)
qed

end
