(* ===== verification/Notify_Service.thy ===== *)
theory Notify_Service
  imports Store_Model Go_Time "HOL-Library.AList"
begin

text \<open>
  The in-memory service (\<^verbatim>\<open>internal/notify/service.go\<close>).  Its tables are maps, modelled as
  association lists with distinct keys; a method holds the lock from its first to its last line, so
  that it is one step on the state.  \<^verbatim>\<open>s.now()\<close> and \<^verbatim>\<open>s.idgen()\<close> give the next value of a sequence each.
\<close>

subsection \<open>Data\<close>

definition errTenantExists :: err where "errTenantExists = ErrText ''tenant already exists''"
definition errTenantNotFound :: err where "errTenantNotFound = ErrText ''tenant not found''"
definition errTemplateExists :: err where "errTemplateExists = ErrText ''template already exists''"
definition errTemplateNotFound :: err where "errTemplateNotFound = ErrText ''template not found''"
definition errNotificationNotFound :: err where "errNotificationNotFound = ErrText ''notification not found''"
definition errDailyQuotaExceeded :: err where "errDailyQuotaExceeded = ErrText ''daily quota exceeded''"

lemmas mvp_errors = errTenantExists_def errTenantNotFound_def errTemplateExists_def errTemplateNotFound_def
  errNotificationNotFound_def errDailyQuotaExceeded_def

record mvp_tenant =
  mtn_ID :: string
  mtn_Name :: string
  mtn_Status :: string
  mtn_DailyQuota :: int
  mtn_CreatedAt :: time

record mvp_template =
  mtp_ID :: string
  mtp_TenantID :: string
  mtp_Name :: string
  mtp_Channel :: string
  mtp_Version :: int
  mtp_Body :: string
  mtp_CreatedAt :: time

record mvp_attempt =
  mat_ID :: string
  mat_NotificationID :: string
  mat_Channel :: string
  mat_AttemptNumber :: int
  mat_Status :: string
  mat_ErrorCode :: "string option"
  mat_NextRetryAt :: "time option"
  mat_CompletedAt :: "time option"

type_synonym any_map = "(string \<times> json) list"

record mvp_notification =
  mnt_ID :: string
  mnt_TenantID :: string
  mnt_TemplateID :: string
  mnt_Channels :: "string list"
  mnt_Recipient :: any_map
  mnt_Variables :: any_map
  mnt_IdempotencyKey :: string
  mnt_Status :: string
  mnt_SubmittedAt :: time
  mnt_Attempts :: "mvp_attempt list"

record mvp_dead_letter =
  mdl_ID :: string
  mdl_NotificationID :: string
  mdl_Channel :: string
  mdl_FinalError :: string
  mdl_DeadLetteredAt :: time

record mvp_usage =
  mus_TenantID :: string
  mus_Date :: string
  mus_AcceptedNotifications :: int
  mus_DailyQuota :: int
  mus_RemainingQuota :: int

record tenant_input =
  tin_ID :: string
  tin_Name :: string
  tin_DailyQuota :: int

record template_input =
  pin_ID :: string
  pin_TenantID :: string
  pin_Name :: string
  pin_Channel :: string
  pin_Body :: string

record update_input =
  uin_Name :: string
  uin_Body :: string

text \<open>The maps of a request may be nil.\<close>

record notification_input =
  nin_TenantID :: string
  nin_TemplateID :: string
  nin_Channels :: "string list"
  nin_Recipient :: "any_map option"
  nin_Variables :: "any_map option"
  nin_IdempotencyKey :: string

record mvp_service =
  svc_tenants :: "(string \<times> mvp_tenant) list"
  svc_templates :: "(string \<times> mvp_template) list"
  svc_notifications :: "(string \<times> mvp_notification) list"
  svc_deadLetters :: "(string \<times> mvp_dead_letter) list"
  svc_idempotencyIndex :: "(string \<times> string) list"
  svc_now :: "nat \<Rightarrow> time"
  svc_nows :: nat
  svc_idgen :: "nat \<Rightarrow> string"
  svc_ids :: nat

definition mvp_NewService :: "(nat \<Rightarrow> time) \<Rightarrow> (nat \<Rightarrow> string) \<Rightarrow> mvp_service" where
  "mvp_NewService now idgen = \<lparr>svc_tenants = [], svc_templates = [], svc_notifications = [], svc_deadLetters = [],
     svc_idempotencyIndex = [], svc_now = now, svc_nows = 0, svc_idgen = idgen, svc_ids = 0\<rparr>"

subsection \<open>Clock and identifiers\<close>

definition svc_tick :: "(mvp_service, time) sm" where
  "svc_tick s = (Inr (svc_now s (svc_nows s)), s\<lparr>svc_nows := Suc (svc_nows s)\<rparr>)"

definition svc_newID :: "(mvp_service, string) sm" where
  "svc_newID s = (Inr (svc_idgen s (svc_ids s)), s\<lparr>svc_ids := Suc (svc_ids s)\<rparr>)"

definition cloneMap :: "any_map option \<Rightarrow> any_map" where
  "cloneMap m = (case m of None \<Rightarrow> [] | Some m \<Rightarrow> m)"

definition reading :: "(mvp_service \<Rightarrow> (mvp_service, 'a) sm) \<Rightarrow> (mvp_service, 'a) sm" where
  "reading f s = f s s"

definition put_notification :: "mvp_notification \<Rightarrow> (mvp_service, unit) sm" where
  "put_notification n s = (Inr (), s\<lparr>svc_notifications := AList.update (mnt_ID n) n (svc_notifications s)\<rparr>)"

subsection \<open>Tenants and templates\<close>

definition mvp_CreateTenant :: "tenant_input \<Rightarrow> (mvp_service, mvp_tenant) sm" where
  "mvp_CreateTenant input = reading (\<lambda>s.
     if map_of (svc_tenants s) (tin_ID input) \<noteq> None then fail errTenantExists
     else andThen svc_tick (\<lambda>now.
       let tenant = \<lparr>mtn_ID = tin_ID input, mtn_Name = tin_Name input, mtn_Status = ''active'',
             mtn_DailyQuota = tin_DailyQuota input, mtn_CreatedAt = now\<rparr> in
       (\<lambda>s. (Inr tenant, s\<lparr>svc_tenants := AList.update (mtn_ID tenant) tenant (svc_tenants s)\<rparr>))))"

definition mvp_GetTenant :: "string \<Rightarrow> (mvp_service, mvp_tenant) sm" where
  "mvp_GetTenant i = reading (\<lambda>s. case map_of (svc_tenants s) i of None \<Rightarrow> fail errTenantNotFound | Some t \<Rightarrow> return t)"

definition mvp_CreateTemplate :: "template_input \<Rightarrow> (mvp_service, mvp_template) sm" where
  "mvp_CreateTemplate input = reading (\<lambda>s.
     if map_of (svc_tenants s) (pin_TenantID input) = None then fail errTenantNotFound
     else if map_of (svc_templates s) (pin_ID input) \<noteq> None then fail errTemplateExists
     else andThen svc_tick (\<lambda>now.
       let template = \<lparr>mtp_ID = pin_ID input, mtp_TenantID = pin_TenantID input, mtp_Name = pin_Name input,
             mtp_Channel = pin_Channel input, mtp_Version = 1, mtp_Body = pin_Body input, mtp_CreatedAt = now\<rparr> in
       (\<lambda>s. (Inr template, s\<lparr>svc_templates := AList.update (mtp_ID template) template (svc_templates s)\<rparr>))))"

definition mvp_GetTemplate :: "string \<Rightarrow> (mvp_service, mvp_template) sm" where
  "mvp_GetTemplate i = reading (\<lambda>s. case map_of (svc_templates s) i of None \<Rightarrow> fail errTemplateNotFound | Some t \<Rightarrow> return t)"

definition mvp_UpdateTemplate :: "string \<Rightarrow> update_input \<Rightarrow> (mvp_service, mvp_template) sm" where
  "mvp_UpdateTemplate i input = reading (\<lambda>s. case map_of (svc_templates s) i of
     None \<Rightarrow> fail errTemplateNotFound
   | Some template \<Rightarrow>
       let template = template\<lparr>mtp_Name := uin_Name input, mtp_Body := uin_Body input,
             mtp_Version := wrap64 (mtp_Version template + 1)\<rparr> in
       (\<lambda>s. (Inr template, s\<lparr>svc_templates := AList.update i template (svc_templates s)\<rparr>)))"

subsection \<open>Notifications\<close>

text \<open>How many notifications of a tenant were submitted on a day.\<close>

definition submitted_on :: "string \<Rightarrow> string \<Rightarrow> mvp_service \<Rightarrow> int" where
  "submitted_on tenantID date s = int (length (filter (\<lambda>(_, n). mnt_TenantID n = tenantID
     \<and> Format_DateOnly (mnt_SubmittedAt n) = date) (svc_notifications s)))"

definition new_mvp_attempt :: "string \<Rightarrow> string \<Rightarrow> int \<Rightarrow> string \<Rightarrow> mvp_attempt" where
  "new_mvp_attempt notificationID channel number i = \<lparr>mat_ID = i, mat_NotificationID = notificationID,
     mat_Channel = channel, mat_AttemptNumber = number, mat_Status = ''pending'', mat_ErrorCode = None,
     mat_NextRetryAt = None, mat_CompletedAt = None\<rparr>"

text \<open>What \<^verbatim>\<open>s.notifications[id]\<close> reads when there is none.\<close>

definition zero_notification :: mvp_notification where
  "zero_notification = \<lparr>mnt_ID = [], mnt_TenantID = [], mnt_TemplateID = [], mnt_Channels = [], mnt_Recipient = [],
     mnt_Variables = [], mnt_IdempotencyKey = [], mnt_Status = [], mnt_SubmittedAt = 0, mnt_Attempts = []\<rparr>"

definition index_key :: "notification_input \<Rightarrow> string" where
  "index_key input = nin_TenantID input @ '':'' @ nin_IdempotencyKey input"

definition mvp_first_attempt :: "string \<Rightarrow> string \<Rightarrow> (mvp_service, mvp_attempt) sm" where
  "mvp_first_attempt notificationID channel = andThen svc_newID (\<lambda>i.
     return (new_mvp_attempt notificationID channel 1 i))"

definition mvp_accept :: "notification_input \<Rightarrow> (mvp_service, mvp_notification \<times> bool) sm" where
  "mvp_accept input =
     andThen svc_newID (\<lambda>notificationID.
     andThen (forEach (nin_Channels input) (mvp_first_attempt notificationID)) (\<lambda>attempts.
     andThen svc_tick (\<lambda>now.
     let n = \<lparr>mnt_ID = notificationID, mnt_TenantID = nin_TenantID input, mnt_TemplateID = nin_TemplateID input,
           mnt_Channels = nin_Channels input, mnt_Recipient = cloneMap (nin_Recipient input),
           mnt_Variables = cloneMap (nin_Variables input), mnt_IdempotencyKey = nin_IdempotencyKey input,
           mnt_Status = ''accepted'', mnt_SubmittedAt = now, mnt_Attempts = attempts\<rparr> in
     andThen (put_notification n) (\<lambda>_ s. (Inr (n, False),
       s\<lparr>svc_idempotencyIndex := AList.update (index_key input) notificationID (svc_idempotencyIndex s)\<rparr>)))))"

definition mvp_CreateNotification :: "notification_input \<Rightarrow> (mvp_service, mvp_notification \<times> bool) sm" where
  "mvp_CreateNotification input = reading (\<lambda>s. case map_of (svc_tenants s) (nin_TenantID input) of
     None \<Rightarrow> fail errTenantNotFound
   | Some tenant \<Rightarrow>
       (case map_of (svc_templates s) (nin_TemplateID input) of
          None \<Rightarrow> fail errTemplateNotFound
        | Some template \<Rightarrow>
            if mtp_TenantID template \<noteq> nin_TenantID input then fail errTemplateNotFound
            else case map_of (svc_idempotencyIndex s) (index_key input) of
              Some existingID \<Rightarrow> return (case map_of (svc_notifications s) existingID of
                None \<Rightarrow> zero_notification | Some n \<Rightarrow> n, True)
            | None \<Rightarrow> andThen svc_tick (\<lambda>now.
                if submitted_on (nin_TenantID input) (Format_DateOnly now) s \<ge> mtn_DailyQuota tenant
                then fail errDailyQuotaExceeded
                else mvp_accept input)))"

definition mvp_GetNotification :: "string \<Rightarrow> (mvp_service, mvp_notification) sm" where
  "mvp_GetNotification i = reading (\<lambda>s. case map_of (svc_notifications s) i of
     None \<Rightarrow> fail errNotificationNotFound | Some n \<Rightarrow> return n)"

text \<open>A replay adds an attempt per channel, counting those of the channel so far.\<close>

fun replay_channels :: "string \<Rightarrow> string list \<Rightarrow> mvp_attempt list \<Rightarrow> (mvp_service, mvp_attempt list) sm" where
  "replay_channels n [] attempts = return attempts"
| "replay_channels n (channel # channels) attempts = andThen svc_newID (\<lambda>i.
     replay_channels n channels (attempts @
       [new_mvp_attempt n channel (int (length (filter (\<lambda>a. mat_Channel a = channel) attempts)) + 1) i]))"

definition mvp_ReplayNotification :: "string \<Rightarrow> (mvp_service, mvp_notification) sm" where
  "mvp_ReplayNotification i = reading (\<lambda>s. case map_of (svc_notifications s) i of
     None \<Rightarrow> fail errNotificationNotFound
   | Some n \<Rightarrow> andThen (replay_channels (mnt_ID n) (mnt_Channels n) (mnt_Attempts n)) (\<lambda>attempts.
       let n = n\<lparr>mnt_Attempts := attempts, mnt_Status := ''processing''\<rparr> in
       (\<lambda>s. (Inr n, s\<lparr>svc_notifications := AList.update i n (svc_notifications s)\<rparr>))))"

definition mvp_Usage :: "string \<Rightarrow> (mvp_service, mvp_usage) sm" where
  "mvp_Usage tenantID = reading (\<lambda>s. case map_of (svc_tenants s) tenantID of
     None \<Rightarrow> fail errTenantNotFound
   | Some tenant \<Rightarrow> andThen svc_tick (\<lambda>now.
       let today = Format_DateOnly now; accepted = submitted_on tenantID today s;
           remaining = wrap64 (mtn_DailyQuota tenant - accepted) in
       return \<lparr>mus_TenantID = tenantID, mus_Date = today, mus_AcceptedNotifications = accepted,
         mus_DailyQuota = mtn_DailyQuota tenant,
         mus_RemainingQuota = (if remaining < 0 then 0 else remaining)\<rparr>))"

definition mvp_DeadLetters :: "(mvp_service, mvp_dead_letter list) sm" where
  "mvp_DeadLetters = reading (\<lambda>s. return (map snd (svc_deadLetters s)))"

end
