(* ===== verification/Go_Calendar.thy ===== *)
theory Go_Calendar
  imports Go_Time
begin

text \<open>
  The calendar is right: the date of a day determines the day, and so does its text.
\<close>

subsection \<open>From a date back to the day\<close>

definition days_before_year :: "int \<Rightarrow> int" where
  "days_before_year y = 365 * (y - 1) + (y - 1) div 4 - (y - 1) div 100 + (y - 1) div 400"

definition day_of_date :: "int \<times> int \<times> int \<Rightarrow> int" where
  "day_of_date date = (case date of (y, m, d) \<Rightarrow>
     days_before_year y + sum_list (take (nat (m - 1)) (month_lengths (is_leap y))) + d - 1)"

lemma month_day_inverse:
  "0 \<le> yd \<Longrightarrow> yd < sum_list ls \<Longrightarrow> month_day ls m0 yd = (m, k) \<Longrightarrow>
     m0 \<le> m \<and> 1 \<le> k \<and> sum_list (take (nat (m - m0)) ls) + k - 1 = yd"
proof (induction ls m0 yd rule: month_day.induct)
  case (2 l ls m0 d)
  show ?case
  proof (cases "d < l")
    case False
    with 2 have IH: "m0 + 1 \<le> m \<and> 1 \<le> k \<and> sum_list (take (nat (m - (m0 + 1))) ls) + k - 1 = d - l" by simp
    then have "nat (m - m0) = Suc (nat (m - (m0 + 1)))" by arith
    with IH show ?thesis by simp
  qed (use 2 in auto)
qed simp

lemma year_days: "sum_list (month_lengths leap) = (if leap then 366 else 365)"
  by (simp add: month_lengths_def)

lemma mod_by: "x = y + k * q \<Longrightarrow> x mod k = y mod k" for x y k q :: int
  by simp

lemma mod_end: "0 < x \<Longrightarrow> x \<le> k \<Longrightarrow> x mod k = 0 \<longleftrightarrow> x = k" for x k :: int
  by (cases "x = k") auto

text \<open>The parts of the count of days: centuries, years of four, years.\<close>

lemma year_parts:
  assumes "0 \<le> a" "a \<le> 3" "0 \<le> b" "b \<le> 24" "0 \<le> c" "c \<le> (3 :: int)"
  shows "days_before_year (400 * n + 100 * a + 4 * b + c + 1) = 146097 * n + 36524 * a + 1461 * b + 365 * c"
    "is_leap (400 * n + 100 * a + 4 * b + c + 1) = (c = 3 \<and> (b < 24 \<or> a = 3))"
proof -
  let ?y = "400 * n + 100 * a + 4 * b + c"
  have q: "?y div 4 = 100 * n + 25 * a + b" "?y div 100 = 4 * n + a" "?y div 400 = n"
    using assms by linarith+
  show "days_before_year (?y + 1) = 146097 * n + 36524 * a + 1461 * b + 365 * c"
    unfolding days_before_year_def by (simp add: q)
  have m: "(?y + 1) mod 4 = (c + 1) mod 4" "(?y + 1) mod 100 = (4 * b + c + 1) mod 100"
    "(?y + 1) mod 400 = (100 * a + 4 * b + c + 1) mod 400"
    by (rule mod_by [of _ _ _ "100 * n + 25 * a + b"], simp) (rule mod_by [of _ _ _ "4 * n + a"], simp,
      rule mod_by [of _ _ _ n], simp)
  have e: "4 * b + c + 1 = 100 \<longleftrightarrow> b = 24 \<and> c = 3" "100 * a + 4 * b + c + 1 = 400 \<longleftrightarrow> a = 3 \<and> b = 24 \<and> c = 3"
    "c + 1 = 4 \<longleftrightarrow> c = 3"
    using assms by (intro iffI conjI; linarith)+
  have z: "(c + 1) mod 4 = 0 \<longleftrightarrow> c + 1 = 4" "(4 * b + c + 1) mod 100 = 0 \<longleftrightarrow> 4 * b + c + 1 = 100"
    "(100 * a + 4 * b + c + 1) mod 400 = 0 \<longleftrightarrow> 100 * a + 4 * b + c + 1 = 400"
    by (rule mod_end; use assms in linarith)+
  show "is_leap (?y + 1) = (c = 3 \<and> (b < 24 \<or> a = 3))"
    unfolding is_leap_def m z e using assms(4) by auto
qed

lemma capped_div:
  fixes x k m :: int
  assumes "0 \<le> x" "0 < k" "0 \<le> m" "a = min m (x div k)" "y = x - a * k"
  shows "0 \<le> a" "a \<le> m" "0 \<le> y" "a < m \<Longrightarrow> y < k"
proof -
  have q: "0 \<le> x div k" using assms by (simp add: pos_imp_zdiv_nonneg_iff)
  with assms show "0 \<le> a" "a \<le> m" by simp_all
  have x: "x = x div k * k + x mod k" "0 \<le> x mod k" "x mod k < k" using assms(2) by simp_all
  have "a * k \<le> x div k * k" using assms by (intro mult_right_mono) simp_all
  with x assms(5) show "0 \<le> y" by linarith
  assume "a < m"
  with assms(4,5) have "y = x - x div k * k" by simp
  with x show "y < k" by linarith
qed

lemma date_of_day_parts:
  assumes "n = d div 146097" "d1 = d mod 146097" "a = min 3 (d1 div 36524)" "d2 = d1 - a * 36524"
    "b = d2 div 1461" "d3 = d2 mod 1461" "c = min 3 (d3 div 365)" "yd = d3 - c * 365"
    "y = 400 * n + 100 * a + 4 * b + c + 1"
  shows "date_of_day d = (y, month_day (month_lengths (is_leap y)) 1 yd)"
  by (simp only: date_of_day_def Let_def assms)

lemma day_of_date_of_day [simp]: "day_of_date (date_of_day d) = d"
proof -
  define n d1 where n: "n = d div 146097" and d1: "d1 = d mod 146097"
  define a d2 where a: "a = min 3 (d1 div 36524)" and d2: "d2 = d1 - a * 36524"
  define b d3 where b: "b = d2 div 1461" and d3: "d3 = d2 mod 1461"
  define c yd where c: "c = min 3 (d3 div 365)" and yd: "yd = d3 - c * 365"
  define y where y: "y = 400 * n + 100 * a + 4 * b + c + 1"
  obtain m k where mk: "month_day (month_lengths (is_leap y)) 1 yd = (m, k)"
    by (cases "month_day (month_lengths (is_leap y)) 1 yd")
  have date: "date_of_day d = (y, m, k)"
    using date_of_day_parts [OF n d1 a d2 b d3 c yd y] mk by simp
  have r1: "0 \<le> d1" "d1 < 146097" by (simp_all add: d1)
  note ca = capped_div [OF r1(1) _ _ a d2, simplified]
  have r2: "d2 < 36525" using ca(2,4) r1(2) d2 by (cases "a = 3") simp_all
  have rb: "0 \<le> b" "b \<le> 24" using ca(3) r2 zdiv_mono1 [of d2 36524 1461] by (simp_all add: b pos_imp_zdiv_nonneg_iff)
  have r3: "0 \<le> d3" "d3 < 1461" by (simp_all add: d3)
  have r24: "b = 24 \<Longrightarrow> a < 3 \<Longrightarrow> d3 < 1460" using ca(4) mult_div_mod_eq [of 1461 d2] unfolding b d3 by simp
  note cc = capped_div [OF r3(1) _ _ c yd, simplified]
  have ryd: "yd < 366" "d3 < 1460 \<Longrightarrow> yd < 365" using cc(2,4) r3(2) yd by (cases "c = 3"; simp)+
  note parts = year_parts [OF ca(1,2) rb cc(1,2), of n, folded y]
  have "yd < sum_list (month_lengths (is_leap y))"
    unfolding year_days parts(2) using ryd r24 cc(2,4) rb(2) ca(2) by (cases "c = 3"; cases "a = 3") auto
  from month_day_inverse [OF cc(3) this mk]
  have inv: "sum_list (take (nat (m - 1)) (month_lengths (is_leap y))) + k - 1 = yd" by simp
  have "d = 146097 * n + d1" "d1 = 36524 * a + d2" "d2 = 1461 * b + d3" "d3 = 365 * c + yd"
    by (simp_all add: n d1 d2 b d3 yd)
  with inv parts(1) date show ?thesis by (simp add: day_of_date_def)
qed


subsection \<open>From its text back to the date\<close>

lemma digits_value_zeros: "digits_value (replicate n (CHR ''0'') @ s) = digits_value s"
proof -
  have "foldl (\<lambda>a c. a * 10 + digit_value c) 0 (replicate n (CHR ''0'')) = 0"
    by (induction n) (simp_all add: digit_value_def)
  then show ?thesis by (simp add: digits_value_def)
qed

lemma padded_digits:
  assumes "0 \<le> n"
  shows "digits_value (padded w n) = n" "\<forall>c \<in> set (padded w n). is_digit c"
proof -
  show "digits_value (padded w n) = n"
    using assms by (simp add: padded_def Let_def digits_value_zeros Itoa_def digits_value_digits_of)
  show "\<forall>c \<in> set (padded w n). is_digit c"
    using assms digits_of_digits [OF assms] by (auto simp: padded_def Let_def Itoa_def list_all_iff is_digit_def)
qed

lemma digits_before:
  assumes "\<forall>c \<in> set s. is_digit c" "\<forall>c \<in> set s'. is_digit c" "s @ CHR ''-'' # r = s' @ CHR ''-'' # r'"
  shows "s = s' \<and> r = r'"
proof -
  have dash: "\<not> is_digit (CHR ''-'')" by (simp add: is_digit_def)
  have "takeWhile is_digit (s @ CHR ''-'' # r) = s" "takeWhile is_digit (s' @ CHR ''-'' # r') = s'"
    using assms(1,2) dash by (simp_all add: takeWhile_append)
  with assms(3) have "s = s'" by simp
  with assms(3) show ?thesis by simp
qed

lemma date_of_day_range:
  assumes "0 \<le> d" "date_of_day d = (y, m, k)"
  shows "0 \<le> y" "0 \<le> m" "0 \<le> k"
proof -
  have pos: "0 \<le> m0 \<Longrightarrow> 0 \<le> x \<Longrightarrow> \<forall>l \<in> set ls. 0 \<le> l \<Longrightarrow> month_day ls m0 x = (m, k) \<Longrightarrow> 0 \<le> m \<and> 0 \<le> k"
    for ls m0 x by (induction ls m0 x rule: month_day.induct) (auto split: if_splits)
  have ls: "\<forall>l \<in> set (month_lengths leap). 0 \<le> l" for leap by (simp add: month_lengths_def)
  define d1 where "d1 = d mod 146097"
  define a d2 where a: "a = min 3 (d1 div 36524)" and d2: "d2 = d1 - a * 36524"
  define b d3 where b: "b = d2 div 1461" and d3: "d3 = d2 mod 1461"
  define c yd where c: "c = min 3 (d3 div 365)" and yd: "yd = d3 - c * 365"
  have y: "y = 400 * (d div 146097) + 100 * a + 4 * b + c + 1" and mk: "month_day (month_lengths (is_leap y)) 1 yd = (m, k)"
    using date_of_day_parts [OF refl d1_def a d2 b d3 c yd refl] assms(2) by auto
  have "0 \<le> d1" by (simp add: d1_def)
  note ca = capped_div [OF this _ _ a d2, simplified]
  have "0 \<le> d3" by (simp add: d3)
  note cc = capped_div [OF this _ _ c yd, simplified]
  have "0 \<le> b" using ca(3) by (simp add: b pos_imp_zdiv_nonneg_iff)
  moreover have "0 \<le> d div 146097" using assms(1) by (simp add: pos_imp_zdiv_nonneg_iff)
  ultimately show "0 \<le> y" using y ca(1) cc(1) by simp
  show "0 \<le> m" "0 \<le> k" using pos [OF _ cc(3) ls mk] by auto
qed

text \<open>From the year 1 on, two instants have the same date as text just when they are of the same day.\<close>

lemma Format_DateOnly_day:
  assumes "0 \<le> t" "0 \<le> t'"
  shows "Format_DateOnly t = Format_DateOnly t' \<longleftrightarrow> t div nanos_per_day = t' div nanos_per_day"
proof
  assume eq: "Format_DateOnly t = Format_DateOnly t'"
  obtain y m d y' m' d' where dates: "date_of_day (t div nanos_per_day) = (y, m, d)"
      "date_of_day (t' div nanos_per_day) = (y', m', d')"
    by (cases "date_of_day (t div nanos_per_day)", cases "date_of_day (t' div nanos_per_day)")
  have days: "0 \<le> t div nanos_per_day" "0 \<le> t' div nanos_per_day"
    using assms by (simp_all add: nanos_per_day_def second_def pos_imp_zdiv_nonneg_iff)
  note pos = date_of_day_range [OF days(1) dates(1)] date_of_day_range [OF days(2) dates(2)]
  note digits = padded_digits(2)
  from eq have "padded 4 y @ CHR ''-'' # padded 2 m @ CHR ''-'' # padded 2 d
      = padded 4 y' @ CHR ''-'' # padded 2 m' @ CHR ''-'' # padded 2 d'"
    by (simp add: Format_DateOnly_def dates)
  from digits_before [OF digits [OF pos(1)] digits [OF pos(4)] this]
  have 1: "padded 4 y = padded 4 y'" and r: "padded 2 m @ CHR ''-'' # padded 2 d = padded 2 m' @ CHR ''-'' # padded 2 d'"
    by auto
  from digits_before [OF digits [OF pos(2)] digits [OF pos(5)] r]
  have 2: "padded 2 m = padded 2 m'" "padded 2 d = padded 2 d'" by auto
  have "y = y'" "m = m'" "d = d'"
    using 1 2 padded_digits(1) pos by metis+
  with dates have "date_of_day (t div nanos_per_day) = date_of_day (t' div nanos_per_day)" by simp
  then show "t div nanos_per_day = t' div nanos_per_day" by (metis day_of_date_of_day)
qed (simp add: Format_DateOnly_def)

end
