(* ===== verification/Notify_Outcome.thy ===== *)
theory Notify_Outcome
  imports Notify_Service Go_Calendar
begin

text \<open>
  What the in-memory service keeps: quotas, the idempotency index, and the notifications.
\<close>

subsection \<open>Calls and reachable states\<close>

datatype mvp_call =
    CallCreateTenant tenant_input
  | CallGetTenant string
  | CallCreateTemplate template_input
  | CallGetTemplate string
  | CallUpdateTemplate string update_input
  | CallCreateNotification notification_input
  | CallGetNotification string
  | CallReplay string
  | CallUsage string
  | CallDeadLetters

fun after :: "mvp_call \<Rightarrow> mvp_service \<Rightarrow> mvp_service" where
  "after (CallCreateTenant input) s = snd (mvp_CreateTenant input s)"
| "after (CallGetTenant i) s = snd (mvp_GetTenant i s)"
| "after (CallCreateTemplate input) s = snd (mvp_CreateTemplate input s)"
| "after (CallGetTemplate i) s = snd (mvp_GetTemplate i s)"
| "after (CallUpdateTemplate i input) s = snd (mvp_UpdateTemplate i input s)"
| "after (CallCreateNotification input) s = snd (mvp_CreateNotification input s)"
| "after (CallGetNotification i) s = snd (mvp_GetNotification i s)"
| "after (CallReplay i) s = snd (mvp_ReplayNotification i s)"
| "after (CallUsage i) s = snd (mvp_Usage i s)"
| "after CallDeadLetters s = snd (mvp_DeadLetters s)"

inductive mvp_later :: "mvp_service \<Rightarrow> mvp_service \<Rightarrow> bool" where
  now: "mvp_later s s"
| call: "mvp_later s s' \<Longrightarrow> mvp_later s (after c s')"

abbreviation mvp_reachable :: "(nat \<Rightarrow> time) \<Rightarrow> (nat \<Rightarrow> string) \<Rightarrow> mvp_service \<Rightarrow> bool" where
  "mvp_reachable clock idgen \<equiv> mvp_later (mvp_NewService clock idgen)"

lemma mvp_later_trans: "mvp_later s' s'' \<Longrightarrow> mvp_later s s' \<Longrightarrow> mvp_later s s''"
  by (induction rule: mvp_later.induct) (auto intro: mvp_later.call)

subsection \<open>The ledger\<close>

text \<open>What of the notifications never changes once they are there.\<close>

definition ledger :: "mvp_service \<Rightarrow> (string \<times> string \<times> string \<times> string \<times> time) list" where
  "ledger s = map (\<lambda>(k, n). (k, mnt_ID n, mnt_TenantID n, mnt_IdempotencyKey n, mnt_SubmittedAt n)) (svc_notifications s)"

definition ledger_count :: "string \<Rightarrow> string \<Rightarrow> (string \<times> string \<times> string \<times> string \<times> time) list \<Rightarrow> int" where
  "ledger_count t date l = int (length (filter (\<lambda>(_, _, t', _, u). t' = t \<and> Format_DateOnly u = date) l))"

lemma submitted_on_ledger: "submitted_on t date s = ledger_count t date (ledger s)"
  unfolding submitted_on_def ledger_count_def ledger_def
  by (simp add: filter_map comp_def split_def)

lemma update_fresh: "map_of al k = None \<Longrightarrow> AList.update k v al = al @ [(k, v)]"
  by (induction al) (auto split: if_splits)

lemma update_keeps:
  assumes "map_of al k = Some v" "f (k, v') = f (k, v)"
  shows "map f (AList.update k v' al) = map f al"
  using assms by (induction al) (auto split: if_splits)

text \<open>One call changes little, unless it accepts a notification.\<close>

definition keeps_templates :: "mvp_service \<Rightarrow> mvp_service \<Rightarrow> bool" where
  "keeps_templates s s' = (\<forall>i t. map_of (svc_templates s) i = Some t \<longrightarrow>
     (\<exists>t'. map_of (svc_templates s') i = Some t' \<and> mtp_TenantID t' = mtp_TenantID t))"

definition advances :: "mvp_service \<Rightarrow> mvp_service \<Rightarrow> bool" where
  "advances s s' = (svc_now s' = svc_now s \<and> svc_idgen s' = svc_idgen s \<and> ledger s' = ledger s
     \<and> svc_idempotencyIndex s' = svc_idempotencyIndex s \<and> svc_ids s \<le> svc_ids s' \<and> svc_nows s \<le> svc_nows s'
     \<and> keeps_templates s s' \<and> (svc_tenants s' = svc_tenants s
       \<or> (\<exists>t tenant. map_of (svc_tenants s) t = None \<and> svc_tenants s' = svc_tenants s @ [(t, tenant)])))"

lemma keeps_templates_refl [simp]: "svc_templates s' = svc_templates s \<Longrightarrow> keeps_templates s s'"
  by (simp add: keeps_templates_def)

lemma advances_refl [simp]: "advances s s"
  by (simp add: advances_def)

lemmas mvp_run = reading_def svc_tick_def svc_newID_def andThen_def handle_def return_def fail_def Let_def

lemma replay_channels_ids:
  "\<exists>as m. replay_channels n chs xs s = (Inr as, s\<lparr>svc_ids := svc_ids s + m\<rparr>)"
proof (induction chs arbitrary: xs s)
  case Nil
  show ?case by (intro exI [of _ xs] exI [of _ 0]) (simp add: mvp_run)
next
  case (Cons c chs)
  obtain as m where "replay_channels n chs (xs @ [new_mvp_attempt n c (int (length (filter (\<lambda>a. mat_Channel a = c) xs)) + 1)
      (svc_idgen s (svc_ids s))]) (s\<lparr>svc_ids := Suc (svc_ids s)\<rparr>) = (Inr as, s\<lparr>svc_ids := Suc (svc_ids s) + m\<rparr>)"
    using Cons [of _ "s\<lparr>svc_ids := Suc (svc_ids s)\<rparr>"] by fastforce
  then show ?case by (intro exI [of _ as] exI [of _ "Suc m"]) (simp add: mvp_run)
qed

lemma advances_calls:
  "advances s (snd (mvp_CreateTenant ti s))" "advances s (snd (mvp_GetTenant i s))"
  "advances s (snd (mvp_CreateTemplate pi s))" "advances s (snd (mvp_GetTemplate i s))"
  "advances s (snd (mvp_UpdateTemplate i ui s))" "advances s (snd (mvp_GetNotification i s))"
  "advances s (snd (mvp_Usage i s))" "advances s (snd (mvp_DeadLetters s))"
  by (auto simp: mvp_CreateTenant_def mvp_GetTenant_def mvp_CreateTemplate_def mvp_GetTemplate_def mvp_UpdateTemplate_def
    mvp_GetNotification_def mvp_Usage_def mvp_DeadLetters_def mvp_run advances_def ledger_def keeps_templates_def
    update_fresh update_conv' split: option.split)

lemma advances_replay: "advances s (snd (mvp_ReplayNotification i s))"
proof (cases "map_of (svc_notifications s) i")
  case (Some n)
  obtain as m where "replay_channels (mnt_ID n) (mnt_Channels n) (mnt_Attempts n) s = (Inr as, s\<lparr>svc_ids := svc_ids s + m\<rparr>)"
    using replay_channels_ids by blast
  with Some show ?thesis
    by (simp add: mvp_ReplayNotification_def mvp_run advances_def ledger_def update_keeps)
qed (simp add: mvp_ReplayNotification_def mvp_run)


subsection \<open>Acceptance\<close>

lemma first_attempt_eq:
  "mvp_first_attempt n c s = (Inr (new_mvp_attempt n c 1 (svc_idgen s (svc_ids s))), s\<lparr>svc_ids := Suc (svc_ids s)\<rparr>)"
  by (simp add: mvp_first_attempt_def mvp_run)

lemma attempts_ids: "\<exists>as. forEach chs (mvp_first_attempt n) s = (Inr as, s\<lparr>svc_ids := svc_ids s + length chs\<rparr>)"
proof (induction chs arbitrary: s)
  case Nil
  show ?case by (intro exI [of _ "[]"]) (simp add: mvp_run)
next
  case (Cons c chs)
  from Cons [of "s\<lparr>svc_ids := Suc (svc_ids s)\<rparr>"] show ?case by (auto simp: first_attempt_eq mvp_run)
qed

text \<open>The state after a notification was accepted.\<close>

definition accepts :: "notification_input \<Rightarrow> mvp_service \<Rightarrow> mvp_notification \<Rightarrow> mvp_service \<Rightarrow> bool" where
  "accepts input s n s' = (mnt_ID n = svc_idgen s (svc_ids s) \<and> mnt_TenantID n = nin_TenantID input
     \<and> mnt_IdempotencyKey n = nin_IdempotencyKey input \<and> mnt_SubmittedAt n = svc_now s (Suc (svc_nows s))
     \<and> mnt_Channels n = nin_Channels input
     \<and> s' = s\<lparr>svc_ids := Suc (svc_ids s) + length (nin_Channels input), svc_nows := Suc (Suc (svc_nows s)),
          svc_notifications := AList.update (mnt_ID n) n (svc_notifications s),
          svc_idempotencyIndex := AList.update (index_key input) (mnt_ID n) (svc_idempotencyIndex s)\<rparr>)"

lemma mvp_accept_eq:
  "\<exists>n s'. mvp_accept input (s\<lparr>svc_nows := Suc (svc_nows s)\<rparr>) = (Inr (n, False), s') \<and> accepts input s n s'"
proof -
  let ?s = "s\<lparr>svc_nows := Suc (svc_nows s), svc_ids := Suc (svc_ids s)\<rparr>"
  obtain as where "forEach (nin_Channels input) (mvp_first_attempt (svc_idgen s (svc_ids s))) ?s = (Inr as, ?s\<lparr>svc_ids := svc_ids ?s + length (nin_Channels input)\<rparr>)"
    using attempts_ids by blast
  then show ?thesis
    by (simp add: mvp_accept_def accepts_def put_notification_def mvp_run)
qed

lemma CreateNotification_cases:
  obtains (refused) e s' where "mvp_CreateNotification input s = (Inl e, s')" "advances s s'"
  | (duplicate) i where "map_of (svc_idempotencyIndex s) (index_key input) = Some i"
      "mvp_CreateNotification input s = (Inr (case map_of (svc_notifications s) i of None \<Rightarrow> zero_notification | Some n \<Rightarrow> n, True), s)"
  | (fresh) n s' tenant template where "mvp_CreateNotification input s = (Inr (n, False), s')" "accepts input s n s'"
      "map_of (svc_tenants s) (nin_TenantID input) = Some tenant" "map_of (svc_idempotencyIndex s) (index_key input) = None"
      "submitted_on (nin_TenantID input) (Format_DateOnly (svc_now s (svc_nows s))) s < mtn_DailyQuota tenant"
      "map_of (svc_templates s) (nin_TemplateID input) = Some template" "mtp_TenantID template = nin_TenantID input"
proof -
  have adv: "advances s (s\<lparr>svc_nows := Suc (svc_nows s)\<rparr>)" by (simp add: advances_def ledger_def)
  obtain n s' where acc: "mvp_accept input (s\<lparr>svc_nows := Suc (svc_nows s)\<rparr>) = (Inr (n, False), s')" "accepts input s n s'"
    using mvp_accept_eq by blast
  show thesis
  proof (cases "map_of (svc_tenants s) (nin_TenantID input)")
    case None
    then show thesis by (intro refused) (auto simp: mvp_CreateNotification_def mvp_run)
  next
    case tenant: (Some tenant)
    show thesis
    proof (cases "map_of (svc_templates s) (nin_TemplateID input)")
      case None
      with tenant show thesis by (intro refused) (auto simp: mvp_CreateNotification_def mvp_run)
    next
      case template: (Some template)
      note eq = mvp_CreateNotification_def [of input] tenant template
      consider "mtp_TenantID template \<noteq> nin_TenantID input"
        | i where "mtp_TenantID template = nin_TenantID input" "map_of (svc_idempotencyIndex s) (index_key input) = Some i"
        | "mtp_TenantID template = nin_TenantID input" "map_of (svc_idempotencyIndex s) (index_key input) = None"
        by (cases "map_of (svc_idempotencyIndex s) (index_key input)") auto
      then show thesis
      proof cases
        case 1
        then show thesis by (intro refused) (auto simp: eq mvp_run)
      next
        case 2
        then show thesis by (intro duplicate) (auto simp: eq mvp_run)
      next
        case 3
        show thesis
        proof (cases "submitted_on (nin_TenantID input) (Format_DateOnly (svc_now s (svc_nows s))) s \<ge> mtn_DailyQuota tenant")
          case True
          with 3 show thesis by (intro refused [OF _ adv]) (auto simp: eq mvp_run)
        next
          case False
          with 3 template acc tenant show thesis by (intro fresh) (auto simp: eq mvp_run)
        qed
      qed
    qed
  qed
qed


subsection \<open>The invariant\<close>

text \<open>
  Identifiers come from the generator, times from the clock; every notification belongs to a tenant
  and is the one the index names for its key, and the index names nothing else; no tenant has more
  notifications on a day than its quota.
\<close>

definition mvp_ok :: "mvp_service \<Rightarrow> bool" where
  "mvp_ok s = (distinct (map fst (ledger s))
     \<and> (\<forall>(k, i, t, key, u) \<in> set (ledger s). i = k \<and> (\<exists>j < svc_ids s. k = svc_idgen s j) \<and> (\<exists>j < svc_nows s. u = svc_now s j)
          \<and> map_of (svc_tenants s) t \<noteq> None \<and> map_of (svc_idempotencyIndex s) (t @ '':'' @ key) = Some k)
     \<and> (\<forall>x k. map_of (svc_idempotencyIndex s) x = Some k \<longrightarrow> (\<exists>i t key u. (k, i, t, key, u) \<in> set (ledger s) \<and> x = t @ '':'' @ key))
     \<and> (\<forall>t tenant date. map_of (svc_tenants s) t = Some tenant \<longrightarrow> ledger_count t date (ledger s) \<le> max 0 (mtn_DailyQuota tenant)))"

lemma ledger_count_none: "(\<And>k i key u. (k, i, t, key, u) \<in> set l \<Longrightarrow> Format_DateOnly u \<noteq> date) \<Longrightarrow> ledger_count t date l = 0"
  by (auto simp: ledger_count_def filter_empty_conv)

lemma ok_row:
  assumes "mvp_ok s" "(k, i, t, key, u) \<in> set (ledger s)"
  shows "i = k" "\<exists>j < svc_ids s. k = svc_idgen s j" "\<exists>j < svc_nows s. u = svc_now s j"
    "map_of (svc_tenants s) t \<noteq> None" "map_of (svc_idempotencyIndex s) (t @ '':'' @ key) = Some k"
  using assms(1) bspec [OF conjunct1 [OF conjunct2 [OF assms(1) [unfolded mvp_ok_def]]] assms(2)] by blast+

lemma ok_advances:
  assumes ok: "mvp_ok s" and adv: "advances s s'"
  shows "mvp_ok s'"
proof -
  have same: "svc_now s' = svc_now s" "svc_idgen s' = svc_idgen s" "ledger s' = ledger s"
      "svc_idempotencyIndex s' = svc_idempotencyIndex s" and le: "svc_ids s \<le> svc_ids s'" "svc_nows s \<le> svc_nows s'"
    using adv by (simp_all add: advances_def)
  have grown: "map_of (svc_tenants s') t = map_of (svc_tenants s) t" if "map_of (svc_tenants s) t \<noteq> None" for t
    using adv that by (auto simp: advances_def map_add_def)
  have rows: "i = k \<and> (\<exists>j < svc_ids s'. k = svc_idgen s' j) \<and> (\<exists>j < svc_nows s'. u = svc_now s' j)
      \<and> map_of (svc_tenants s') t \<noteq> None \<and> map_of (svc_idempotencyIndex s') (t @ '':'' @ key) = Some k"
    if "(k, i, t, key, u) \<in> set (ledger s')" for k i t key u
  proof -
    note row = ok_row [OF ok that [unfolded same]]
    obtain j j' where "j < svc_ids s" "k = svc_idgen s j" "j' < svc_nows s" "u = svc_now s j'" using row(2,3) by blast
    then have "j < svc_ids s'" "k = svc_idgen s' j" "j' < svc_nows s'" "u = svc_now s' j'" using le same by auto
    moreover have "map_of (svc_tenants s') t \<noteq> None" using grown row(4) by simp
    ultimately show ?thesis using row(1,5) unfolding same by blast
  qed
  have quota: "ledger_count t date (ledger s') \<le> max 0 (mtn_DailyQuota tenant)"
    if "map_of (svc_tenants s') t = Some tenant" for t tenant date
  proof (cases "map_of (svc_tenants s) t")
    case None
    with ok have "ledger_count t date (ledger s) = 0" by (intro ledger_count_none) (auto dest: ok_row(4))
    then show ?thesis by (simp add: same)
  next
    case (Some _)
    with grown [of t] that have "map_of (svc_tenants s) t = Some tenant" by simp
    with ok show ?thesis by (simp add: mvp_ok_def same)
  qed
  have "distinct (map fst (ledger s'))"
    "\<forall>x k. map_of (svc_idempotencyIndex s') x = Some k \<longrightarrow> (\<exists>i t key u. (k, i, t, key, u) \<in> set (ledger s') \<and> x = t @ '':'' @ key)"
    using ok by (simp_all add: mvp_ok_def same)
  with rows quota show ?thesis unfolding mvp_ok_def by auto
qed

text \<open>A clock that does not go back, from the year 1 on, and identifiers that do not repeat.\<close>

definition good_sources :: "mvp_service \<Rightarrow> bool" where
  "good_sources s = (inj (svc_idgen s) \<and> mono (svc_now s) \<and> 0 \<le> svc_now s 0)"

lemma accepted_ledger:
  assumes "mvp_ok s" "good_sources s" "accepts input s n s'"
  shows "ledger s' = ledger s @ [(mnt_ID n, mnt_ID n, nin_TenantID input, nin_IdempotencyKey input, mnt_SubmittedAt n)]"
proof -
  have "mnt_ID n \<notin> fst ` set (ledger s)"
  proof
    assume "mnt_ID n \<in> fst ` set (ledger s)"
    then obtain k i t key u where "(k, i, t, key, u) \<in> set (ledger s)" "mnt_ID n = k" by auto
    with ok_row(2) [OF assms(1)] obtain j where "j < svc_ids s" "mnt_ID n = svc_idgen s j" by blast
    then show False using assms(2,3) by (auto simp: good_sources_def accepts_def dest: injD)
  qed
  then have "map_of (svc_notifications s) (mnt_ID n) = None"
    by (force simp: ledger_def map_of_eq_None_iff)
  then show ?thesis using assms(3) by (auto simp: accepts_def ledger_def update_fresh)
qed

lemma quota_after_accept:
  assumes ok: "mvp_ok s" and good: "good_sources s"
    and room: "ledger_count t (Format_DateOnly (svc_now s (svc_nows s))) (ledger s) < quota"
    and u: "u = svc_now s (Suc (svc_nows s))"
  shows "ledger_count t (Format_DateOnly u) (ledger s) < quota"
proof (cases "Format_DateOnly u = Format_DateOnly (svc_now s (svc_nows s))")
  case True
  with room show ?thesis by simp
next
  case False
  let ?today = "svc_now s (svc_nows s)"
  have le: "svc_now s j \<le> svc_now s j'" if "j \<le> j'" for j j' using good that by (simp add: good_sources_def mono_def)
  have pos: "0 \<le> svc_now s j" for j using le [of 0 j] good by (simp add: good_sources_def)
  have "ledger_count t (Format_DateOnly u) (ledger s) = 0"
  proof (rule ledger_count_none)
    fix k i key v assume row: "(k, i, t, key, v) \<in> set (ledger s)"
    with ok_row(3) [OF ok] obtain j where j: "j < svc_nows s" "v = svc_now s j" by blast
    have between: "v \<le> ?today" "?today \<le> u" using le j u by (auto intro: less_imp_le)
    show "Format_DateOnly v \<noteq> Format_DateOnly u"
    proof
      assume "Format_DateOnly v = Format_DateOnly u"
      then have "v div nanos_per_day = u div nanos_per_day"
        using Format_DateOnly_day [of v u] pos j(2) u by simp
      moreover have "v div nanos_per_day \<le> ?today div nanos_per_day" "?today div nanos_per_day \<le> u div nanos_per_day"
        using between by (simp_all add: nanos_per_day_def second_def zdiv_mono1)
      ultimately have "?today div nanos_per_day = u div nanos_per_day" by simp
      with False show False using Format_DateOnly_day [of u ?today] pos u by simp
    qed
  qed
  moreover have "0 \<le> ledger_count t (Format_DateOnly ?today) (ledger s)" by (simp add: ledger_count_def)
  ultimately show ?thesis using room by simp
qed


lemma ok_accepts:
  assumes ok: "mvp_ok s" and good: "good_sources s" and acc: "accepts input s n s'"
    and tenant: "map_of (svc_tenants s) (nin_TenantID input) = Some tenant"
    and fresh: "map_of (svc_idempotencyIndex s) (index_key input) = None"
    and room: "submitted_on (nin_TenantID input) (Format_DateOnly (svc_now s (svc_nows s))) s < mtn_DailyQuota tenant"
  shows "mvp_ok s'"
proof -
  let ?t = "nin_TenantID input" and ?key = "nin_IdempotencyKey input" and ?i = "mnt_ID n" and ?u = "mnt_SubmittedAt n"
  note l = accepted_ledger [OF ok good acc]
  have s': "svc_tenants s' = svc_tenants s" "svc_idgen s' = svc_idgen s" "svc_now s' = svc_now s"
      "svc_ids s' = Suc (svc_ids s) + length (nin_Channels input)" "svc_nows s' = Suc (Suc (svc_nows s))"
      "svc_idempotencyIndex s' = svc_idempotencyIndex s @ [(?t @ '':'' @ ?key, ?i)]"
      "?i = svc_idgen s (svc_ids s)" "?u = svc_now s (Suc (svc_nows s))"
    using acc fresh by (simp_all add: accepts_def update_fresh index_key_def)
  have index: "map_of (svc_idempotencyIndex s') x = (if x = ?t @ '':'' @ ?key then Some ?i else map_of (svc_idempotencyIndex s) x)" for x
    using fresh by (simp add: s'(6) map_add_def index_key_def split: option.split)
  have new: "?i \<noteq> k" if "(k, i, t, key, u) \<in> set (ledger s)" for k i t key u
    using ok_row(2) [OF ok that] good s'(7) by (auto simp: good_sources_def dest: injD)
  have old: "t @ '':'' @ key \<noteq> ?t @ '':'' @ ?key" if "(k, i, t, key, u) \<in> set (ledger s)" for k i t key u
    using ok_row(5) [OF ok that] fresh by (auto simp: index_key_def)
  have rows: "i = k \<and> (\<exists>j < svc_ids s'. k = svc_idgen s' j) \<and> (\<exists>j < svc_nows s'. u = svc_now s' j)
      \<and> map_of (svc_tenants s') t \<noteq> None \<and> map_of (svc_idempotencyIndex s') (t @ '':'' @ key) = Some k"
    if "(k, i, t, key, u) \<in> set (ledger s')" for k i t key u
  proof (cases "(k, i, t, key, u) \<in> set (ledger s)")
    case True
    note row = ok_row [OF ok True]
    obtain j j' where "j < svc_ids s" "k = svc_idgen s j" "j' < svc_nows s" "u = svc_now s j'"
      using row(2,3) by blast
    then have "j < svc_ids s'" "k = svc_idgen s' j" "j' < svc_nows s'" "u = svc_now s' j'"
      by (simp_all add: s')
    with row(1,4,5) old [OF True] show ?thesis unfolding s'(1) by (auto simp: index)
  next
    case False
    with that l have "k = ?i" "i = ?i" "t = ?t" "key = ?key" "u = ?u" by auto
    moreover have "\<exists>j < svc_ids s'. ?i = svc_idgen s' j" by (intro exI [of _ "svc_ids s"]) (simp add: s')
    moreover have "\<exists>j < svc_nows s'. ?u = svc_now s' j" by (intro exI [of _ "Suc (svc_nows s)"]) (simp add: s')
    moreover have "map_of (svc_tenants s') ?t \<noteq> None" using tenant by (simp add: s')
    moreover have "map_of (svc_idempotencyIndex s') (?t @ '':'' @ ?key) = Some ?i" unfolding index by simp
    ultimately show ?thesis by blast
  qed
  have "distinct (map fst (ledger s'))" using ok new by (fastforce simp: l mvp_ok_def)
  moreover have "\<exists>i t key u. (k, i, t, key, u) \<in> set (ledger s') \<and> x = t @ '':'' @ key"
    if "map_of (svc_idempotencyIndex s') x = Some k" for x k
  proof (cases "x = ?t @ '':'' @ ?key")
    case True
    with that show ?thesis by (auto simp: index l)
  next
    case False
    with that have "map_of (svc_idempotencyIndex s) x = Some k" by (simp add: index)
    with ok have "\<exists>i t key u. (k, i, t, key, u) \<in> set (ledger s) \<and> x = t @ '':'' @ key" unfolding mvp_ok_def by blast
    then show ?thesis unfolding l by auto
  qed
  moreover have "ledger_count t date (ledger s') \<le> max 0 (mtn_DailyQuota ten)"
    if "map_of (svc_tenants s') t = Some ten" for t ten date
  proof (cases "t = ?t \<and> date = Format_DateOnly ?u")
    case True
    with that tenant have "ten = tenant" by (simp add: s')
    with True quota_after_accept [OF ok good room [unfolded submitted_on_ledger] s'(8)] show ?thesis
      by (simp add: l ledger_count_def)
  next
    case False
    then have "ledger_count t date (ledger s') = ledger_count t date (ledger s)" by (auto simp: l ledger_count_def)
    with ok that show ?thesis by (simp add: mvp_ok_def s')
  qed
  ultimately show ?thesis using rows unfolding mvp_ok_def by auto
qed

subsection \<open>Reachable states\<close>

definition accepts_here :: "mvp_service \<Rightarrow> mvp_service \<Rightarrow> bool" where
  "accepts_here s s' = (\<exists>input n tenant. accepts input s n s' \<and> map_of (svc_tenants s) (nin_TenantID input) = Some tenant
     \<and> map_of (svc_idempotencyIndex s) (index_key input) = None
     \<and> submitted_on (nin_TenantID input) (Format_DateOnly (svc_now s (svc_nows s))) s < mtn_DailyQuota tenant)"

lemma call_cases: "advances s (after c s) \<or> accepts_here s (after c s)"
proof (cases c)
  case (CallCreateNotification input)
  show ?thesis unfolding CallCreateNotification after.simps accepts_here_def
    by (cases rule: CreateNotification_cases [of input s]) fastforce+
qed (simp_all add: advances_calls advances_replay)

lemma ok_call:
  assumes "mvp_ok s" "good_sources s"
  shows "mvp_ok (after c s) \<and> good_sources (after c s)"
  using call_cases [of s c]
proof
  assume adv: "advances s (after c s)"
  then have "good_sources (after c s)" using assms(2) by (simp add: advances_def good_sources_def)
  with ok_advances [OF assms(1) adv] show ?thesis by blast
next
  assume acc: "accepts_here s (after c s)"
  then have "good_sources (after c s)" using assms(2) by (auto simp: accepts_here_def accepts_def good_sources_def)
  moreover from acc have "mvp_ok (after c s)" unfolding accepts_here_def by (elim exE conjE) (rule ok_accepts [OF assms])
  ultimately show ?thesis by blast
qed

lemma ok_later: "mvp_later s s' \<Longrightarrow> mvp_ok s \<Longrightarrow> good_sources s \<Longrightarrow> mvp_ok s' \<and> good_sources s'"
  by (induction rule: mvp_later.induct) (auto dest: ok_call)

lemma ok_reachable:
  assumes "mvp_reachable clock idgen s" "inj idgen" "mono clock" "0 \<le> clock 0"
  shows "mvp_ok s" "good_sources s"
proof -
  have "mvp_ok (mvp_NewService clock idgen)" "good_sources (mvp_NewService clock idgen)"
    using assms(2-4) by (simp_all add: mvp_ok_def good_sources_def mvp_NewService_def ledger_def)
  from ok_later [OF assms(1) this] show "mvp_ok s" "good_sources s" by auto
qed

text \<open>
  C36.  The in-memory service never accepts more notifications of a tenant on a day than the quota of
  the tenant, in any state that calls can reach, also when the day changes while a notification is being
  accepted; the clock must not go back, and the identifiers must not repeat.
\<close>

theorem mvp_quota_kept:
  assumes "mvp_reachable clock idgen s" "inj idgen" "mono clock" "0 \<le> clock 0"
    "map_of (svc_tenants s) t = Some tenant"
  shows "submitted_on t date s \<le> max 0 (mtn_DailyQuota tenant)"
  using ok_reachable(1) [OF assms(1-4)] assms(5) unfolding mvp_ok_def submitted_on_ledger by blast


subsection \<open>Idempotent submission\<close>

text \<open>What later calls keep of a submission that was answered.\<close>

definition mvp_answered :: "notification_input \<Rightarrow> string \<Rightarrow> mvp_service \<Rightarrow> bool" where
  "mvp_answered input i s = (map_of (svc_tenants s) (nin_TenantID input) \<noteq> None
     \<and> (\<exists>template. map_of (svc_templates s) (nin_TemplateID input) = Some template \<and> mtp_TenantID template = nin_TenantID input)
     \<and> map_of (svc_idempotencyIndex s) (index_key input) = Some i)"

lemma mvp_answered_advances: "mvp_answered input i s \<Longrightarrow> advances s s' \<Longrightarrow> mvp_answered input i s'"
  unfolding mvp_answered_def advances_def keeps_templates_def by (auto simp: map_add_def) metis+

lemma mvp_answered_accepts:
  assumes "mvp_answered input i s" "accepts_here s s'"
  shows "mvp_answered input i s'"
  using assms unfolding accepts_here_def accepts_def mvp_answered_def by (auto simp: update_conv')

lemma mvp_answered_later: "mvp_later s s' \<Longrightarrow> mvp_answered input i s \<Longrightarrow> mvp_answered input i s'"
proof (induction rule: mvp_later.induct)
  case (call s s' c)
  with call_cases [of s' c] show ?case by (auto intro: mvp_answered_advances mvp_answered_accepts)
qed simp

lemma ok_indexed:
  assumes "mvp_ok s" "map_of (svc_idempotencyIndex s) x = Some i"
  shows "\<exists>n. map_of (svc_notifications s) i = Some n \<and> mnt_ID n = i \<and> mnt_TenantID n @ '':'' @ mnt_IdempotencyKey n = x"
proof -
  obtain j t key u where row: "(i, j, t, key, u) \<in> set (ledger s)" "x = t @ '':'' @ key"
    using assms unfolding mvp_ok_def by blast
  then obtain n where n: "(i, n) \<in> set (svc_notifications s)" "j = mnt_ID n" "t = mnt_TenantID n" "key = mnt_IdempotencyKey n"
    by (auto simp: ledger_def)
  have "distinct (map fst (svc_notifications s))"
    using assms(1) by (simp add: mvp_ok_def ledger_def comp_def split_def)
  with n(1) have "map_of (svc_notifications s) i = Some n" by simp
  then show ?thesis using ok_row(1) [OF assms(1) row(1)] n row(2) by auto
qed

lemma mvp_answered_again:
  assumes "mvp_answered input i s"
  shows "\<exists>n. mvp_CreateNotification input s = (Inr (n, True), s) \<and> (mvp_ok s \<longrightarrow> mnt_ID n = i)"
proof -
  have eq: "mvp_CreateNotification input s
      = (Inr (case map_of (svc_notifications s) i of None \<Rightarrow> zero_notification | Some n \<Rightarrow> n, True), s)"
    using assms by (auto simp: mvp_answered_def mvp_CreateNotification_def mvp_run)
  have "mvp_ok s \<Longrightarrow> mnt_ID (case map_of (svc_notifications s) i of None \<Rightarrow> zero_notification | Some n \<Rightarrow> n) = i"
    using ok_indexed [of s "index_key input" i] assms by (auto simp: mvp_answered_def)
  with eq show ?thesis by blast
qed

lemma created_answered_for:
  assumes "mvp_ok s" "mvp_CreateNotification input s = (Inr (n, dup), s')"
  shows "mvp_answered input (mnt_ID n) s'"
proof (cases rule: CreateNotification_cases [of input s])
  case (refused e s1)
  with assms(2) show ?thesis by simp
next
  case (duplicate i)
  obtain m where "map_of (svc_notifications s) i = Some m" "mnt_ID m = i"
    using ok_indexed [OF assms(1) duplicate(1)] by blast
  with duplicate assms(2) have "n = m" "s' = s" "mnt_ID n = i" by auto
  moreover obtain tenant template where "map_of (svc_tenants s) (nin_TenantID input) = Some tenant"
      "map_of (svc_templates s) (nin_TemplateID input) = Some template" "mtp_TenantID template = nin_TenantID input"
    using duplicate(2) by (auto simp: mvp_CreateNotification_def mvp_run split: option.splits if_splits)
  ultimately show ?thesis using duplicate(1) by (simp add: mvp_answered_def)
next
  case (fresh m s1 tenant template)
  with assms(2) have "accepts input s n s'" by simp
  then show ?thesis using fresh(3,6,7) by (simp add: accepts_def mvp_answered_def update_conv')
qed

text \<open>
  C37.  Submitting again is idempotent: once a submission was answered with a notification, the same
  submission is answered, after any further calls, with the notification of that identifier, as a duplicate,
  and changes nothing.
\<close>

theorem mvp_idempotent:
  assumes "mvp_reachable clock idgen s" "inj idgen" "mono clock" "0 \<le> clock 0"
    "mvp_CreateNotification input s = (Inr (n, dup), s')" "mvp_later s' s''"
  shows "\<exists>n''. mvp_CreateNotification input s'' = (Inr (n'', True), s'') \<and> mnt_ID n'' = mnt_ID n"
proof -
  note ok = ok_reachable [OF assms(1-4)]
  have "s' = after (CallCreateNotification input) s" using assms(5) by simp
  with ok_call [OF ok] have "mvp_ok s' \<and> good_sources s'" by metis
  with ok_later [OF assms(6)] have "mvp_ok s''" by blast
  moreover have "mvp_answered input (mnt_ID n) s''"
    by (rule mvp_answered_later [OF assms(6) created_answered_for [OF ok(1) assms(5)]])
  ultimately show ?thesis using mvp_answered_again by blast
qed

lemma split_at: "a @ c # x = b @ c # y \<Longrightarrow> c \<notin> set a \<Longrightarrow> c \<notin> set b \<Longrightarrow> a = b \<and> x = y"
proof (induction a arbitrary: b)
  case Nil
  then show ?case by (cases b) auto
next
  case (Cons d a)
  then show ?case by (cases b) auto
qed

text \<open>
  C38.  A duplicate answer is a stored notification whose tenant and key, joined by a colon, are those of the
  submission joined by a colon, and nothing changes.  When neither tenant has a colon in its identifier it is
  the same tenant and the same key; with colons a tenant is given the notification of another one.
\<close>

theorem mvp_duplicate_owner:
  assumes "mvp_reachable clock idgen s" "inj idgen" "mono clock" "0 \<le> clock 0"
    "mvp_CreateNotification input s = (Inr (n, True), s')"
  shows "s' = s \<and> map_of (svc_notifications s) (mnt_ID n) = Some n
    \<and> mnt_TenantID n @ '':'' @ mnt_IdempotencyKey n = nin_TenantID input @ '':'' @ nin_IdempotencyKey input
    \<and> (CHR '':'' \<in> set (nin_TenantID input @ mnt_TenantID n)
       \<or> mnt_TenantID n = nin_TenantID input \<and> mnt_IdempotencyKey n = nin_IdempotencyKey input)"
proof (cases rule: CreateNotification_cases [of input s])
  case (duplicate i)
  obtain m where m: "map_of (svc_notifications s) i = Some m" "mnt_ID m = i"
      "mnt_TenantID m @ '':'' @ mnt_IdempotencyKey m = index_key input"
    using ok_indexed [OF ok_reachable(1) [OF assms(1-4)] duplicate(1)] by blast
  with duplicate(2) assms(5) have "n = m" "s' = s" by auto
  moreover have "mnt_TenantID m = nin_TenantID input \<and> mnt_IdempotencyKey m = nin_IdempotencyKey input"
    if "CHR '':'' \<notin> set (nin_TenantID input @ mnt_TenantID m)"
    using split_at [of "mnt_TenantID m" "CHR '':''"] m(3) that by (simp add: index_key_def)
  ultimately show ?thesis using m by (auto simp: index_key_def)
qed (use assms(5) in auto)


subsection \<open>Examples\<close>

text \<open>Two tenants, one of which has a colon in its name, and a submission of the other one.\<close>

definition steady_clock :: "nat \<Rightarrow> time" where
  "steady_clock n = int n"

definition counted_ids :: "nat \<Rightarrow> string" where
  "counted_ids n = replicate n (CHR ''x'')"

definition asks_for :: "string \<Rightarrow> string \<Rightarrow> string \<Rightarrow> notification_input" where
  "asks_for t m key = \<lparr>nin_TenantID = t, nin_TemplateID = m, nin_Channels = [''email''],
     nin_Recipient = Some [(''email'', JString ''a@b'')], nin_Variables = None, nin_IdempotencyKey = key\<rparr>"

definition two_tenants :: mvp_service where
  "two_tenants = fold after [
     CallCreateTenant \<lparr>tin_ID = ''a'', tin_Name = ''one'', tin_DailyQuota = 1\<rparr>,
     CallCreateTenant \<lparr>tin_ID = ''a:b'', tin_Name = ''two'', tin_DailyQuota = 1\<rparr>,
     CallCreateTemplate \<lparr>pin_ID = ''m'', pin_TenantID = ''a'', pin_Name = ''x'', pin_Channel = ''email'', pin_Body = ''hi''\<rparr>,
     CallCreateTemplate \<lparr>pin_ID = ''o'', pin_TenantID = ''a:b'', pin_Name = ''x'', pin_Channel = ''email'', pin_Body = ''hi''\<rparr>]
     (mvp_NewService steady_clock counted_ids)"

definition one_accepted :: mvp_service where
  "one_accepted = snd (mvp_CreateNotification (asks_for ''a'' ''m'' ''b:k'') two_tenants)"

lemma fold_later: "mvp_later s (fold after cs s)"
proof (induction cs arbitrary: s)
  case (Cons c cs)
  have "mvp_later s (after c s)" by (rule mvp_later.call [OF mvp_later.now])
  with Cons [of "after c s"] show ?case by (simp add: mvp_later_trans)
qed (simp add: mvp_later.now)

lemma sources_ok: "inj counted_ids" "mono steady_clock" "0 \<le> steady_clock 0"
  by (auto simp: inj_def counted_ids_def mono_def steady_clock_def dest: arg_cong [of _ _ length])

lemma samples_reachable: "mvp_reachable steady_clock counted_ids two_tenants" "mvp_reachable steady_clock counted_ids one_accepted"
proof -
  show r: "mvp_reachable steady_clock counted_ids two_tenants" unfolding two_tenants_def by (rule fold_later)
  show "mvp_reachable steady_clock counted_ids one_accepted"
    using mvp_later.call [OF r, of "CallCreateNotification (asks_for ''a'' ''m'' ''b:k'')"] by (simp add: one_accepted_def)
qed

theorem mvp_quota_kept_witness:
  "submitted_on ''a'' ''0001-01-01'' one_accepted = 1
   \<and> submitted_on ''a'' ''0001-01-01'' one_accepted \<le> 1
   \<and> fst (mvp_CreateNotification (asks_for ''a'' ''m'' ''other'') one_accepted) = Inl errDailyQuotaExceeded"
proof -
  have t: "map_option mtn_DailyQuota (map_of (svc_tenants one_accepted) ''a'') = Some 1" by code_simp
  then obtain tenant where "map_of (svc_tenants one_accepted) ''a'' = Some tenant" "mtn_DailyQuota tenant = 1" by blast
  with mvp_quota_kept [OF samples_reachable(2) sources_ok this(1), of "''0001-01-01''"]
  have "submitted_on ''a'' ''0001-01-01'' one_accepted \<le> 1" by simp
  moreover have "submitted_on ''a'' ''0001-01-01'' one_accepted = 1" by code_simp
  moreover have "fst (mvp_CreateNotification (asks_for ''a'' ''m'' ''other'') one_accepted) = Inl errDailyQuotaExceeded"
    by code_simp
  ultimately show ?thesis by blast
qed

theorem mvp_idempotent_witness:
  "\<exists>n. mvp_CreateNotification (asks_for ''a'' ''m'' ''b:k'') (snd (mvp_ReplayNotification [] one_accepted))
     = (Inr (n, True), snd (mvp_ReplayNotification [] one_accepted)) \<and> mnt_ID n = []"
proof -
  have "map_sum id (\<lambda>(n, dup). (mnt_ID n, dup)) (fst (mvp_CreateNotification (asks_for ''a'' ''m'' ''b:k'') two_tenants))
      = Inr ([], False)" by code_simp
  then obtain n where "mvp_CreateNotification (asks_for ''a'' ''m'' ''b:k'') two_tenants = (Inr (n, False), one_accepted)" "mnt_ID n = []"
    unfolding one_accepted_def by (cases "mvp_CreateNotification (asks_for ''a'' ''m'' ''b:k'') two_tenants"; cases "fst (mvp_CreateNotification (asks_for ''a'' ''m'' ''b:k'') two_tenants)") auto
  moreover have "mvp_later one_accepted (snd (mvp_ReplayNotification [] one_accepted))"
    using mvp_later.call [OF mvp_later.now, of _ "CallReplay []"] by simp
  ultimately show ?thesis using mvp_idempotent [OF samples_reachable(1) sources_ok] by metis
qed

text \<open>The other tenant submits with a key of its own and is given the notification of the first.\<close>

theorem mvp_duplicate_owner_witness:
  "\<exists>n. mvp_CreateNotification (asks_for ''a:b'' ''o'' ''k'') one_accepted = (Inr (n, True), one_accepted)
     \<and> mnt_TenantID n = ''a'' \<and> map_of (svc_notifications one_accepted) (mnt_ID n) = Some n"
proof -
  have c: "map_sum id (\<lambda>(n, dup). (mnt_TenantID n, dup)) (fst (mvp_CreateNotification (asks_for ''a:b'' ''o'' ''k'') one_accepted))
      = Inr (''a'', True)" by code_simp
  then obtain n s' where n: "mvp_CreateNotification (asks_for ''a:b'' ''o'' ''k'') one_accepted = (Inr (n, True), s')" "mnt_TenantID n = ''a''"
    by (cases "mvp_CreateNotification (asks_for ''a:b'' ''o'' ''k'') one_accepted"; cases "fst (mvp_CreateNotification (asks_for ''a:b'' ''o'' ''k'') one_accepted)") auto
  with mvp_duplicate_owner [OF samples_reachable(2) sources_ok n(1)] show ?thesis by blast
qed

end
