(* ===== verification/Notify_Document.thy ===== *)
theory Notify_Document
  imports Store_Model
begin

text \<open>
  The document of the API that the in-memory server serves (\<^verbatim>\<open>internal/notify/openapi.go\<close>), as the JSON value
  it is encoded to, and what such a document says: its operations, the schemas of their answers, and when a
  value conforms to a schema.
\<close>

subsection \<open>The parts that repeat\<close>

definition json_strings :: "string list \<Rightarrow> json" where
  "json_strings xs = JArray (map JString xs)"

definition typed :: "string \<Rightarrow> json" where
  "typed t = JObject [(''type'', JString t)]"

definition json_content :: "string \<Rightarrow> json" where
  "json_content schemaRef =
     JObject [(''application/json'', JObject [(''schema'', JObject [(''$ref'', JString schemaRef)])])]"

definition requestJSONBody :: "string \<Rightarrow> json" where
  "requestJSONBody schemaRef = JObject [(''required'', JBool True), (''content'', json_content schemaRef)]"

definition responseRef :: "string \<Rightarrow> string \<Rightarrow> json" where
  "responseRef description schemaRef =
     JObject [(''description'', JString description), (''content'', json_content schemaRef)]"

definition pathParameter :: "string \<Rightarrow> string \<Rightarrow> json" where
  "pathParameter name description = JObject [(''name'', JString name), (''in'', JString ''path''),
     (''required'', JBool True), (''description'', JString description), (''schema'', typed ''string'')]"

subsection \<open>Paths\<close>

definition tenant_paths :: "(string \<times> json) list" where
  "tenant_paths = [
     (''/v1/health'', JObject [
       (''get'', JObject [
         (''summary'', JString ''Health check''),
         (''operationId'', JString ''getHealth''),
         (''responses'', JObject [
           (''200'', responseRef ''Service health'' ''#/components/schemas/StatusResponse'')])])]),
     (''/v1/readiness'', JObject [
       (''get'', JObject [
         (''summary'', JString ''Readiness check''),
         (''operationId'', JString ''getReadiness''),
         (''responses'', JObject [
           (''200'', responseRef ''Service readiness'' ''#/components/schemas/StatusResponse'')])])]),
     (''/v1/tenants'', JObject [
       (''post'', JObject [
         (''summary'', JString ''Create tenant''),
         (''operationId'', JString ''createTenant''),
         (''requestBody'', requestJSONBody ''#/components/schemas/CreateTenantInput''),
         (''responses'', JObject [
           (''201'', responseRef ''Tenant created'' ''#/components/schemas/Tenant''),
           (''409'', responseRef ''Tenant already exists'' ''#/components/schemas/ErrorResponse'')])])]),
     (''/v1/tenants/{tenantId}'', JObject [
       (''get'', JObject [
         (''summary'', JString ''Get tenant''),
         (''operationId'', JString ''getTenant''),
         (''parameters'', JArray [pathParameter ''tenantId'' ''Tenant identifier'']),
         (''responses'', JObject [
           (''200'', responseRef ''Tenant record'' ''#/components/schemas/Tenant''),
           (''404'', responseRef ''Tenant not found'' ''#/components/schemas/ErrorResponse'')])])]),
     (''/v1/tenants/{tenantId}/usage'', JObject [
       (''get'', JObject [
         (''summary'', JString ''Get tenant usage''),
         (''operationId'', JString ''getTenantUsage''),
         (''parameters'', JArray [pathParameter ''tenantId'' ''Tenant identifier'']),
         (''responses'', JObject [
           (''200'', responseRef ''Tenant usage snapshot'' ''#/components/schemas/Usage''),
           (''404'', responseRef ''Tenant not found'' ''#/components/schemas/ErrorResponse'')])])])]"

definition message_paths :: "(string \<times> json) list" where
  "message_paths = [
     (''/v1/templates'', JObject [
       (''post'', JObject [
         (''summary'', JString ''Create template''),
         (''operationId'', JString ''createTemplate''),
         (''requestBody'', requestJSONBody ''#/components/schemas/CreateTemplateInput''),
         (''responses'', JObject [
           (''201'', responseRef ''Template created'' ''#/components/schemas/Template''),
           (''404'', responseRef ''Tenant not found'' ''#/components/schemas/ErrorResponse''),
           (''409'', responseRef ''Template already exists'' ''#/components/schemas/ErrorResponse'')])])]),
     (''/v1/templates/{templateId}'', JObject [
       (''get'', JObject [
         (''summary'', JString ''Get template''),
         (''operationId'', JString ''getTemplate''),
         (''parameters'', JArray [pathParameter ''templateId'' ''Template identifier'']),
         (''responses'', JObject [
           (''200'', responseRef ''Template record'' ''#/components/schemas/Template''),
           (''404'', responseRef ''Template not found'' ''#/components/schemas/ErrorResponse'')])]),
       (''put'', JObject [
         (''summary'', JString ''Update template''),
         (''operationId'', JString ''updateTemplate''),
         (''parameters'', JArray [pathParameter ''templateId'' ''Template identifier'']),
         (''requestBody'', requestJSONBody ''#/components/schemas/UpdateTemplateInput''),
         (''responses'', JObject [
           (''200'', responseRef ''Updated template'' ''#/components/schemas/Template''),
           (''404'', responseRef ''Template not found'' ''#/components/schemas/ErrorResponse'')])])]),
     (''/v1/notifications'', JObject [
       (''post'', JObject [
         (''summary'', JString ''Submit notification''),
         (''operationId'', JString ''createNotification''),
         (''requestBody'', requestJSONBody ''#/components/schemas/CreateNotificationInput''),
         (''responses'', JObject [
           (''200'', responseRef ''Existing notification returned for duplicate idempotency key'' ''#/components/schemas/Notification''),
           (''202'', responseRef ''Notification accepted'' ''#/components/schemas/Notification''),
           (''404'', responseRef ''Tenant or template not found'' ''#/components/schemas/ErrorResponse''),
           (''429'', responseRef ''Tenant quota exceeded'' ''#/components/schemas/ErrorResponse'')])])]),
     (''/v1/notifications/{notificationId}'', JObject [
       (''get'', JObject [
         (''summary'', JString ''Get notification''),
         (''operationId'', JString ''getNotification''),
         (''parameters'', JArray [pathParameter ''notificationId'' ''Notification identifier'']),
         (''responses'', JObject [
           (''200'', responseRef ''Notification record'' ''#/components/schemas/Notification''),
           (''404'', responseRef ''Notification not found'' ''#/components/schemas/ErrorResponse'')])])]),
     (''/v1/notifications/{notificationId}/replay'', JObject [
       (''post'', JObject [
         (''summary'', JString ''Replay notification''),
         (''operationId'', JString ''replayNotification''),
         (''parameters'', JArray [pathParameter ''notificationId'' ''Notification identifier'']),
         (''responses'', JObject [
           (''200'', responseRef ''Notification replayed'' ''#/components/schemas/Notification''),
           (''404'', responseRef ''Notification not found'' ''#/components/schemas/ErrorResponse'')])])]),
     (''/v1/dead-letters'', JObject [
       (''get'', JObject [
         (''summary'', JString ''List dead letters''),
         (''operationId'', JString ''listDeadLetters''),
         (''responses'', JObject [
           (''200'', JObject [
             (''description'', JString ''Dead-letter records''),
             (''content'', JObject [
               (''application/json'', JObject [
                 (''schema'', JObject [
                   (''type'', JString ''array''),
                   (''items'', JObject [(''$ref'', JString ''#/components/schemas/DeadLetter'')])])])])])])])])]"

subsection \<open>Schemas of the document\<close>

definition record_schemas :: "(string \<times> json) list" where
  "record_schemas = [
     (''StatusResponse'', JObject [
       (''type'', JString ''object''),
       (''properties'', JObject [(''status'', typed ''string'')]),
       (''required'', json_strings [''status''])]),
     (''ErrorResponse'', JObject [
       (''type'', JString ''object''),
       (''properties'', JObject [(''error'', typed ''string'')]),
       (''required'', json_strings [''error''])]),
     (''Tenant'', JObject [
       (''type'', JString ''object''),
       (''properties'', JObject [
         (''id'', typed ''string''),
         (''name'', typed ''string''),
         (''status'', typed ''string''),
         (''daily_quota'', typed ''integer''),
         (''created_at'', JObject [(''type'', JString ''string''), (''format'', JString ''date-time'')])]),
       (''required'', json_strings [''id'', ''name'', ''status'', ''daily_quota'', ''created_at''])]),
     (''CreateTenantInput'', JObject [
       (''type'', JString ''object''),
       (''properties'', JObject [
         (''id'', typed ''string''),
         (''name'', typed ''string''),
         (''daily_quota'', JObject [(''type'', JString ''integer''), (''minimum'', JNumber 1)])]),
       (''required'', json_strings [''id'', ''name'', ''daily_quota''])]),
     (''Template'', JObject [
       (''type'', JString ''object''),
       (''properties'', JObject [
         (''id'', typed ''string''),
         (''tenant_id'', typed ''string''),
         (''name'', typed ''string''),
         (''channel'', JObject [
           (''type'', JString ''string''),
           (''enum'', json_strings [''email'', ''webhook''])]),
         (''version'', typed ''integer''),
         (''body'', typed ''string''),
         (''created_at'', JObject [(''type'', JString ''string''), (''format'', JString ''date-time'')])]),
       (''required'', json_strings [''id'', ''tenant_id'', ''name'', ''channel'', ''version'', ''body'',
           ''created_at''])]),
     (''CreateTemplateInput'', JObject [
       (''type'', JString ''object''),
       (''properties'', JObject [
         (''id'', typed ''string''),
         (''tenant_id'', typed ''string''),
         (''name'', typed ''string''),
         (''channel'', JObject [
           (''type'', JString ''string''),
           (''enum'', json_strings [''email'', ''webhook''])]),
         (''body'', typed ''string'')]),
       (''required'', json_strings [''id'', ''tenant_id'', ''name'', ''channel'', ''body''])]),
     (''UpdateTemplateInput'', JObject [
       (''type'', JString ''object''),
       (''properties'', JObject [(''name'', typed ''string''), (''body'', typed ''string'')]),
       (''required'', json_strings [''name'', ''body''])])]"

definition message_schemas :: "(string \<times> json) list" where
  "message_schemas = [
     (''DeliveryAttempt'', JObject [
       (''type'', JString ''object''),
       (''properties'', JObject [
         (''id'', typed ''string''),
         (''notification_id'', typed ''string''),
         (''channel'', JObject [
           (''type'', JString ''string''),
           (''enum'', json_strings [''email'', ''webhook''])]),
         (''attempt_number'', typed ''integer''),
         (''status'', typed ''string''),
         (''error_code'', JObject [(''type'', JString ''string''), (''nullable'', JBool True)]),
         (''next_retry_at'', JObject [
           (''type'', JString ''string''),
           (''format'', JString ''date-time''),
           (''nullable'', JBool True)]),
         (''completed_at'', JObject [
           (''type'', JString ''string''),
           (''format'', JString ''date-time''),
           (''nullable'', JBool True)])]),
       (''required'', json_strings [''id'', ''notification_id'', ''channel'', ''attempt_number'', ''status''])]),
     (''Notification'', JObject [
       (''type'', JString ''object''),
       (''properties'', JObject [
         (''id'', typed ''string''),
         (''tenant_id'', typed ''string''),
         (''template_id'', typed ''string''),
         (''channels'', JObject [
           (''type'', JString ''array''),
           (''items'', JObject [
             (''type'', JString ''string''),
             (''enum'', json_strings [''email'', ''webhook''])])]),
         (''recipient'', JObject [(''type'', JString ''object''), (''additionalProperties'', JObject [])]),
         (''variables'', JObject [(''type'', JString ''object''), (''additionalProperties'', JObject [])]),
         (''idempotency_key'', typed ''string''),
         (''status'', typed ''string''),
         (''submitted_at'', JObject [(''type'', JString ''string''), (''format'', JString ''date-time'')]),
         (''attempts'', JObject [
           (''type'', JString ''array''),
           (''items'', JObject [(''$ref'', JString ''#/components/schemas/DeliveryAttempt'')])])]),
       (''required'', json_strings [''id'', ''tenant_id'', ''template_id'', ''channels'', ''recipient'',
           ''variables'', ''idempotency_key'', ''status'', ''submitted_at'', ''attempts''])]),
     (''CreateNotificationInput'', JObject [
       (''type'', JString ''object''),
       (''properties'', JObject [
         (''tenant_id'', typed ''string''),
         (''template_id'', typed ''string''),
         (''channels'', JObject [
           (''type'', JString ''array''),
           (''items'', JObject [
             (''type'', JString ''string''),
             (''enum'', json_strings [''email'', ''webhook''])]),
           (''minItems'', JNumber 1)]),
         (''recipient'', JObject [(''type'', JString ''object''), (''additionalProperties'', JObject [])]),
         (''variables'', JObject [(''type'', JString ''object''), (''additionalProperties'', JObject [])]),
         (''idempotency_key'', typed ''string'')]),
       (''required'', json_strings [''tenant_id'', ''template_id'', ''channels'', ''recipient'',
           ''idempotency_key''])]),
     (''Usage'', JObject [
       (''type'', JString ''object''),
       (''properties'', JObject [
         (''tenant_id'', typed ''string''),
         (''date'', JObject [(''type'', JString ''string''), (''format'', JString ''date'')]),
         (''accepted_notifications'', typed ''integer''),
         (''daily_quota'', typed ''integer''),
         (''remaining_quota'', typed ''integer'')]),
       (''required'', json_strings [''tenant_id'', ''date'', ''accepted_notifications'', ''daily_quota'',
           ''remaining_quota''])]),
     (''DeadLetter'', JObject [
       (''type'', JString ''object''),
       (''properties'', JObject [
         (''id'', typed ''string''),
         (''notification_id'', typed ''string''),
         (''channel'', JObject [
           (''type'', JString ''string''),
           (''enum'', json_strings [''email'', ''webhook''])]),
         (''final_error'', typed ''string''),
         (''dead_lettered_at'', JObject [(''type'', JString ''string''), (''format'', JString ''date-time'')])]),
       (''required'', json_strings [''id'', ''notification_id'', ''channel'', ''final_error'',
           ''dead_lettered_at''])])]"

subsection \<open>The document\<close>

definition openAPISpec :: json where
  "openAPISpec = JObject [(''openapi'', JString ''3.0.3''),
     (''info'', JObject [
       (''title'', JString ''Notification Service API''),
       (''version'', JString ''0.1.0''),
       (''description'', JString ''MVP REST API for the multi-tenant notification platform.'')]),
     (''servers'', JArray [JObject [(''url'', JString ''/'')]]),
     (''paths'', JObject (tenant_paths @ message_paths)),
     (''components'', JObject [(''schemas'', JObject (record_schemas @ message_schemas))])]"

subsection \<open>Reading a document\<close>

fun json_member :: "string \<Rightarrow> json \<Rightarrow> json option" where
  "json_member k (JObject ms) = map_of ms k"
| "json_member k v = None"

fun json_at :: "string list \<Rightarrow> json \<Rightarrow> json option" where
  "json_at [] v = Some v"
| "json_at (k # ks) v = (case json_member k v of None \<Rightarrow> None | Some v \<Rightarrow> json_at ks v)"

fun json_members :: "json option \<Rightarrow> (string \<times> json) list" where
  "json_members (Some (JObject ms)) = ms"
| "json_members v = []"

fun json_items :: "json option \<Rightarrow> json list" where
  "json_items (Some (JArray xs)) = xs"
| "json_items v = []"

text \<open>The operations: a method, in lower case, and a template of paths.\<close>

definition operations :: "json \<Rightarrow> (string \<times> string) list" where
  "operations doc = concat (map (\<lambda>(template, item). map (\<lambda>(verb, op). (verb, template)) (json_members (Some item)))
     (json_members (json_member ''paths'' doc)))"

text \<open>The schema of the answers of an operation that have a status.\<close>

definition documented :: "json \<Rightarrow> string \<Rightarrow> string \<Rightarrow> string \<Rightarrow> json option" where
  "documented doc verb template status =
     json_at [''paths'', template, verb, ''responses'', status, ''content'', ''application/json'', ''schema''] doc"

subsection \<open>Schemas\<close>

text \<open>
  The part of the schema language that the document uses; a \<open>format\<close> is an annotation, and properties that a schema
  does not name are allowed.  References make the recursion one on fuel: a unit for each level of a value.
\<close>

definition schema_prefix :: string where
  "schema_prefix = ''#/components/schemas/''"

definition resolved_schema :: "json \<Rightarrow> json \<Rightarrow> json option" where
  "resolved_schema doc s = (case json_member ''$ref'' s of
     Some (JString r) \<Rightarrow> if has_prefix r schema_prefix
       then json_at [''components'', ''schemas'', trim_prefix r schema_prefix] doc else None
   | _ \<Rightarrow> Some s)"

fun of_type :: "string \<Rightarrow> json \<Rightarrow> bool" where
  "of_type t (JString _) = (t = ''string'')"
| "of_type t (JNumber _) = (t = ''integer'')"
| "of_type t (JBool _) = (t = ''boolean'')"
| "of_type t (JArray _) = (t = ''array'')"
| "of_type t (JObject _) = (t = ''object'')"
| "of_type t JNull = False"

definition type_allows :: "json \<Rightarrow> json \<Rightarrow> bool" where
  "type_allows s v = (case json_member ''type'' s of Some (JString t) \<Rightarrow> of_type t v | _ \<Rightarrow> True)"

definition enum_allows :: "json \<Rightarrow> json \<Rightarrow> bool" where
  "enum_allows s v = (case json_member ''enum'' s of Some (JArray xs) \<Rightarrow> v \<in> set xs | _ \<Rightarrow> True)"

definition bounds_allow :: "json \<Rightarrow> json \<Rightarrow> bool" where
  "bounds_allow s v =
     ((case (json_member ''minimum'' s, v) of (Some (JNumber m), JNumber n) \<Rightarrow> m \<le> n | _ \<Rightarrow> True)
      \<and> (case (json_member ''minItems'' s, v) of (Some (JNumber m), JArray xs) \<Rightarrow> m \<le> int (length xs) | _ \<Rightarrow> True))"

definition has_required :: "json \<Rightarrow> (string \<times> json) list \<Rightarrow> bool" where
  "has_required s ms = list_all (\<lambda>k. case k of JString k \<Rightarrow> map_of ms k \<noteq> None | _ \<Rightarrow> False) (json_items (json_member ''required'' s))"

definition nullable :: "json \<Rightarrow> bool" where
  "nullable s = (json_member ''nullable'' s = Some (JBool True))"

fun conforms :: "nat \<Rightarrow> json \<Rightarrow> json \<Rightarrow> json \<Rightarrow> bool" where
  "conforms 0 doc s v = False"
| "conforms (Suc n) doc s v = (case resolved_schema doc s of
     None \<Rightarrow> False
   | Some s \<Rightarrow> v = JNull \<and> nullable s
       \<or> type_allows s v \<and> enum_allows s v \<and> bounds_allow s v
         \<and> (case v of
              JObject ms \<Rightarrow> has_required s ms
                \<and> list_all (\<lambda>(k, x). case map_of (json_members (json_member ''properties'' s)) k of
                    None \<Rightarrow> True | Some p \<Rightarrow> conforms n doc p x) ms
            | JArray xs \<Rightarrow> (case json_member ''items'' s of None \<Rightarrow> True | Some p \<Rightarrow> list_all (conforms n doc p) xs)
            | _ \<Rightarrow> True))"

end
