(* ===== verification/Notify_Http.thy ===== *)
theory Notify_Http
  imports Notify_Outcome Notify_Document
begin

text \<open>
  The HTTP server around the in-memory service (\<^verbatim>\<open>internal/notify/http.go\<close>).  The mux, which chooses among the
  patterns, and the JSON decoder are parameters; the Swagger page is a value without content.
\<close>

subsection \<open>Responses\<close>

datatype mvp_body =
    MvpError string
  | MvpStatus string
  | MvpTenant mvp_tenant
  | MvpTemplate mvp_template
  | MvpNotification mvp_notification
  | MvpUsage mvp_usage
  | MvpDeadLetters "mvp_dead_letter list"
  | OpenAPIDocument json
  | SwaggerPage
  | RedirectTo string
  | NotFoundPage

record mvp_response =
  mrs_Status :: int
  mrs_Body :: mvp_body

definition mvp_writeJSON :: "int \<Rightarrow> mvp_body \<Rightarrow> (mvp_service, mvp_response) sm" where
  "mvp_writeJSON status value = return \<lparr>mrs_Status = status, mrs_Body = value\<rparr>"

definition mvp_writeError :: "int \<Rightarrow> string \<Rightarrow> (mvp_service, mvp_response) sm" where
  "mvp_writeError status message = mvp_writeJSON status (MvpError message)"

text \<open>\<^verbatim>\<open>err.Error()\<close> of the errors of the service.\<close>

definition err_message :: "err \<Rightarrow> string" where
  "err_message e = (case e of ErrText m \<Rightarrow> m | _ \<Rightarrow> [])"

text \<open>What \<^verbatim>\<open>decodeJSON\<close> gives: the text of an error, or the input.\<close>

type_synonym 'a mvp_decoded = "string + 'a"

definition mvp_decoding :: "'a mvp_decoded \<Rightarrow> ('a \<Rightarrow> (mvp_service, mvp_response) sm) \<Rightarrow> (mvp_service, mvp_response) sm" where
  "mvp_decoding b k = (case b of Inl text \<Rightarrow> mvp_writeError 400 text | Inr input \<Rightarrow> k input)"

definition has_suffix :: "string \<Rightarrow> string \<Rightarrow> bool" where
  "has_suffix s p = has_prefix (rev s) (rev p)"

definition trim_suffix :: "string \<Rightarrow> string \<Rightarrow> string" where
  "trim_suffix s p = rev (trim_prefix (rev s) (rev p))"

subsection \<open>Handlers\<close>

definition notFound_answer :: "err \<Rightarrow> (mvp_service, mvp_response) sm" where
  "notFound_answer e = mvp_writeError 404 (err_message e)"

definition handleCreateTenant :: "tenant_input mvp_decoded \<Rightarrow> (mvp_service, mvp_response) sm" where
  "handleCreateTenant b = mvp_decoding b (\<lambda>input.
     if tin_ID input = [] \<or> tin_Name input = [] \<or> tin_DailyQuota input \<le> 0
     then mvp_writeError 400 ''id, name, and positive daily_quota are required''
     else handle (mvp_CreateTenant input)
       (\<lambda>e. mvp_writeError (if e = errTenantExists then 409 else 500) (err_message e))
       (\<lambda>tenant. mvp_writeJSON 201 (MvpTenant tenant)))"

definition handleGetTenant :: "string \<Rightarrow> (mvp_service, mvp_response) sm" where
  "handleGetTenant i = handle (mvp_GetTenant i) notFound_answer (\<lambda>tenant. mvp_writeJSON 200 (MvpTenant tenant))"

definition handleUsage :: "string \<Rightarrow> (mvp_service, mvp_response) sm" where
  "handleUsage i = handle (mvp_Usage i) notFound_answer (\<lambda>usage. mvp_writeJSON 200 (MvpUsage usage))"

definition handleTenantRoutes :: "string \<Rightarrow> (mvp_service, mvp_response) sm" where
  "handleTenantRoutes path = (let path = trim_prefix path ''/v1/tenants/'' in
     if path = [] then mvp_writeJSON 404 NotFoundPage
     else if has_suffix path ''/usage'' then handleUsage (trim_suffix (trim_suffix path ''/usage'') ''/'')
     else handleGetTenant path)"

definition handleCreateTemplate :: "template_input mvp_decoded \<Rightarrow> (mvp_service, mvp_response) sm" where
  "handleCreateTemplate b = mvp_decoding b (\<lambda>input.
     if pin_ID input = [] \<or> pin_TenantID input = [] \<or> pin_Name input = [] \<or> pin_Channel input = [] \<or> pin_Body input = []
     then mvp_writeError 400 ''id, tenant_id, name, channel, and body are required''
     else handle (mvp_CreateTemplate input)
       (\<lambda>e. mvp_writeError (if e = errTenantNotFound then 404 else if e = errTemplateExists then 409 else 500) (err_message e))
       (\<lambda>template. mvp_writeJSON 201 (MvpTemplate template)))"

definition handleGetTemplate :: "string \<Rightarrow> (mvp_service, mvp_response) sm" where
  "handleGetTemplate path = handle (mvp_GetTemplate (trim_prefix path ''/v1/templates/'')) notFound_answer
     (\<lambda>template. mvp_writeJSON 200 (MvpTemplate template))"

definition handleUpdateTemplate :: "string \<Rightarrow> update_input mvp_decoded \<Rightarrow> (mvp_service, mvp_response) sm" where
  "handleUpdateTemplate path b = mvp_decoding b (\<lambda>input.
     if uin_Name input = [] \<or> uin_Body input = [] then mvp_writeError 400 ''name and body are required''
     else handle (mvp_UpdateTemplate (trim_prefix path ''/v1/templates/'') input) notFound_answer
       (\<lambda>template. mvp_writeJSON 200 (MvpTemplate template)))"

definition handleCreateNotification :: "notification_input mvp_decoded \<Rightarrow> (mvp_service, mvp_response) sm" where
  "handleCreateNotification b = mvp_decoding b (\<lambda>input.
     if nin_TenantID input = [] \<or> nin_TemplateID input = [] \<or> nin_IdempotencyKey input = []
        \<or> nin_Channels input = [] \<or> cloneMap (nin_Recipient input) = []
     then mvp_writeError 400 ''tenant_id, template_id, channels, recipient, and idempotency_key are required''
     else handle (mvp_CreateNotification input)
       (\<lambda>e. mvp_writeError (if e = errTenantNotFound \<or> e = errTemplateNotFound then 404
            else if e = errDailyQuotaExceeded then 429 else 500) (err_message e))
       (\<lambda>(n, duplicate). mvp_writeJSON (if duplicate then 200 else 202) (MvpNotification n)))"

definition handleGetNotification :: "string \<Rightarrow> (mvp_service, mvp_response) sm" where
  "handleGetNotification i = handle (mvp_GetNotification i) notFound_answer (\<lambda>n. mvp_writeJSON 200 (MvpNotification n))"

definition handleReplayNotification :: "string \<Rightarrow> (mvp_service, mvp_response) sm" where
  "handleReplayNotification i = handle (mvp_ReplayNotification i) notFound_answer (\<lambda>n. mvp_writeJSON 200 (MvpNotification n))"

definition handleNotificationRoutes :: "string \<Rightarrow> (mvp_service, mvp_response) sm" where
  "handleNotificationRoutes path = (let path = trim_prefix path ''/v1/notifications/'' in
     if path = [] then mvp_writeJSON 404 NotFoundPage
     else if has_suffix path ''/replay'' then handleReplayNotification (trim_suffix (trim_suffix path ''/replay'') ''/'')
     else handleGetNotification path)"

definition handleDeadLetters :: "(mvp_service, mvp_response) sm" where
  "handleDeadLetters = andThen mvp_DeadLetters (\<lambda>ls. mvp_writeJSON 200 (MvpDeadLetters ls))"

subsection \<open>Routes\<close>

record mvp_decoders =
  mde_tenant :: "string \<Rightarrow> tenant_input mvp_decoded"
  mde_template :: "string \<Rightarrow> template_input mvp_decoded"
  mde_update :: "string \<Rightarrow> update_input mvp_decoded"
  mde_notification :: "string \<Rightarrow> notification_input mvp_decoded"

definition mvp_routes :: "mvp_decoders \<Rightarrow> string \<Rightarrow> string \<Rightarrow> (string \<times> (mvp_service, mvp_response) sm) list" where
  "mvp_routes dec path b = [
     (''GET /'', mvp_writeJSON 307 (RedirectTo ''/swagger'')),
     (''GET /swagger'', mvp_writeJSON 200 SwaggerPage),
     (''GET /openapi.json'', mvp_writeJSON 200 (OpenAPIDocument openAPISpec)),
     (''GET /v1/health'', mvp_writeJSON 200 (MvpStatus ''ok'')),
     (''GET /v1/readiness'', mvp_writeJSON 200 (MvpStatus ''ready'')),
     (''POST /v1/tenants'', handleCreateTenant (mde_tenant dec b)),
     (''GET /v1/tenants/'', handleTenantRoutes path),
     (''POST /v1/templates'', handleCreateTemplate (mde_template dec b)),
     (''GET /v1/templates/'', handleGetTemplate path),
     (''PUT /v1/templates/'', handleUpdateTemplate path (mde_update dec b)),
     (''POST /v1/notifications'', handleCreateNotification (mde_notification dec b)),
     (''GET /v1/notifications/'', handleNotificationRoutes path),
     (''POST /v1/notifications/'', handleNotificationRoutes path),
     (''GET /v1/dead-letters'', handleDeadLetters)]"

text \<open>The mux gives the pattern that serves a method and a path, or the answer it gives itself.\<close>

definition mvp_serve ::
    "(string list \<Rightarrow> string \<Rightarrow> string \<Rightarrow> mvp_response + string) \<Rightarrow> mvp_decoders \<Rightarrow> string \<Rightarrow> string \<Rightarrow> string \<Rightarrow>
     (mvp_service, mvp_response) sm" where
  "mvp_serve mux dec verb path b = (let routes = mvp_routes dec path b in
     case mux (map fst routes) verb path of
       Inl answer \<Rightarrow> return answer
     | Inr pattern \<Rightarrow> (case map_of routes pattern of
         None \<Rightarrow> mvp_writeJSON 404 NotFoundPage | Some handler \<Rightarrow> handler))"

subsection \<open>What the status says\<close>

lemma path_examples:
  "has_suffix ''acme/usage'' ''/usage''" "trim_suffix ''acme/usage'' ''/usage'' = ''acme''"
  "trim_suffix ''acme'' ''/'' = ''acme''"
  by code_simp+

lemma refusals: "mvp_CreateNotification input s = (Inl e, s') \<Longrightarrow> e \<in> {errTenantNotFound, errTemplateNotFound, errDailyQuotaExceeded}"
proof (cases rule: CreateNotification_cases [of input s])
  case (refused e' s1)
  assume "mvp_CreateNotification input s = (Inl e, s')"
  moreover obtain n s2 where "mvp_accept input (s\<lparr>svc_nows := Suc (svc_nows s)\<rparr>) = (Inr (n, False), s2)"
    using mvp_accept_eq by blast
  ultimately show ?thesis
    by (auto simp: mvp_CreateNotification_def mvp_run split: option.splits if_splits)
qed auto

text \<open>
  The status of a submission to the in-memory server tells what was stored: on 202 exactly one notification,
  that of the answer, with the tenant and the key of the request, was added; on 200 the answer is one that was
  stored before; on 400, 404 and 429 and on 200 nothing was added; there is no other status.
\<close>

theorem mvp_status_truth:
  assumes "mvp_reachable clock idgen s" "inj idgen" "mono clock" "0 \<le> clock 0"
    "handleCreateNotification b s = (Inr r, s')"
  shows "case mrs_Body r of
      MvpNotification n \<Rightarrow>
        mrs_Status r = 202 \<and> (\<exists>input. b = Inr input \<and> mnt_TenantID n = nin_TenantID input \<and> mnt_IdempotencyKey n = nin_IdempotencyKey input)
          \<and> ledger s' = ledger s @ [(mnt_ID n, mnt_ID n, mnt_TenantID n, mnt_IdempotencyKey n, mnt_SubmittedAt n)]
        \<or> mrs_Status r = 200 \<and> s' = s \<and> map_of (svc_notifications s) (mnt_ID n) = Some n
    | MvpError _ \<Rightarrow> mrs_Status r \<in> {400, 404, 429} \<and> ledger s' = ledger s
    | _ \<Rightarrow> False"
proof -
  note ok = ok_reachable [OF assms(1-4)]
  note defs = handleCreateNotification_def mvp_decoding_def mvp_writeError_def mvp_writeJSON_def
  consider (refused) "s' = s" "\<exists>m. r = \<lparr>mrs_Status = 400, mrs_Body = MvpError m\<rparr>"
    | (called) input where "b = Inr input" "handleCreateNotification b s = handle (mvp_CreateNotification input)
       (\<lambda>e. mvp_writeError (if e = errTenantNotFound \<or> e = errTemplateNotFound then 404
            else if e = errDailyQuotaExceeded then 429 else 500) (err_message e))
       (\<lambda>(n, duplicate). mvp_writeJSON (if duplicate then 200 else 202) (MvpNotification n)) s"
    using assms(5) by (cases b) (auto simp: defs return_def split: if_splits)
  then show ?thesis
  proof cases
    case (called input)
    show ?thesis
    proof (cases rule: CreateNotification_cases [of input s])
      case (refused e s1)
      with called assms(5) refusals [OF refused(1)] show ?thesis
        by (auto simp: handle_def defs return_def advances_def)
    next
      case (duplicate i)
      obtain m where "map_of (svc_notifications s) i = Some m" "mnt_ID m = i"
        using ok_indexed [OF ok(1) duplicate(1)] by blast
      with duplicate called assms(5) show ?thesis by (auto simp: handle_def defs return_def)
    next
      case (fresh n s1 tenant template)
      with accepted_ledger [OF ok fresh(2)] called assms(5) show ?thesis
        by (auto simp: handle_def defs return_def accepts_def)
    qed
  qed auto
qed

theorem mvp_status_truth_witness:
  "\<exists>r. handleCreateNotification (Inr (asks_for ''a'' ''m'' ''b:k'')) two_tenants = (Inr r, one_accepted) \<and> mrs_Status r = 202
     \<and> length (ledger one_accepted) = Suc (length (ledger two_tenants))"
proof -
  have c: "map_sum id mrs_Status (fst (handleCreateNotification (Inr (asks_for ''a'' ''m'' ''b:k'')) two_tenants)) = Inr 202"
    by code_simp
  have s: "snd (handleCreateNotification (Inr (asks_for ''a'' ''m'' ''b:k'')) two_tenants) = one_accepted"
    by (simp add: handleCreateNotification_def mvp_decoding_def asks_for_def cloneMap_def handle_def mvp_writeError_def
      mvp_writeJSON_def return_def one_accepted_def split: prod.split sum.split)
  obtain r where r: "handleCreateNotification (Inr (asks_for ''a'' ''m'' ''b:k'')) two_tenants = (Inr r, one_accepted)" "mrs_Status r = 202"
    using c s by (cases "handleCreateNotification (Inr (asks_for ''a'' ''m'' ''b:k'')) two_tenants";
      cases "fst (handleCreateNotification (Inr (asks_for ''a'' ''m'' ''b:k'')) two_tenants)") auto
  from mvp_status_truth [OF samples_reachable(1) sources_ok r(1)] r show ?thesis
    by (auto split: mvp_body.splits)
qed

end
