(* ===== verification/Notify_Conformance.thy ===== *)
theory Notify_Conformance
  imports Notify_Http
begin

text \<open>
  The in-memory server keeps its own document: every answer to a documented operation has the documented form,
  but for the two ways in which it has not.
\<close>

subsection \<open>What is encoded\<close>

text \<open>The values of \<^verbatim>\<open>encoding/json\<close> for the structs of the service, by their tags; a nil slice is \<open>null\<close>.\<close>

definition json_time :: "time \<Rightarrow> json" where
  "json_time t = JString (Format_RFC3339Nano t)"

definition json_pointer :: "('a \<Rightarrow> json) \<Rightarrow> 'a option \<Rightarrow> json" where
  "json_pointer f x = (case x of None \<Rightarrow> JNull | Some x \<Rightarrow> f x)"

definition json_tenant :: "mvp_tenant \<Rightarrow> json" where
  "json_tenant t = JObject [(''id'', JString (mtn_ID t)), (''name'', JString (mtn_Name t)),
     (''status'', JString (mtn_Status t)), (''daily_quota'', JNumber (mtn_DailyQuota t)),
     (''created_at'', json_time (mtn_CreatedAt t))]"

definition json_template :: "mvp_template \<Rightarrow> json" where
  "json_template t = JObject [(''id'', JString (mtp_ID t)), (''tenant_id'', JString (mtp_TenantID t)),
     (''name'', JString (mtp_Name t)), (''channel'', JString (mtp_Channel t)), (''version'', JNumber (mtp_Version t)),
     (''body'', JString (mtp_Body t)), (''created_at'', json_time (mtp_CreatedAt t))]"

definition json_attempt :: "mvp_attempt \<Rightarrow> json" where
  "json_attempt a = JObject [(''id'', JString (mat_ID a)), (''notification_id'', JString (mat_NotificationID a)),
     (''channel'', JString (mat_Channel a)), (''attempt_number'', JNumber (mat_AttemptNumber a)),
     (''status'', JString (mat_Status a)), (''error_code'', json_pointer JString (mat_ErrorCode a)),
     (''next_retry_at'', json_pointer json_time (mat_NextRetryAt a)),
     (''completed_at'', json_pointer json_time (mat_CompletedAt a))]"

definition json_notification :: "mvp_notification \<Rightarrow> json" where
  "json_notification n = JObject [(''id'', JString (mnt_ID n)), (''tenant_id'', JString (mnt_TenantID n)),
     (''template_id'', JString (mnt_TemplateID n)),
     (''channels'', if mnt_Channels n = [] then JNull else json_strings (mnt_Channels n)),
     (''recipient'', JObject (mnt_Recipient n)), (''variables'', JObject (mnt_Variables n)),
     (''idempotency_key'', JString (mnt_IdempotencyKey n)), (''status'', JString (mnt_Status n)),
     (''submitted_at'', json_time (mnt_SubmittedAt n)), (''attempts'', JArray (map json_attempt (mnt_Attempts n)))]"

definition json_dead_letter :: "mvp_dead_letter \<Rightarrow> json" where
  "json_dead_letter d = JObject [(''id'', JString (mdl_ID d)), (''notification_id'', JString (mdl_NotificationID d)),
     (''channel'', JString (mdl_Channel d)), (''final_error'', JString (mdl_FinalError d)),
     (''dead_lettered_at'', json_time (mdl_DeadLetteredAt d))]"

definition json_usage :: "mvp_usage \<Rightarrow> json" where
  "json_usage u = JObject [(''tenant_id'', JString (mus_TenantID u)), (''date'', JString (mus_Date u)),
     (''accepted_notifications'', JNumber (mus_AcceptedNotifications u)),
     (''daily_quota'', JNumber (mus_DailyQuota u)), (''remaining_quota'', JNumber (mus_RemainingQuota u))]"

text \<open>The pages and the redirection are not JSON.\<close>

fun json_body :: "mvp_body \<Rightarrow> json option" where
  "json_body (MvpError m) = Some (JObject [(''error'', JString m)])"
| "json_body (MvpStatus m) = Some (JObject [(''status'', JString m)])"
| "json_body (MvpTenant t) = Some (json_tenant t)"
| "json_body (MvpTemplate t) = Some (json_template t)"
| "json_body (MvpNotification n) = Some (json_notification n)"
| "json_body (MvpUsage u) = Some (json_usage u)"
| "json_body (MvpDeadLetters ds) = Some (JArray (map json_dead_letter ds))"
| "json_body (OpenAPIDocument doc) = Some doc"
| "json_body SwaggerPage = None"
| "json_body (RedirectTo url) = None"
| "json_body NotFoundPage = None"

fun body_channels :: "mvp_body \<Rightarrow> string list" where
  "body_channels (MvpTemplate t) = [mtp_Channel t]"
| "body_channels (MvpNotification n) = mnt_Channels n @ map mat_Channel (mnt_Attempts n)"
| "body_channels (MvpDeadLetters ds) = map mdl_Channel ds"
| "body_channels b = []"

definition known_channels :: "string list \<Rightarrow> bool" where
  "known_channels cs = list_all (\<lambda>c. c \<in> {''email'', ''webhook''}) cs"

subsection \<open>Bodies and schemas\<close>

definition reference :: "string \<Rightarrow> json" where
  "reference name = JObject [(''$ref'', JString (schema_prefix @ name))]"

lemma operations_are: "operations openAPISpec =
  [(''get'', ''/v1/health''), (''get'', ''/v1/readiness''), (''post'', ''/v1/tenants''),
   (''get'', ''/v1/tenants/{tenantId}''), (''get'', ''/v1/tenants/{tenantId}/usage''), (''post'', ''/v1/templates''),
   (''get'', ''/v1/templates/{templateId}''), (''put'', ''/v1/templates/{templateId}''), (''post'', ''/v1/notifications''),
   (''get'', ''/v1/notifications/{notificationId}''), (''post'', ''/v1/notifications/{notificationId}/replay''),
   (''get'', ''/v1/dead-letters'')]"
  by code_simp

lemma spec_schemas:
  "json_at [''components'', ''schemas'', name] openAPISpec = map_of (record_schemas @ message_schemas) name"
  by (simp add: openAPISpec_def map_add_def split: option.split)

lemma resolved_reference [simp]:
  "resolved_schema openAPISpec (reference name) = map_of (record_schemas @ message_schemas) name"
  by (simp add: resolved_schema_def reference_def spec_schemas schema_prefix_def has_prefix_def trim_prefix_def
      del: json_at.simps map_of_append)

lemma resolved_itself [simp]: "json_member ''$ref'' s = None \<Longrightarrow> resolved_schema doc s = Some s"
  by (simp add: resolved_schema_def)

lemmas schemas = record_schemas_def message_schemas_def
lemmas allows = type_allows_def enum_allows_def bounds_allow_def has_required_def nullable_def typed_def json_strings_def

text \<open>Four levels are enough for every body.\<close>

lemma plain_bodies_conform:
  "conforms (n + 4) openAPISpec (reference ''StatusResponse'') (JObject [(''status'', JString m)])"
  "conforms (n + 4) openAPISpec (reference ''ErrorResponse'') (JObject [(''error'', JString m)])"
  "conforms (n + 4) openAPISpec (reference ''Tenant'') (json_tenant t)"
  "conforms (n + 4) openAPISpec (reference ''Usage'') (json_usage u)"
  by (simp_all add: schemas allows json_tenant_def json_usage_def json_time_def numeral_eq_Suc)

lemma template_conforms:
  "conforms (n + 4) openAPISpec (reference ''Template'') (json_template t) \<longleftrightarrow> known_channels [mtp_Channel t]"
  by (simp add: schemas allows json_template_def json_time_def known_channels_def numeral_eq_Suc)

lemma attempt_conforms:
  "conforms (Suc (Suc n)) openAPISpec (reference ''DeliveryAttempt'') (json_attempt a) \<longleftrightarrow> known_channels [mat_Channel a]"
  by (simp add: schemas allows json_attempt_def json_time_def json_pointer_def known_channels_def split: option.split)

lemma attempt_reference: "JObject [(''$ref'', JString ''#/components/schemas/DeliveryAttempt'')] = reference ''DeliveryAttempt''"
  by (simp add: reference_def schema_prefix_def)

lemma known_channels_simps [simp]:
  "known_channels []" "known_channels (c # cs) \<longleftrightarrow> c \<in> {''email'', ''webhook''} \<and> known_channels cs"
  "known_channels (cs @ ds) \<longleftrightarrow> known_channels cs \<and> known_channels ds"
  by (simp_all add: known_channels_def)

lemma known_each: "list_all (\<lambda>x. known_channels [f x]) xs \<longleftrightarrow> known_channels (map f xs)"
  by (induction xs) auto

lemma channels_field:
  "list_all (conforms (Suc n) openAPISpec
     (JObject [(''type'', JString ''string''), (''enum'', JArray [JString ''email'', JString ''webhook''])])) (map JString cs)
   \<longleftrightarrow> known_channels cs"
  by (induction cs) (auto simp: allows)

lemma attempts_field:
  "list_all (conforms (Suc (Suc n)) openAPISpec (JObject [(''$ref'', JString ''#/components/schemas/DeliveryAttempt'')]))
     (map json_attempt as) \<longleftrightarrow> known_channels (map mat_Channel as)"
  unfolding attempt_reference list.pred_map comp_def attempt_conforms known_each by simp

lemma notification_conforms:
  "conforms (n + 4) openAPISpec (reference ''Notification'') (json_notification m) \<longleftrightarrow>
     mnt_Channels m \<noteq> [] \<and> known_channels (mnt_Channels m @ map mat_Channel (mnt_Attempts m))"
  by (simp add: schemas allows json_notification_def json_time_def numeral_eq_Suc channels_field attempts_field list_all_iff [of "\<lambda>(k, x). True"])

lemma dead_letter_conforms:
  "conforms (Suc (Suc n)) openAPISpec (JObject [(''$ref'', JString ''#/components/schemas/DeadLetter'')]) (json_dead_letter d)
   \<longleftrightarrow> known_channels [mdl_Channel d]"
proof -
  have r: "JObject [(''$ref'', JString ''#/components/schemas/DeadLetter'')] = reference ''DeadLetter''"
    by (simp add: reference_def schema_prefix_def)
  show ?thesis unfolding r by (simp add: schemas allows json_dead_letter_def json_time_def)
qed

lemma dead_letters_conform:
  "conforms (n + 4) openAPISpec (JObject [(''type'', JString ''array''),
       (''items'', JObject [(''$ref'', JString ''#/components/schemas/DeadLetter'')])]) (JArray (map json_dead_letter ds))
   \<longleftrightarrow> known_channels (map mdl_Channel ds)"
proof -
  have "list_all (conforms (Suc (Suc (Suc n))) openAPISpec
      (JObject [(''$ref'', JString ''#/components/schemas/DeadLetter'')])) (map json_dead_letter ds)
    \<longleftrightarrow> known_channels (map mdl_Channel ds)"
    unfolding list.pred_map comp_def dead_letter_conforms known_each by simp
  moreover have "n + 4 = Suc (Suc (Suc (Suc n)))" by simp
  ultimately show ?thesis by (simp only: conforms.simps(2)) (simp add: allows del: conforms.simps)
qed

subsection \<open>What the server keeps\<close>

text \<open>No stored notification is without channels, and the index names stored ones.\<close>

definition encodable :: "mvp_service \<Rightarrow> bool" where
  "encodable s = ((\<forall>n \<in> snd ` set (svc_notifications s). mnt_Channels n \<noteq> [])
     \<and> (\<forall>i \<in> snd ` set (svc_idempotencyIndex s). map_of (svc_notifications s) i \<noteq> None))"

text \<open>A call from an encodable state ends in one, with an error in \<open>E\<close> or a value in \<open>Q\<close>.\<close>

definition mvp_answers :: "(mvp_service, 'a) sm \<Rightarrow> (err \<Rightarrow> bool) \<Rightarrow> ('a \<Rightarrow> bool) \<Rightarrow> bool" where
  "mvp_answers m E Q = (\<forall>s. encodable s \<longrightarrow> encodable (snd (m s)) \<and> (case fst (m s) of Inl e \<Rightarrow> E e | Inr x \<Rightarrow> Q x))"

named_theorems answer_intros

lemma mvp_answers_return [answer_intros]: "Q x \<Longrightarrow> mvp_answers (return x) E Q"
  by (simp add: mvp_answers_def return_def)

lemma mvp_answers_handle:
  "mvp_answers m E Q \<Longrightarrow> (\<And>e. E e \<Longrightarrow> mvp_answers (f e) E' Q') \<Longrightarrow> (\<And>x. Q x \<Longrightarrow> mvp_answers (g x) E' Q') \<Longrightarrow>
   mvp_answers (handle m f g) E' Q'"
  unfolding mvp_answers_def handle_def by (fastforce split: prod.split sum.split)

lemma mvp_answers_andThen:
  "mvp_answers m E Q \<Longrightarrow> (\<And>x. Q x \<Longrightarrow> mvp_answers (g x) E Q') \<Longrightarrow> mvp_answers (andThen m g) E Q'"
  unfolding mvp_answers_def andThen_def handle_def fail_def by (fastforce split: prod.split sum.split)

lemma encodable_others [simp]:
  "encodable (s\<lparr>svc_nows := i\<rparr>) = encodable s" "encodable (s\<lparr>svc_ids := i\<rparr>) = encodable s"
  "encodable (s\<lparr>svc_tenants := ts\<rparr>) = encodable s" "encodable (s\<lparr>svc_templates := ps\<rparr>) = encodable s"
  by (simp_all add: encodable_def)

lemma encodable_stored: "encodable s \<Longrightarrow> map_of (svc_notifications s) i = Some n \<Longrightarrow> mnt_Channels n \<noteq> []"
  unfolding encodable_def by (metis image_eqI map_of_SomeD snd_conv)

lemma calls_answer [answer_intros]:
  "mvp_answers (mvp_CreateTenant ti) (\<lambda>e. e = errTenantExists) (\<lambda>_. True)"
  "mvp_answers (mvp_GetTenant i) (\<lambda>_. True) (\<lambda>_. True)"
  "mvp_answers (mvp_CreateTemplate pi) (\<lambda>e. e \<in> {errTenantNotFound, errTemplateExists}) (\<lambda>_. True)"
  "mvp_answers (mvp_GetTemplate i) (\<lambda>_. True) (\<lambda>_. True)"
  "mvp_answers (mvp_UpdateTemplate i ui) (\<lambda>_. True) (\<lambda>_. True)"
  "mvp_answers (mvp_GetNotification i) (\<lambda>_. True) (\<lambda>n. mnt_Channels n \<noteq> [])"
  "mvp_answers (mvp_Usage i) (\<lambda>_. True) (\<lambda>_. True)"
  "mvp_answers mvp_DeadLetters (\<lambda>_. False) (\<lambda>_. True)"
  by (auto simp: mvp_answers_def mvp_CreateTenant_def mvp_GetTenant_def mvp_CreateTemplate_def mvp_GetTemplate_def
    mvp_UpdateTemplate_def mvp_GetNotification_def mvp_Usage_def mvp_DeadLetters_def mvp_run encodable_stored
    split: option.split)

lemma set_update: "set (AList.update k v al) \<subseteq> insert (k, v) (set al)"
  by (induction al) auto

lemma encodable_put:
  assumes "encodable s" "mnt_Channels n \<noteq> []"
  shows "encodable (s\<lparr>svc_notifications := AList.update i n (svc_notifications s)\<rparr>)"
  using assms set_update [of i n "svc_notifications s"] by (fastforce simp: encodable_def update_conv')

lemma encodable_accepts:
  assumes "accepts input s n s'" "encodable s" "nin_Channels input \<noteq> []"
  shows "encodable s'" "mnt_Channels n \<noteq> []"
proof -
  show c: "mnt_Channels n \<noteq> []" using assms by (simp add: accepts_def)
  have "encodable (s\<lparr>svc_notifications := AList.update (mnt_ID n) n (svc_notifications s)\<rparr>)"
    using assms(2) c by (rule encodable_put)
  then show "encodable s'"
    using assms(1) set_update [of "index_key input" "mnt_ID n" "svc_idempotencyIndex s"]
    by (fastforce simp: accepts_def encodable_def update_conv')
qed

lemma create_answers [answer_intros]:
  assumes "nin_Channels input \<noteq> []"
  shows "mvp_answers (mvp_CreateNotification input)
    (\<lambda>e. e \<in> {errTenantNotFound, errTemplateNotFound, errDailyQuotaExceeded}) (\<lambda>(n, duplicate). mnt_Channels n \<noteq> [])"
  unfolding mvp_answers_def
proof (intro allI impI)
  fix s assume s: "encodable s"
  obtain n s' where a: "mvp_accept input (s\<lparr>svc_nows := Suc (svc_nows s)\<rparr>) = (Inr (n, False), s')" "accepts input s n s'"
    using mvp_accept_eq by blast
  note new = encodable_accepts [OF a(2) s assms]
  have old: "map_of (svc_idempotencyIndex s) k = Some i \<Longrightarrow> \<exists>n. map_of (svc_notifications s) i = Some n" for k i
    using s unfolding encodable_def by (metis image_eqI map_of_SomeD not_None_eq snd_conv)
  show "encodable (snd (mvp_CreateNotification input s)) \<and> (case fst (mvp_CreateNotification input s) of
      Inl e \<Rightarrow> e \<in> {errTenantNotFound, errTemplateNotFound, errDailyQuotaExceeded} | Inr (n, duplicate) \<Rightarrow> mnt_Channels n \<noteq> [])"
    using s a new encodable_stored [OF s]
    by (auto simp: mvp_CreateNotification_def mvp_run split: option.split dest: old)
qed

lemma replay_answers [answer_intros]:
  "mvp_answers (mvp_ReplayNotification i) (\<lambda>_. True) (\<lambda>n. mnt_Channels n \<noteq> [])"
  unfolding mvp_answers_def
proof (intro allI impI)
  fix s assume s: "encodable s"
  show "encodable (snd (mvp_ReplayNotification i s)) \<and> (case fst (mvp_ReplayNotification i s) of
      Inl e \<Rightarrow> True | Inr n \<Rightarrow> mnt_Channels n \<noteq> [])"
  proof (cases "map_of (svc_notifications s) i")
    case (Some n)
    obtain as m where "replay_channels (mnt_ID n) (mnt_Channels n) (mnt_Attempts n) s = (Inr as, s\<lparr>svc_ids := svc_ids s + m\<rparr>)"
      using replay_channels_ids by blast
    moreover have "encodable (s\<lparr>svc_ids := svc_ids s + m, svc_notifications := AList.update i
        (n\<lparr>mnt_Attempts := as, mnt_Status := ''processing''\<rparr>) (svc_notifications s)\<rparr>)"
      using encodable_put [of "s\<lparr>svc_ids := svc_ids s + m\<rparr>"] s encodable_stored [OF s Some] by simp
    ultimately show ?thesis using Some encodable_stored [OF s Some] by (simp add: mvp_ReplayNotification_def mvp_run)
  qed (use s in \<open>simp add: mvp_ReplayNotification_def mvp_run\<close>)
qed

subsection \<open>Answers and the document\<close>

text \<open>
  An answer is documented if its status is, for the operation, and its body conforms to the schema of that status
  exactly when all channels in it are the known ones.  A refused request is answered with 400, which no operation
  documents.
\<close>

definition keeps_document :: "nat \<Rightarrow> string \<times> string \<Rightarrow> mvp_response \<Rightarrow> bool" where
  "keeps_document n op r = (case op of (verb, template) \<Rightarrow>
     case documented openAPISpec verb template (Itoa (mrs_Status r)) of
       None \<Rightarrow> mrs_Status r = 400
     | Some schema \<Rightarrow> (\<exists>v. json_body (mrs_Body r) = Some v
         \<and> (conforms n openAPISpec schema v \<longleftrightarrow> known_channels (body_channels (mrs_Body r)))))"

lemma documented_statuses:
  "documented openAPISpec ''get'' ''/v1/health'' (Itoa 200) = Some (reference ''StatusResponse'')"
  "documented openAPISpec ''get'' ''/v1/readiness'' (Itoa 200) = Some (reference ''StatusResponse'')"
  "documented openAPISpec ''post'' ''/v1/tenants'' (Itoa 201) = Some (reference ''Tenant'')"
  "documented openAPISpec ''post'' ''/v1/tenants'' (Itoa 400) = None"
  "documented openAPISpec ''post'' ''/v1/tenants'' (Itoa 409) = Some (reference ''ErrorResponse'')"
  "documented openAPISpec ''get'' ''/v1/tenants/{tenantId}'' (Itoa 200) = Some (reference ''Tenant'')"
  "documented openAPISpec ''get'' ''/v1/tenants/{tenantId}'' (Itoa 404) = Some (reference ''ErrorResponse'')"
  "documented openAPISpec ''get'' ''/v1/tenants/{tenantId}/usage'' (Itoa 200) = Some (reference ''Usage'')"
  "documented openAPISpec ''get'' ''/v1/tenants/{tenantId}/usage'' (Itoa 404) = Some (reference ''ErrorResponse'')"
  "documented openAPISpec ''post'' ''/v1/templates'' (Itoa 201) = Some (reference ''Template'')"
  "documented openAPISpec ''post'' ''/v1/templates'' (Itoa 400) = None"
  "documented openAPISpec ''post'' ''/v1/templates'' (Itoa 404) = Some (reference ''ErrorResponse'')"
  "documented openAPISpec ''post'' ''/v1/templates'' (Itoa 409) = Some (reference ''ErrorResponse'')"
  "documented openAPISpec ''get'' ''/v1/templates/{templateId}'' (Itoa 200) = Some (reference ''Template'')"
  "documented openAPISpec ''get'' ''/v1/templates/{templateId}'' (Itoa 404) = Some (reference ''ErrorResponse'')"
  "documented openAPISpec ''put'' ''/v1/templates/{templateId}'' (Itoa 200) = Some (reference ''Template'')"
  "documented openAPISpec ''put'' ''/v1/templates/{templateId}'' (Itoa 400) = None"
  "documented openAPISpec ''put'' ''/v1/templates/{templateId}'' (Itoa 404) = Some (reference ''ErrorResponse'')"
  "documented openAPISpec ''post'' ''/v1/notifications'' (Itoa 200) = Some (reference ''Notification'')"
  "documented openAPISpec ''post'' ''/v1/notifications'' (Itoa 202) = Some (reference ''Notification'')"
  "documented openAPISpec ''post'' ''/v1/notifications'' (Itoa 400) = None"
  "documented openAPISpec ''post'' ''/v1/notifications'' (Itoa 404) = Some (reference ''ErrorResponse'')"
  "documented openAPISpec ''post'' ''/v1/notifications'' (Itoa 429) = Some (reference ''ErrorResponse'')"
  "documented openAPISpec ''get'' ''/v1/notifications/{notificationId}'' (Itoa 200) = Some (reference ''Notification'')"
  "documented openAPISpec ''get'' ''/v1/notifications/{notificationId}'' (Itoa 404) = Some (reference ''ErrorResponse'')"
  "documented openAPISpec ''post'' ''/v1/notifications/{notificationId}/replay'' (Itoa 200) = Some (reference ''Notification'')"
  "documented openAPISpec ''post'' ''/v1/notifications/{notificationId}/replay'' (Itoa 404) = Some (reference ''ErrorResponse'')"
  "documented openAPISpec ''get'' ''/v1/dead-letters'' (Itoa 200) = Some (JObject [(''type'', JString ''array''),
     (''items'', JObject [(''$ref'', JString ''#/components/schemas/DeadLetter'')])])"
  by code_simp+

lemma bodies_kept:
  "documented openAPISpec v t (Itoa st) = Some (reference ''StatusResponse'') \<Longrightarrow>
     keeps_document (n + 4) (v, t) \<lparr>mrs_Status = st, mrs_Body = MvpStatus m\<rparr>"
  "documented openAPISpec v t (Itoa st) = Some (reference ''ErrorResponse'') \<Longrightarrow>
     keeps_document (n + 4) (v, t) \<lparr>mrs_Status = st, mrs_Body = MvpError m\<rparr>"
  "documented openAPISpec v t (Itoa 400) = None \<Longrightarrow>
     keeps_document (n + 4) (v, t) \<lparr>mrs_Status = 400, mrs_Body = MvpError m\<rparr>"
  "documented openAPISpec v t (Itoa st) = Some (reference ''Tenant'') \<Longrightarrow>
     keeps_document (n + 4) (v, t) \<lparr>mrs_Status = st, mrs_Body = MvpTenant tenant\<rparr>"
  "documented openAPISpec v t (Itoa st) = Some (reference ''Usage'') \<Longrightarrow>
     keeps_document (n + 4) (v, t) \<lparr>mrs_Status = st, mrs_Body = MvpUsage usage\<rparr>"
  "documented openAPISpec v t (Itoa st) = Some (reference ''Template'') \<Longrightarrow>
     keeps_document (n + 4) (v, t) \<lparr>mrs_Status = st, mrs_Body = MvpTemplate template\<rparr>"
  "documented openAPISpec v t (Itoa st) = Some (reference ''Notification'') \<Longrightarrow> mnt_Channels ntf \<noteq> [] \<Longrightarrow>
     keeps_document (n + 4) (v, t) \<lparr>mrs_Status = st, mrs_Body = MvpNotification ntf\<rparr>"
  "documented openAPISpec v t (Itoa st) = Some (JObject [(''type'', JString ''array''),
       (''items'', JObject [(''$ref'', JString ''#/components/schemas/DeadLetter'')])]) \<Longrightarrow>
     keeps_document (n + 4) (v, t) \<lparr>mrs_Status = st, mrs_Body = MvpDeadLetters ds\<rparr>"
  by (simp_all only: keeps_document_def prod.case option.case mvp_response.simps json_body.simps body_channels.simps
      option.inject ex_simps simp_thms plain_bodies_conform template_conforms notification_conforms dead_letters_conform
      known_channels_simps simp_thms)

abbreviation documented_answers :: "nat \<Rightarrow> string \<Rightarrow> string \<Rightarrow> (mvp_service, mvp_response) sm \<Rightarrow> bool" where
  "documented_answers n v t m \<equiv> mvp_answers m (\<lambda>_. False) (keeps_document (n + 4) (v, t))"

lemma written [answer_intros]: "Q \<lparr>mrs_Status = st, mrs_Body = b\<rparr> \<Longrightarrow> mvp_answers (mvp_writeJSON st b) E Q"
  unfolding mvp_writeJSON_def by (rule mvp_answers_return)

lemma refused_answers [answer_intros]:
  "Q \<lparr>mrs_Status = st, mrs_Body = MvpError m\<rparr> \<Longrightarrow> mvp_answers (mvp_writeError st m) E Q"
  "Q \<lparr>mrs_Status = 404, mrs_Body = MvpError (err_message e)\<rparr> \<Longrightarrow> mvp_answers (notFound_answer e) E Q"
  unfolding mvp_writeError_def notFound_answer_def by (rule written, assumption)+

lemma decoding_answers:
  "(\<And>m. Q \<lparr>mrs_Status = 400, mrs_Body = MvpError m\<rparr>) \<Longrightarrow> (\<And>input. mvp_answers (k input) E Q) \<Longrightarrow> mvp_answers (mvp_decoding b k) E Q"
  unfolding mvp_decoding_def by (auto intro: refused_answers split: sum.split)

lemma if_answers: "(c \<Longrightarrow> mvp_answers m E Q) \<Longrightarrow> (\<not> c \<Longrightarrow> mvp_answers m' E Q) \<Longrightarrow> mvp_answers (if c then m else m') E Q"
  by simp

lemma pair_answers: "(\<And>a b. p = (a, b) \<Longrightarrow> mvp_answers (f a b) E Q) \<Longrightarrow> mvp_answers (case p of (a, b) \<Rightarrow> f a b) E Q"
  by (cases p) simp

lemmas handler_rules = decoding_answers if_answers pair_answers answer_intros mvp_answers_handle mvp_answers_andThen
lemmas leaf_simps = bodies_kept documented_statuses mvp_errors

lemma handlers_answer:
  "documented_answers n ''post'' ''/v1/tenants'' (handleCreateTenant tb)"
  "documented_answers n ''get'' ''/v1/tenants/{tenantId}'' (handleGetTenant i)"
  "documented_answers n ''get'' ''/v1/tenants/{tenantId}/usage'' (handleUsage i)"
  "documented_answers n ''post'' ''/v1/templates'' (handleCreateTemplate pb)"
  "documented_answers n ''get'' ''/v1/templates/{templateId}'' (handleGetTemplate i)"
  "documented_answers n ''put'' ''/v1/templates/{templateId}'' (handleUpdateTemplate i ub)"
  "documented_answers n ''post'' ''/v1/notifications'' (handleCreateNotification nb)"
  "documented_answers n ''get'' ''/v1/notifications/{notificationId}'' (handleGetNotification i)"
  "documented_answers n ''post'' ''/v1/notifications/{notificationId}/replay'' (handleReplayNotification i)"
  "documented_answers n ''get'' ''/v1/dead-letters'' handleDeadLetters"
  unfolding handleCreateTenant_def handleGetTenant_def handleUsage_def handleCreateTemplate_def handleGetTemplate_def
    handleUpdateTemplate_def handleCreateNotification_def handleGetNotification_def handleReplayNotification_def
    handleDeadLetters_def
  by ((rule handler_rules | (auto simp: leaf_simps; fail))+)

subsection \<open>Requests\<close>

text \<open>
  Paths that \<^verbatim>\<open>net/http\<close> neither cleans nor unescapes, as their segments, and what it documents of its patterns: the
  most specific one serves; a path that is not a pattern itself is redirected if it is one with a slash at its end.
\<close>

definition plain_segment :: "string \<Rightarrow> bool" where
  "plain_segment seg = (seg \<noteq> [] \<and> seg \<noteq> ''.'' \<and> seg \<noteq> ''..'' \<and> CHR ''/'' \<notin> set seg \<and> CHR ''%'' \<notin> set seg)"

definition path_of :: "string list \<Rightarrow> string" where
  "path_of segs = concat (map (\<lambda>seg. CHR ''/'' # seg) segs)"

definition pattern_verb :: "string \<Rightarrow> string" where
  "pattern_verb p = takeWhile (\<lambda>c. c \<noteq> CHR '' '') p"

definition pattern_path :: "string \<Rightarrow> string" where
  "pattern_path p = tl (dropWhile (\<lambda>c. c \<noteq> CHR '' '') p)"

definition covers :: "string \<Rightarrow> string \<Rightarrow> bool" where
  "covers p path = (p = path \<or> has_suffix p ''/'' \<and> has_prefix path p)"

fun longest :: "string list \<Rightarrow> string option" where
  "longest [] = None"
| "longest (p # ps) = (case longest ps of None \<Rightarrow> Some p
     | Some q \<Rightarrow> Some (if length q \<le> length p then p else q))"

definition most_specific :: "string list \<Rightarrow> string \<Rightarrow> string \<Rightarrow> string option" where
  "most_specific pats verb path = longest (filter (\<lambda>p. pattern_verb p = verb \<and> covers (pattern_path p) path) pats)"

definition follows_patterns :: "(string list \<Rightarrow> string \<Rightarrow> string \<Rightarrow> mvp_response + string) \<Rightarrow> bool" where
  "follows_patterns mux = (\<forall>pats verb segs p. list_all plain_segment segs
     \<and> most_specific pats verb (path_of segs) = Some p
     \<and> (pattern_path p = path_of segs \<or> verb @ '' '' @ path_of segs @ ''/'' \<notin> set pats)
     \<longrightarrow> mux pats verb (path_of segs) = Inr p)"

text \<open>The request for an operation: its method, and its path with a parameter filled in.\<close>

definition http_method :: "string \<Rightarrow> string" where
  "http_method verb = (if verb = ''get'' then ''GET'' else if verb = ''put'' then ''PUT'' else ''POST'')"

definition fill :: "string \<Rightarrow> string \<Rightarrow> string" where
  "fill i template = takeWhile (\<lambda>c. c \<noteq> CHR ''{'') template
     @ (if CHR ''{'' \<in> set template then i @ tl (dropWhile (\<lambda>c. c \<noteq> CHR ''}'') template) else [])"

definition route_to :: "string list \<Rightarrow> string \<Rightarrow> string \<Rightarrow> string \<Rightarrow> bool" where
  "route_to segs verb path pattern = (path = path_of segs \<and> list_all plain_segment segs
     \<and> (\<forall>dec b. most_specific (map fst (mvp_routes dec path b)) verb path = Some pattern
         \<and> (pattern_path pattern = path \<or> verb @ '' '' @ path @ ''/'' \<notin> set (map fst (mvp_routes dec path b)))))"

lemmas mux_simps = route_to_def path_of_def plain_segment_def most_specific_def mvp_routes_def pattern_verb_def
  pattern_path_def covers_def has_suffix_def has_prefix_def fill_def

lemma routes_of_operations:
  assumes "plain_segment i"
  shows "route_to [''v1'', ''health''] ''GET'' (fill i ''/v1/health'') ''GET /v1/health''"
    "route_to [''v1'', ''readiness''] ''GET'' (fill i ''/v1/readiness'') ''GET /v1/readiness''"
    "route_to [''v1'', ''tenants''] ''POST'' (fill i ''/v1/tenants'') ''POST /v1/tenants''"
    "route_to [''v1'', ''tenants'', i] ''GET'' (fill i ''/v1/tenants/{tenantId}'') ''GET /v1/tenants/''"
    "route_to [''v1'', ''tenants'', i, ''usage''] ''GET'' (fill i ''/v1/tenants/{tenantId}/usage'') ''GET /v1/tenants/''"
    "route_to [''v1'', ''templates''] ''POST'' (fill i ''/v1/templates'') ''POST /v1/templates''"
    "route_to [''v1'', ''templates'', i] ''GET'' (fill i ''/v1/templates/{templateId}'') ''GET /v1/templates/''"
    "route_to [''v1'', ''templates'', i] ''PUT'' (fill i ''/v1/templates/{templateId}'') ''PUT /v1/templates/''"
    "route_to [''v1'', ''notifications''] ''POST'' (fill i ''/v1/notifications'') ''POST /v1/notifications''"
    "route_to [''v1'', ''notifications'', i] ''GET'' (fill i ''/v1/notifications/{notificationId}'') ''GET /v1/notifications/''"
    "route_to [''v1'', ''notifications'', i, ''replay''] ''POST'' (fill i ''/v1/notifications/{notificationId}/replay'')
       ''POST /v1/notifications/''"
    "route_to [''v1'', ''dead-letters''] ''GET'' (fill i ''/v1/dead-letters'') ''GET /v1/dead-letters''"
  using assms by (simp_all add: mux_simps)

lemma serve_route:
  assumes "follows_patterns mux" "route_to segs verb path pattern"
  shows "mvp_serve mux dec verb path b = (case map_of (mvp_routes dec path b) pattern of
     None \<Rightarrow> mvp_writeJSON 404 NotFoundPage | Some handler \<Rightarrow> handler)"
proof -
  have "mux (map fst (mvp_routes dec path b)) verb path = Inr pattern"
    using assms unfolding follows_patterns_def route_to_def by blast
  then show ?thesis by (simp add: mvp_serve_def)
qed

text \<open>The identifiers that the handlers find in the paths.\<close>

lemma no_suffix: "CHR ''/'' \<notin> set i \<Longrightarrow> \<not> has_suffix i (CHR ''/'' # p)"
proof
  assume a: "CHR ''/'' \<notin> set i" "has_suffix i (CHR ''/'' # p)"
  then have "rev (CHR ''/'' # p) = take (Suc (length p)) (rev i)" by (simp add: has_suffix_def has_prefix_def)
  then have "CHR ''/'' \<in> set (take (Suc (length p)) (rev i))"
    by (metis list.set_intros(1) set_rev)
  then show False using a(1) by (metis in_set_takeD set_rev)
qed

lemma suffix_cut [simp]: "has_suffix (i @ p) p" "trim_suffix (i @ p) p = i"
  by (simp_all add: has_suffix_def trim_suffix_def trim_prefix_def has_prefix_def)

lemma no_suffix_kept: "CHR ''/'' \<notin> set i \<Longrightarrow> trim_suffix i ''/'' = i"
  using no_suffix [of i "[]"] by (simp add: trim_suffix_def trim_prefix_def has_suffix_def)

lemma prefix_cut [simp]: "trim_prefix (p @ i) p = i"
  by (simp add: trim_prefix_def has_prefix_def)

lemma path_handlers:
  assumes "plain_segment i"
  shows "handleTenantRoutes (fill i ''/v1/tenants/{tenantId}'') = handleGetTenant i"
    "handleTenantRoutes (fill i ''/v1/tenants/{tenantId}/usage'') = handleUsage i"
    "handleNotificationRoutes (fill i ''/v1/notifications/{notificationId}'') = handleGetNotification i"
    "handleNotificationRoutes (fill i ''/v1/notifications/{notificationId}/replay'') = handleReplayNotification i"
proof -
  have f: "fill i ''/v1/tenants/{tenantId}'' = ''/v1/tenants/'' @ i"
    "fill i ''/v1/tenants/{tenantId}/usage'' = ''/v1/tenants/'' @ i @ ''/usage''"
    "fill i ''/v1/notifications/{notificationId}'' = ''/v1/notifications/'' @ i"
    "fill i ''/v1/notifications/{notificationId}/replay'' = ''/v1/notifications/'' @ i @ ''/replay''"
    by (simp_all add: fill_def)
  have i: "CHR ''/'' \<notin> set i" "i \<noteq> []" using assms by (simp_all add: plain_segment_def)
  show "handleTenantRoutes (fill i ''/v1/tenants/{tenantId}'') = handleGetTenant i"
    "handleTenantRoutes (fill i ''/v1/tenants/{tenantId}/usage'') = handleUsage i"
    "handleNotificationRoutes (fill i ''/v1/notifications/{notificationId}'') = handleGetNotification i"
    "handleNotificationRoutes (fill i ''/v1/notifications/{notificationId}/replay'') = handleReplayNotification i"
    unfolding f handleTenantRoutes_def handleNotificationRoutes_def Let_def prefix_cut
    using i by (simp_all add: no_suffix no_suffix_kept)
qed

subsection \<open>The server and its document\<close>

text \<open>The states of a server: it has served requests since it was new.\<close>

inductive mvp_served ::
    "(string list \<Rightarrow> string \<Rightarrow> string \<Rightarrow> mvp_response + string) \<Rightarrow> mvp_decoders \<Rightarrow> (nat \<Rightarrow> time) \<Rightarrow> (nat \<Rightarrow> string) \<Rightarrow>
     mvp_service \<Rightarrow> bool" for mux dec clock idgen where
  New: "mvp_served mux dec clock idgen (mvp_NewService clock idgen)"
| Served: "mvp_served mux dec clock idgen s \<Longrightarrow> mvp_served mux dec clock idgen (snd (mvp_serve mux dec verb path b s))"

definition keeps_encodable :: "(mvp_service, 'a) sm \<Rightarrow> bool" where
  "keeps_encodable m = (\<forall>s. encodable s \<longrightarrow> encodable (snd (m s)))"

lemma mvp_answers_keep: "mvp_answers m E Q \<Longrightarrow> keeps_encodable m"
  by (simp add: mvp_answers_def keeps_encodable_def)

lemma encodable_served: "mvp_served mux dec clock idgen s \<Longrightarrow> encodable s"
proof (induction rule: mvp_served.induct)
  case New
  show ?case by (simp add: encodable_def mvp_NewService_def)
next
  case (Served s verb path b)
  note kept = handlers_answer [THEN mvp_answers_keep]
  have w: "keeps_encodable (mvp_writeJSON st body)" for st body
    by (rule mvp_answers_keep [of _ "\<lambda>_. True" "\<lambda>_. True"]) (simp add: written)
  have "\<forall>p m. (p, m) \<in> set (mvp_routes dec path b) \<longrightarrow> keeps_encodable m"
    by (simp add: mvp_routes_def handleTenantRoutes_def handleNotificationRoutes_def Let_def kept w)
  then have "keeps_encodable (case map_of (mvp_routes dec path b) pattern of
      None \<Rightarrow> mvp_writeJSON 404 NotFoundPage | Some handler \<Rightarrow> handler)" for pattern
    by (auto simp: w dest: map_of_SomeD split: option.split)
  then have "keeps_encodable (mvp_serve mux dec verb path b)"
    by (auto simp: mvp_serve_def Let_def keeps_encodable_def return_def split: sum.split)
  with Served.IH show ?case by (simp add: keeps_encodable_def)
qed

lemma handler_of_pattern:
  "map_of (mvp_routes dec path b) ''GET /v1/health'' = Some (mvp_writeJSON 200 (MvpStatus ''ok''))"
  "map_of (mvp_routes dec path b) ''GET /v1/readiness'' = Some (mvp_writeJSON 200 (MvpStatus ''ready''))"
  "map_of (mvp_routes dec path b) ''POST /v1/tenants'' = Some (handleCreateTenant (mde_tenant dec b))"
  "map_of (mvp_routes dec path b) ''GET /v1/tenants/'' = Some (handleTenantRoutes path)"
  "map_of (mvp_routes dec path b) ''POST /v1/templates'' = Some (handleCreateTemplate (mde_template dec b))"
  "map_of (mvp_routes dec path b) ''GET /v1/templates/'' = Some (handleGetTemplate path)"
  "map_of (mvp_routes dec path b) ''PUT /v1/templates/'' = Some (handleUpdateTemplate path (mde_update dec b))"
  "map_of (mvp_routes dec path b) ''POST /v1/notifications'' = Some (handleCreateNotification (mde_notification dec b))"
  "map_of (mvp_routes dec path b) ''GET /v1/notifications/'' = Some (handleNotificationRoutes path)"
  "map_of (mvp_routes dec path b) ''POST /v1/notifications/'' = Some (handleNotificationRoutes path)"
  "map_of (mvp_routes dec path b) ''GET /v1/dead-letters'' = Some handleDeadLetters"
  by (simp_all add: mvp_routes_def)

lemma operations_answer:
  assumes "follows_patterns mux" "plain_segment i" "(v, t) \<in> set (operations openAPISpec)"
  shows "documented_answers n v t (mvp_serve mux dec (http_method v) (fill i t) b)"
proof -
  note served = routes_of_operations [OF assms(2), THEN serve_route [OF assms(1)],
    unfolded handler_of_pattern option.case path_handlers [OF assms(2)]]
  have verbs: "http_method ''get'' = ''GET''" "http_method ''put'' = ''PUT''" "http_method ''post'' = ''POST''"
    by (simp_all add: http_method_def)
  have "documented_answers n ''get'' ''/v1/health'' (mvp_writeJSON 200 (MvpStatus ''ok''))"
    "documented_answers n ''get'' ''/v1/readiness'' (mvp_writeJSON 200 (MvpStatus ''ready''))"
    by (intro written bodies_kept documented_statuses)+
  note here = this handlers_answer
  show ?thesis
    using assms(3) unfolding operations_are list.set insert_iff empty_iff prod.inject simp_thms
    by (elim disjE conjE) (simp_all only: verbs served here)
qed

text \<open>
  C40.  The in-memory server keeps its own document (\<^verbatim>\<open>/openapi.json\<close>).  Whatever it has served before, a request for a
  documented operation is answered, with a status that the document gives for the operation and a JSON body that
  conforms to the schema given there, provided that the channels in it are the two known ones: channels are not
  checked, and a body with another one does not conform.  The only other answer is 400, which no operation documents.
\<close>

theorem mvp_follows_document:
  assumes "follows_patterns mux" "mvp_served mux dec clock idgen s" "op \<in> set (operations openAPISpec)"
    "plain_segment i" "4 \<le> n" "mvp_serve mux dec (http_method (fst op)) (fill i (snd op)) b s = (x, s')"
  shows "\<exists>r. x = Inr r \<and> keeps_document n op r"
proof -
  obtain k where n: "n = k + 4" using assms(5) by (metis add.commute le_iff_add)
  obtain v t where op: "op = (v, t)" by (cases op)
  have "documented_answers k v t (mvp_serve mux dec (http_method v) (fill i t) b)"
    using assms(1,4) assms(3) unfolding op by (rule operations_answer)
  with encodable_served [OF assms(2)]
  have "case fst (mvp_serve mux dec (http_method v) (fill i t) b s) of
      Inl e \<Rightarrow> False | Inr r \<Rightarrow> keeps_document (k + 4) (v, t) r"
    by (simp add: mvp_answers_def)
  with assms(6) show ?thesis unfolding op n by (cases x) simp_all
qed

text \<open>The witness: a template for a channel that does not exist is accepted, and its answer breaks the document.\<close>

definition specific_mux :: "string list \<Rightarrow> string \<Rightarrow> string \<Rightarrow> mvp_response + string" where
  "specific_mux pats verb path = (case most_specific pats verb path of
     None \<Rightarrow> Inl \<lparr>mrs_Status = 404, mrs_Body = NotFoundPage\<rparr> | Some p \<Rightarrow> Inr p)"

definition sms_decoders :: mvp_decoders where
  "sms_decoders = \<lparr>mde_tenant = (\<lambda>_. Inr \<lparr>tin_ID = ''a'', tin_Name = ''one'', tin_DailyQuota = 1\<rparr>),
     mde_template = (\<lambda>_. Inr \<lparr>pin_ID = ''m'', pin_TenantID = ''a'', pin_Name = ''x'', pin_Channel = ''sms'', pin_Body = ''hi''\<rparr>),
     mde_update = (\<lambda>_. Inl ''EOF''), mde_notification = (\<lambda>_. Inl ''EOF'')\<rparr>"

definition sms_tenant :: mvp_service where
  "sms_tenant = snd (mvp_serve specific_mux sms_decoders ''POST'' ''/v1/tenants'' []
     (mvp_NewService steady_clock counted_ids))"

definition sms_template :: "(err + mvp_response) \<times> mvp_service" where
  "sms_template = mvp_serve specific_mux sms_decoders ''POST'' ''/v1/templates'' [] sms_tenant"

theorem mvp_follows_document_witness:
  "\<exists>r. fst sms_template = Inr r \<and> keeps_document 4 (''post'', ''/v1/templates'') r \<and> mrs_Status r = 201
     \<and> body_channels (mrs_Body r) = [''sms'']"
proof -
  have m: "follows_patterns specific_mux" by (simp add: follows_patterns_def specific_mux_def)
  have s: "mvp_served specific_mux sms_decoders steady_clock counted_ids sms_tenant"
    unfolding sms_tenant_def by (intro mvp_served.intros)
  have o: "(''post'', ''/v1/templates'') \<in> set (operations openAPISpec)" by (simp add: operations_are)
  have q: "mvp_serve specific_mux sms_decoders (http_method (fst (''post'', ''/v1/templates'')))
      (fill ''i'' (snd (''post'', ''/v1/templates''))) [] sms_tenant = (fst sms_template, snd sms_template)"
    by (simp add: http_method_def fill_def sms_template_def)
  have "map_sum id (\<lambda>r. (mrs_Status r, body_channels (mrs_Body r))) (fst sms_template) = Inr (201, [''sms''])"
    by code_simp
  then obtain r where r: "fst sms_template = Inr r" "mrs_Status r = 201" "body_channels (mrs_Body r) = [''sms'']"
    by (cases "fst sms_template") auto
  with mvp_follows_document [OF m s o _ le_refl q] show ?thesis by (simp add: plain_segment_def)
qed

end
