(* ===== verification/Entry_Points.thy ===== *)
theory Entry_Points
  imports Worker_Outcome Delivery_Outcome Dispatcher
begin

text \<open>
  The \<^verbatim>\<open>main\<close> functions: what a process checks and connects before it works, the worker that the settings
  configure, and the loop of a process (\<^verbatim>\<open>cmd/*/main.go\<close>, \<^verbatim>\<open>internal/platform/runtime.go\<close>).  Libraries decide
  whether telemetry and Postgres are there; signals, log lines and the closing of connections are left out.
\<close>

subsection \<open>The logger\<close>

datatype level = LevelDebug | LevelInfo | LevelWarn | LevelError

text \<open>\<^verbatim>\<open>strings.ToLower\<close> on ASCII; no other character has a lower case in the names of the levels.\<close>

definition ToLower :: "string \<Rightarrow> string" where
  "ToLower = map (\<lambda>c. if c \<in> set ''ABCDEFGHIJKLMNOPQRSTUVWXYZ'' then char_of (of_char c + (32 :: nat)) else c)"

definition NewLogger :: "string \<Rightarrow> level" where
  "NewLogger level = (let l = ToLower level in
     if l = ''debug'' then LevelDebug
     else if l = ''info'' then LevelInfo
     else if l = ''warn'' then LevelWarn
     else if l = ''error'' then LevelError
     else LevelInfo)"

subsection \<open>The configured workers\<close>

text \<open>
  \<^verbatim>\<open>QueueDepth\<close> of the retry policy: no error leaves it.  In the policy of a worker it is a function, any one
  in the theorems; that the question uses the connection of the process is a step of the process below.
\<close>

definition worker_QueueDepth :: "('t, 'r) redis_server \<Rightarrow> string \<Rightarrow> ('t, 'r, 'x, int) qm" where
  "worker_QueueDepth srv channel = (case QueueNameForChannel channel of
     None \<Rightarrow> return 0
   | Some name \<Rightarrow> handle (QueueDepth srv name) (\<lambda>_. return 0) (\<lambda>depth. return depth))"

record 'x worker_process =
  wp_queueName :: string
  wp_Concurrency :: int
  wp_TenantBurst :: int
  wp_TenantMaxInFlight :: int
  wp_processor :: "dispatch_job \<Rightarrow> ('x, result \<times> cause option) wm"

definition delivery_policy :: "config \<Rightarrow> (string \<Rightarrow> int) \<Rightarrow> retry_policy" where
  "delivery_policy cfg depth = NewService (worker_retry_policy cfg depth)"

text \<open>
  Both workers have the webhook sender twice, as the primary and the secondary one.  The \<^verbatim>\<open>switch\<close> of the webhook
  worker on the name of its queue has one case that is ever taken.
\<close>

definition webhook_worker :: "config \<Rightarrow> (string \<Rightarrow> int) \<Rightarrow> 'm text_template \<Rightarrow> 'x worker_process" where
  "webhook_worker cfg depth tt = \<lparr>wp_queueName = DispatchWebhookQueueName,
     wp_Concurrency = cfg_WebhookWorkerConcurrency cfg, wp_TenantBurst = cfg_PerTenantWorkerBurst cfg,
     wp_TenantMaxInFlight = cfg_PerTenantMaxInFlight cfg,
     wp_processor = ProcessWebhook (delivery_policy cfg depth) tt True\<rparr>"

definition email_worker :: "config \<Rightarrow> (string \<Rightarrow> int) \<Rightarrow> 'm text_template \<Rightarrow> 'x worker_process" where
  "email_worker cfg depth tt = \<lparr>wp_queueName = DispatchEmailQueueName,
     wp_Concurrency = cfg_EmailWorkerConcurrency cfg, wp_TenantBurst = cfg_PerTenantWorkerBurst cfg,
     wp_TenantMaxInFlight = cfg_PerTenantMaxInFlight cfg,
     wp_processor = ProcessEmail (delivery_policy cfg depth) tt (NewSMTPSender cfg) (NewSecondarySMTPSender cfg)\<rparr>"

subsection \<open>Starting\<close>

text \<open>
  What the libraries answer while a process starts: \<^verbatim>\<open>url.ParseRequestURI\<close>, OpenTelemetry's resources and
  exporters, \<^verbatim>\<open>sql.Open\<close> and the ping of a database.
\<close>

record platform =
  pf_uri :: "string \<Rightarrow> bool"
  pf_resource :: "config \<Rightarrow> bool"
  pf_traces :: "string \<Rightarrow> bool"
  pf_metrics :: "string \<Rightarrow> bool"
  pf_open :: "string \<Rightarrow> bool"
  pf_ping :: "string \<Rightarrow> bool"

definition SetupTelemetry :: "platform \<Rightarrow> config \<Rightarrow> string option" where
  "SetupTelemetry pf cfg =
     (if \<not> pf_resource pf cfg then Some ''build telemetry resource''
      else if \<not> pf_traces pf (cfg_OTLPEndpoint cfg) then Some ''create trace exporter''
      else if \<not> pf_metrics pf (cfg_OTLPEndpoint cfg) then Some ''create metric exporter''
      else None)"

text \<open>The shutdown that \<^verbatim>\<open>SetupTelemetry\<close> returns tries both providers and joins their errors.\<close>

definition telemetry_shutdown :: "bool \<Rightarrow> bool \<Rightarrow> string list" where
  "telemetry_shutdown meterOk tracerOk =
     (if meterOk then [] else [''shutdown meter provider'']) @ (if tracerOk then [] else [''shutdown tracer provider''])"

definition NewPostgres :: "platform \<Rightarrow> string \<Rightarrow> string option" where
  "NewPostgres pf databaseURL =
     (if \<not> pf_open pf databaseURL then Some ''open postgres connection''
      else if \<not> pf_ping pf databaseURL then Some ''ping postgres''
      else None)"

text \<open>\<^verbatim>\<open>os.Exit(1)\<close> after a log line ends the process; the deferred calls do not run.\<close>

definition exit_with :: "string \<Rightarrow> ('s, 'a) sm" where
  "exit_with msg = fail (ErrText msg)"

definition unless_exit :: "string option \<Rightarrow> string \<Rightarrow> ('s, 'a) sm \<Rightarrow> ('s, 'a) sm" where
  "unless_exit err msg k = (if err \<noteq> None then exit_with msg else k)"

definition NewRedisQueue :: "config \<Rightarrow> ('t, 'r, 'x, unit) qm" where
  "NewRedisQueue cfg w = (Inr (), w\<lparr>rq_password := cfg_RedisPassword cfg, rq_db := cfg_RedisDB cfg, rq_conn := None\<rparr>)"

definition connect_redis :: "config \<Rightarrow> ('t, 'r) redis_server \<Rightarrow> ('t, 'r, 'x, unit) qm" where
  "connect_redis cfg srv = andThen (NewRedisQueue cfg) (\<lambda>_.
     handle (Ping srv) (\<lambda>_. exit_with ''failed to connect to redis'') return)"

text \<open>
  A worker process up to its loop; the settings it goes on with are the result.
\<close>

definition worker_startup ::
    "platform \<Rightarrow> config \<Rightarrow> string \<Rightarrow> nat \<Rightarrow> ('t, 'r) redis_server \<Rightarrow> ('t, 'r, 'y, config) qm" where
  "worker_startup pf cfg appName fuel srv =
     unless_exit (Validate (pf_uri pf) cfg) ''invalid configuration'' (
     let cfg = cfg\<lparr>cfg_AppName := appName\<rparr> in
     unless_exit (SetupTelemetry pf cfg) ''failed to initialize telemetry'' (
     unless_exit (NewPostgres pf (cfg_DatabaseURL cfg)) ''failed to connect to postgres'' (
     andThen (connect_redis cfg srv) (\<lambda>_.
     andThen (RecoverProcessingQueues fuel srv) (\<lambda>_.
     return cfg)))))"

definition webhook_main :: "platform \<Rightarrow> config \<Rightarrow> nat \<Rightarrow> ('t, 'r) redis_server \<Rightarrow> ('t, 'r, 'y, config) qm" where
  "webhook_main pf cfg = worker_startup pf cfg ''webhook-worker''"

definition email_main :: "platform \<Rightarrow> config \<Rightarrow> nat \<Rightarrow> ('t, 'r) redis_server \<Rightarrow> ('t, 'r, 'y, config) qm" where
  "email_main pf cfg = worker_startup pf cfg ''email-worker''"

definition dispatcher_startup :: "platform \<Rightarrow> config \<Rightarrow> nat \<Rightarrow> ('t, 'r) redis_server \<Rightarrow> ('t, 'r, 'y, unit) qm" where
  "dispatcher_startup pf cfg fuel srv =
     unless_exit (Validate (pf_uri pf) cfg) ''invalid configuration'' (
     andThen (connect_redis cfg srv) (\<lambda>_. RecoverProcessingQueues fuel srv))"

definition publisher_startup :: "platform \<Rightarrow> config \<Rightarrow> ('t, 'r) redis_server \<Rightarrow> ('t, 'r, 'y, unit) qm" where
  "publisher_startup pf cfg srv =
     unless_exit (Validate (pf_uri pf) cfg) ''invalid configuration'' (
     unless_exit (NewPostgres pf (cfg_DatabaseURL cfg)) ''failed to connect to postgres'' (
     connect_redis cfg srv))"

text \<open>The retry worker and the scheduler; the maintenance run, which is named before its settings are checked.\<close>

definition store_startup :: "platform \<Rightarrow> config \<Rightarrow> ('s, unit) sm" where
  "store_startup pf cfg =
     unless_exit (Validate (pf_uri pf) cfg) ''invalid configuration'' (
     unless_exit (NewPostgres pf (cfg_DatabaseURL cfg)) ''failed to connect to postgres'' (return ()))"

definition maintenance_startup :: "platform \<Rightarrow> config \<Rightarrow> ('s, unit) sm" where
  "maintenance_startup pf cfg = store_startup pf (cfg\<lparr>cfg_AppName := ''maintenance''\<rparr>)"

definition api_startup :: "platform \<Rightarrow> config \<Rightarrow> ('t, 'r) redis_server \<Rightarrow> ('t, 'r, 'y, unit) qm" where
  "api_startup pf cfg srv =
     unless_exit (ValidateForAPI (pf_uri pf) cfg) ''invalid configuration'' (
     unless_exit (SetupTelemetry pf cfg) ''failed to initialize telemetry'' (
     unless_exit (NewPostgres pf (cfg_DatabaseURL cfg)) ''failed to connect to postgres'' (
     connect_redis cfg srv)))"

text \<open>
  The API process serves until a signal comes or the server fails; after a signal the server is shut down.
\<close>

record http_server =
  hs_Addr :: string
  hs_ReadHeaderTimeout :: duration
  hs_ReadTimeout :: duration
  hs_WriteTimeout :: duration
  hs_IdleTimeout :: duration

definition api_server :: "config \<Rightarrow> http_server" where
  "api_server cfg = \<lparr>hs_Addr = '':'' @ cfg_HTTPPort cfg, hs_ReadHeaderTimeout = cfg_HTTPReadHeaderTimeout cfg,
     hs_ReadTimeout = cfg_HTTPReadTimeout cfg, hs_WriteTimeout = cfg_HTTPWriteTimeout cfg,
     hs_IdleTimeout = cfg_HTTPIdleTimeout cfg\<rparr>"

datatype server_event = Signalled bool | ServerStopped

definition api_end :: "server_event \<Rightarrow> ('s, unit) sm" where
  "api_end event = (case event of
     ServerStopped \<Rightarrow> exit_with ''server exited with error''
   | Signalled shutdownOk \<Rightarrow> if shutdownOk then return () else exit_with ''failed to shut down http server'')"

text \<open>
  The loops on a ticker: a pass, whose error is only logged, then the end if the context is done, or the next
  tick.  The number counts the ticks before the context is done.
\<close>

fun ticker_loop :: "nat \<Rightarrow> ('s, unit) sm \<Rightarrow> ('s, unit) sm" where
  "ticker_loop 0 pass = ignore pass"
| "ticker_loop (Suc ticks) pass = andThen (ignore pass) (\<lambda>_. ticker_loop ticks pass)"

subsection \<open>A running worker process\<close>

definition worker_poll :: "nat \<Rightarrow> job_codec \<Rightarrow> ('t, 'r) redis_server \<Rightarrow> config \<Rightarrow> 'x worker_process \<Rightarrow>
    (('t, 'r, 'y) redis_world_scheme \<times> 'd, reserved_job) sm" where
  "worker_poll polls jc srv cfg p =
     on_queue (ReserveChannel polls jc srv (wp_queueName p) (cfg_QueueBlockTimeout cfg div second))"

definition worker_run :: "('t, 'r) redis_server \<Rightarrow> 'x worker_process \<Rightarrow> reserved_job \<Rightarrow>
    ('t, 'r, 'y) redis_world_scheme \<times> 'x worker_world_scheme \<Rightarrow> ('t, 'r, 'y) redis_world_scheme \<times> 'x worker_world_scheme" where
  "worker_run srv p j w = snd (runReserved (wp_processor p) srv j w)"

text \<open>
  The own steps of the process: those of the loop of the worker, the ticks of the recovery loop (there is none
  unless its interval is positive), and the questions for the depth of a queue.
\<close>

inductive own_step ::
    "nat \<Rightarrow> nat \<Rightarrow> job_codec \<Rightarrow> ('t, 'r) redis_server \<Rightarrow> config \<Rightarrow> 'x worker_process \<Rightarrow>
     (('t, 'r, 'y) redis_world_scheme \<times> 'x worker_world_scheme) worker_loop \<Rightarrow>
     (('t, 'r, 'y) redis_world_scheme \<times> 'x worker_world_scheme) worker_loop \<Rightarrow> bool"
  for polls fuel jc srv cfg p where
  Loop: "worker_step (Concurrency (wp_Concurrency p)) (worker_poll polls jc srv cfg p) (worker_run srv p) s s' \<Longrightarrow>
    own_step polls fuel jc srv cfg p s s'"
| Tick: "0 < cfg_RecoveryInterval cfg \<Longrightarrow>
    own_step polls fuel jc srv cfg p s
      (s\<lparr>wl_world := snd (on_queue (RecoverProcessingQueues fuel srv) (wl_world s))\<rparr>)"
| Depth: "own_step polls fuel jc srv cfg p s
      (s\<lparr>wl_world := snd (on_queue (worker_QueueDepth srv channel) (wl_world s))\<rparr>)"

text \<open>The states of a process among others, which change the lists and the tables in any way between its steps.\<close>

inductive process_reaches ::
    "nat \<Rightarrow> nat \<Rightarrow> job_codec \<Rightarrow> ('t, 'r) redis_server \<Rightarrow> config \<Rightarrow> 'x worker_process \<Rightarrow>
     ('t, 'r, 'y) redis_world_scheme \<times> 'x worker_world_scheme \<Rightarrow>
     (('t, 'r, 'y) redis_world_scheme \<times> 'x worker_world_scheme) worker_loop \<Rightarrow> bool"
  for polls fuel jc srv cfg p w where
  Began: "process_reaches polls fuel jc srv cfg p w (worker_start (wp_TenantBurst p) (wp_TenantMaxInFlight p) w)"
| Own: "process_reaches polls fuel jc srv cfg p w s \<Longrightarrow> own_step polls fuel jc srv cfg p s s' \<Longrightarrow>
    process_reaches polls fuel jc srv cfg p w s'"
| Others: "process_reaches polls fuel jc srv cfg p w s \<Longrightarrow>
    process_reaches polls fuel jc srv cfg p w
      (s\<lparr>wl_world := ((fst (wl_world s))\<lparr>rw_data := r\<rparr>, (snd (wl_world s))\<lparr>w_db := d\<rparr>)\<rparr>)"

subsection \<open>What a process does to the lists and the tables\<close>

lemma moves_Deps [moves_intros]:
  "obeys moves w_db IDGenerator" "obeys moves w_db RandSource"
  by (simp_all add: obeys_def IDGenerator_def RandSource_def mv.refl)

lemma moves_talks: "talks m P \<Longrightarrow> obeys moves w_db m"
  unfolding talks_def obeys_def
proof
  fix s
  assume "\<forall>w. \<exists>es x. m w = (Inr x, w\<lparr>ww_log := ww_log w @ es\<rparr>) \<and> P es x"
  then obtain es x where "m s = (Inr x, s\<lparr>ww_log := ww_log s @ es\<rparr>)" by blast
  then show "moves (w_db s) (w_db (snd (m s)))" by (simp add: mv.refl)
qed

lemma moves_process:
  assumes "sender_contract sender"
  shows "obeys moves w_db (process p sender job)"
proof -
  note [moves_intros] = moves_talks [OF sender_contract.sends [OF assms]]
  show ?thesis
    unfolding process_def deliver_def record_sent_def handleRetryable_def failTerminal_def suppress_duplicate_def
      audit_def nextRetryAt_def
    by (intro moves_intros mv.db_compose)
qed

context redis_lists
begin

lemma held_drained:
  assumes "q \<in> sources" "t \<in> sources"
  shows "held q v (drained j (ProcessingQueueName t) t B) = held q v B"
proof -
  let ?l = "B (ProcessingQueueName t)"
  have "count_list (drop n ?l) v + count_list (take n ?l) v = count_list ?l v" for n
    by (metis append_take_drop_id count_list_append add.commute)
  with source_apart [OF assms(1,2)] source_apart [OF assms(2,1)] not_own_processing [of t] show ?thesis
    by (auto simp: held_def drained_def)
qed

definition harmless :: "('t, 'r, 'y) redis_world_scheme \<Rightarrow> ('t, 'r, 'y) redis_world_scheme \<Rightarrow> bool" where
  "harmless w w' = (steady w' \<and> (\<forall>q \<in> sources. \<forall>v. held q v (contents (rw_data w)) \<le> held q v (contents (rw_data w'))))"

lemma harmless_refl: "steady w \<Longrightarrow> harmless w w"
  by (simp add: harmless_def)

lemma harmless_trans: "harmless w u \<Longrightarrow> harmless u w' \<Longrightarrow> harmless w w'"
  unfolding harmless_def by (meson le_trans)

lemma recover_all_harmless:
  "steady w \<Longrightarrow> set queues \<subseteq> sources \<Longrightarrow> recover_all fuel srv queues results w = (x, w') \<Longrightarrow>
   (\<exists>y. x = Inr y) \<and> harmless w w'"
proof (induction queues arbitrary: results w)
  case (Cons t queues)
  obtain y u where y: "RecoverProcessingQueue fuel srv t w = (y, u)" by (cases "RecoverProcessingQueue fuel srv t w")
  have t: "t \<in> sources" using Cons.prems(2) by simp
  from recover_loop_outcome [OF Cons.prems(1) t y [unfolded RecoverProcessingQueue_def]]
  obtain m j e where r: "y = Inr (0 + int m, e)" "steady u"
    "contents (rw_data u) = drained j (ProcessingQueueName t) t (contents (rw_data w))" by blast
  have u: "harmless w u" using r(2,3) t by (simp add: harmless_def held_drained)
  show ?case
  proof (cases e)
    case None
    then have "recover_all fuel srv queues (results @ [(t, int m)]) u = (x, w')"
      using Cons.prems(3) y r(1) by (simp add: andThen_def handle_def)
    from Cons.IH [OF r(2) _ this] Cons.prems(2) u show ?thesis by (auto intro: harmless_trans)
  next
    case (Some e')
    then show ?thesis using Cons.prems(3) y r(1) u by (auto simp: andThen_def handle_def return_def)
  qed
qed (auto simp: return_def harmless_refl)

lemma recovery_harmless:
  assumes "steady w" "RecoverProcessingQueues fuel srv w = (x, w')"
  shows "x = Inr () \<and> harmless w w'"
  using recover_all_harmless [OF assms(1), of "[DispatchQueueName, DispatchWebhookQueueName, DispatchEmailQueueName]" fuel "[]"]
    assms(2)
  by (auto simp: RecoverProcessingQueues_def RecoverKnownProcessingQueues_def sources_def andThen_def handle_def
      return_def fail_def split: prod.splits sum.splits)

lemma depth_harmless:
  assumes "steady w" "worker_QueueDepth srv channel w = (x, w')"
  shows "(\<exists>n. x = Inr n) \<and> harmless w w'"
proof (cases "QueueNameForChannel channel")
  case None
  then show ?thesis using assms by (auto simp: worker_QueueDepth_def return_def harmless_refl)
next
  case (Some name)
  obtain y u where y: "QueueDepth srv name w = (y, u)" by (cases "QueueDepth srv name w")
  have n: "name \<in> sources" using channel_queue_source [OF Some] by blast
  have "run_op jc srv (OpDepth name) w = (case y of Inl e \<Rightarrow> Inl e | Inr n \<Rightarrow> Inr (Count n), u)" for jc
    using y by (simp add: andThen_def handle_def fail_def return_def split: sum.split)
  from op_counts [OF assms(1) _ _ this] n have "harmless w u"
    by (auto simp: harmless_def)
  moreover have "w' = u" "\<exists>n. x = Inr n"
    using assms(2) Some y by (auto simp: worker_QueueDepth_def handle_def return_def split: sum.splits)
  ultimately show ?thesis by simp
qed

text \<open>A worker in a sound state knows only jobs that it reserved from its queue.\<close>

definition owns :: "'x worker_process \<Rightarrow> (('t, 'r, 'y) redis_world_scheme \<times> 'x worker_world_scheme) worker_loop \<Rightarrow> bool" where
  "owns p s = (steady (fst (wl_world s)) \<and> loop_sound (Concurrency (wp_Concurrency p)) (wp_TenantMaxInFlight p) s
     \<and> (\<forall>r \<in> set (wl_reserved s). \<exists>v. r = reservation (wp_queueName p) (rsv_Job r) v))"

definition effect_of ::
    "'x worker_process \<Rightarrow> (('t, 'r, 'y) redis_world_scheme \<times> 'x worker_world_scheme) worker_loop \<Rightarrow>
     (('t, 'r, 'y) redis_world_scheme \<times> 'x worker_world_scheme) worker_loop \<Rightarrow> bool" where
  "effect_of p s s' = (moves (w_db (snd (wl_world s))) (w_db (snd (wl_world s')))
     \<and> (\<forall>q \<in> sources. \<forall>v. held q v (contents (rw_data (fst (wl_world s))))
       \<le> held q v (contents (rw_data (fst (wl_world s'))))
         + of_bool (q = wp_queueName p \<and> (\<exists>j. wl_finished s' = wl_finished s @ [j] \<and> rsv_payload j = v))))"

lemma effect_none: "wl_world s' = wl_world s \<Longrightarrow> effect_of p s s'"
  by (simp add: effect_of_def mv.refl)

lemma effect_harmless:
  "harmless (fst (wl_world s)) (fst (wl_world s')) \<Longrightarrow> snd (wl_world s') = snd (wl_world s) \<Longrightarrow> effect_of p s s'"
  by (auto simp: effect_of_def harmless_def mv.refl intro: trans_le_add1 le_SucI)

lemma running_reserved:
  assumes "loop_sound conc maxFlight s" "wl_jobs s = xs @ (j, Running) # ys"
  shows "j \<in> set (wl_reserved s)"
proof -
  have "j \<in># mset (running_jobs (wl_jobs s))" using assms(2) by (simp add: running_jobs_def)
  then have "j \<in># mset (wl_started s)" using assms(1) unfolding loop_sound_def by (metis union_iff)
  then have "j \<in> set (of_tenant (tenant_of j) (wl_started s))" by (simp add: of_tenant_def)
  moreover have "of_tenant (tenant_of j) (wl_started s) @ fs_pending (wl_sched s) (tenant_of j)
      = of_tenant (tenant_of j) (wl_reserved s)"
    using assms(1) by (simp add: loop_sound_def)
  ultimately have "j \<in> set (of_tenant (tenant_of j) (wl_reserved s))" by (metis Un_iff set_append)
  then show ?thesis by (simp add: of_tenant_def)
qed

lemma loop_effect:
  assumes "owns p s" "wp_queueName p \<in> sources" "\<And>job. obeys moves w_db (wp_processor p job)"
    "worker_step (Concurrency (wp_Concurrency p)) (worker_poll polls jc srv cfg p) (worker_run srv p) s s'"
  shows "owns p s' \<and> effect_of p s s'"
proof -
  have sound: "loop_sound (Concurrency (wp_Concurrency p)) (wp_TenantMaxInFlight p) s'"
    using sound_step [OF assms(4)] assms(1) by (simp add: owns_def)
  have st: "steady (fst (wl_world s))" and own: "\<And>r. r \<in> set (wl_reserved s) \<Longrightarrow> \<exists>v. r = reservation (wp_queueName p) (rsv_Job r) v"
    using assms(1) by (auto simp: owns_def)
  have polled: "steady (fst w) \<and> snd w = snd (wl_world s)
      \<and> harmless (fst (wl_world s)) (fst w) \<and> (\<forall>r. x = Inr r \<longrightarrow> (\<exists>v. r = reservation (wp_queueName p) (rsv_Job r) v))"
    if "worker_poll polls jc srv cfg p (wl_world s) = (x, w)" for x w
  proof -
    obtain u where u: "ReserveChannel polls jc srv (wp_queueName p) (cfg_QueueBlockTimeout cfg div second) (fst (wl_world s)) = (x, u)"
      "w = (u, snd (wl_world s))"
      using \<open>worker_poll polls jc srv cfg p (wl_world s) = (x, w)\<close> by (auto simp: worker_poll_def on_queue_def split: prod.splits)
    from reserve_counts [OF st assms(2) _ u(1) [unfolded ReserveChannel_def]] assms(2) show ?thesis
      unfolding harmless_def u(2) by auto
  qed
  have ran: "steady (fst (worker_run srv p j (wl_world s)))
      \<and> moves (w_db (snd (wl_world s))) (w_db (snd (worker_run srv p j (wl_world s))))
      \<and> (\<forall>q \<in> sources. \<forall>v. held q v (contents (rw_data (fst (wl_world s))))
          \<le> held q v (contents (rw_data (fst (worker_run srv p j (wl_world s)))))
            + of_bool (q = wp_queueName p \<and> rsv_payload j = v))"
    if "wl_jobs s = xs @ (j, Running) # ys" for xs j ys
  proof -
    have "j \<in> set (wl_reserved s)" using running_reserved that assms(1) unfolding owns_def by blast
    then obtain v where v: "j = reservation (wp_queueName p) (rsv_Job j) v" using own by blast
    then have pv: "rsv_payload j = v" by (metis reservation_def reserved_job.select_convs(4))
    obtain x w where r: "runReserved (wp_processor p) srv j (wl_world s) = (x, w)"
      by (cases "runReserved (wp_processor p) srv j (wl_world s)")
    note rr = runReserved_runs [OF r]
    obtain a u where a: "AckReserved srv (reservation (wp_queueName p) (rsv_Job j) v) (fst (wl_world s)) = (a, u)"
      by (cases "AckReserved srv (reservation (wp_queueName p) (rsv_Job j) v) (fst (wl_world s))")
    have w: "worker_run srv p j (wl_world s) = w" "fst w = u" "snd w = snd (wp_processor p (rsv_Job j) (snd (wl_world s)))"
      using rr r a v by (auto simp: worker_run_def)
    have "moves (w_db (snd (wl_world s))) (w_db (snd w))"
      using assms(3) unfolding obeys_def w(3) by blast
    with ack_counts [OF st assms(2) _ a] assms(2) w pv show ?thesis by (auto simp: eq_commute)
  qed
  from assms(4) show ?thesis
  proof cases
    case (Reserve j w)
    then show ?thesis using polled [OF Reserve(3)] own sound
      by (auto simp: owns_def intro!: effect_harmless)
  next
    case (ReserveFails e w)
    then show ?thesis using polled [OF ReserveFails(3)] own sound
      by (auto simp: owns_def intro!: effect_harmless)
  next
    case (Finish xs j ys)
    then show ?thesis using ran [OF Finish(2)] own sound by (auto simp: owns_def effect_of_def)
  qed (use sound st own in \<open>auto simp: owns_def intro: effect_none\<close>)
qed

lemma own_effect:
  assumes "owns p s" "wp_queueName p \<in> sources" "\<And>job. obeys moves w_db (wp_processor p job)"
    "own_step polls fuel jc srv cfg p s s'"
  shows "owns p s' \<and> effect_of p s s'"
  using assms(4)
proof cases
  case Loop
  then show ?thesis by (rule loop_effect [OF assms(1-3)])
next
  case Tick
  obtain x u where u: "RecoverProcessingQueues fuel srv (fst (wl_world s)) = (x, u)"
    by (cases "RecoverProcessingQueues fuel srv (fst (wl_world s))")
  have "harmless (fst (wl_world s)) u" using recovery_harmless [OF _ u] assms(1) by (simp add: owns_def)
  then show ?thesis using assms(1) Tick u
    by (auto simp: on_queue_def owns_def harmless_def loop_sound_def intro!: effect_harmless)
next
  case (Depth channel)
  obtain x u where u: "worker_QueueDepth srv channel (fst (wl_world s)) = (x, u)"
    by (cases "worker_QueueDepth srv channel (fst (wl_world s))")
  have "harmless (fst (wl_world s)) u" using depth_harmless [OF _ u] assms(1) by (simp add: owns_def)
  then show ?thesis using assms(1) Depth u
    by (auto simp: on_queue_def owns_def harmless_def loop_sound_def intro!: effect_harmless)
qed

lemma owns_reached:
  assumes "process_reaches polls fuel jc srv cfg p w s" "steady (fst w)" "wp_queueName p \<in> sources"
    "\<And>job. obeys moves w_db (wp_processor p job)"
  shows "owns p s"
  using assms(1)
proof induction
  case Began
  show ?case using assms(2) loop_sound_start [of _ "wp_TenantMaxInFlight p"] by (simp add: owns_def) (simp add: worker_start_def)
next
  case (Own s s')
  then show ?case using own_effect [OF _ assms(3,4)] by blast
next
  case (Others s r d)
  then show ?case by (simp add: owns_def loop_sound_def)
qed

lemma startup_settles:
  assumes "worker_startup pf cfg appName fuel srv w = (Inr cfg', w')"
    "cfg_RedisPassword cfg = password" "cfg_RedisDB cfg = db"
    "\<And>r. \<exists>v. rs_exec srv [''PING''] (ready, r) = (v, ready, r)"
  shows "Validate (pf_uri pf) cfg = None" "cfg' = cfg\<lparr>cfg_AppName := appName\<rparr>" "steady w'"
proof -
  let ?c = "cfg\<lparr>cfg_AppName := appName\<rparr>"
  let ?w = "w\<lparr>rq_password := password, rq_db := db, rq_conn := None\<rparr>"
  have s: "steady ?w" by (simp add: settled_def down_def)
  obtain y u where y: "Ping srv ?w = (y, u)" by (cases "Ping srv ?w")
  obtain x v where v: "RecoverProcessingQueues fuel srv u = (x, v)" by (cases "RecoverProcessingQueues fuel srv u")
  show "Validate (pf_uri pf) cfg = None" using assms(1)
    by (auto simp: worker_startup_def unless_exit_def exit_with_def fail_def split: if_splits)
  then have run: "cfg' = ?c \<and> w' = v" using assms(1-3) y v
    by (auto simp: worker_startup_def unless_exit_def exit_with_def connect_redis_def NewRedisQueue_def andThen_def
        handle_def fail_def return_def Let_def split: if_splits sum.splits)
  then show "cfg' = ?c" by blast
  have "steady u"
  proof -
    obtain z t where z: "request srv [''PING''] ?w = (z, t)" by (cases "request srv [''PING''] ?w")
    have "u = t" using y z by (auto simp: Ping_def andThen_def handle_def fail_def return_def split: sum.splits if_splits)
    moreover from z have "steady t"
    proof (rule request_outcome [OF s])
      fix v tx r
      assume "rs_exec srv [''PING''] (ready, rw_data ?w) = (v, tx, r)"
        "failed z \<and> steady t \<or> z = read_as v \<and> (\<exists>y. z = Inr y) \<and> (tx = ready \<longrightarrow> steady t)"
      with assms(4) [of "rw_data ?w"] show "steady t" by auto
    qed
    ultimately show ?thesis by simp
  qed
  from recovery_harmless [OF this v] run show "steady w'" by (simp add: harmless_def)
qed

end

lemma moves_workers:
  "obeys moves w_db (wp_processor (webhook_worker cfg depth tt) job)"
  "obeys moves w_db (wp_processor (email_worker cfg depth tt) job)"
  by (simp_all add: webhook_worker_def email_worker_def ProcessWebhook_def ProcessEmail_def moves_process
      webhook.sender_contract_axioms email.sender_contract_axioms)

text \<open>
  C39.  A worker process, from its start on.  It starts only with accepted settings; from then on, whatever other
  processes do to the lists and the tables in between: it never runs more jobs than its configured concurrency, nor
  more of one tenant than configured; none of its steps (of the loop, of its jobs, of the recovery of stranded jobs, of
  the retry policy) takes a payload out of the lists but the acknowledgement of a job of its own queue whose
  processing it has just ended; and its steps move rows of the tables only forward.
\<close>

theorem worker_process_safe:
  assumes "redis_lists srv authed ready (cfg_RedisPassword cfg) (cfg_RedisDB cfg) contents queued"
    "\<And>r. \<exists>v. rs_exec srv [''PING''] (ready, r) = (v, ready, r)"
    "worker_startup pf cfg appName fuel srv q0 = (Inr cfg', q)"
    "p = webhook_worker cfg' depth tt \<or> p = email_worker cfg' depth tt"
    "process_reaches polls fuel jc srv cfg' p (q, d) s" "own_step polls fuel jc srv cfg' p s s'"
  shows "int (length (running_jobs (wl_jobs s'))) \<le> wp_Concurrency p
    \<and> int (length (of_tenant t (running_jobs (wl_jobs s')))) \<le> cfg_PerTenantMaxInFlight cfg
    \<and> moves (w_db (snd (wl_world s))) (w_db (snd (wl_world s')))
    \<and> (\<forall>k \<in> sources. \<forall>v. held k v (contents (rw_data (fst (wl_world s))))
         \<le> held k v (contents (rw_data (fst (wl_world s'))))
           + of_bool (k = wp_queueName p \<and> (\<exists>j. wl_finished s' = wl_finished s @ [j] \<and> rsv_payload j = v)))"
proof -
  note start = redis_lists.startup_settles [OF assms(1,3) refl refl assms(2)]
  have valid: "0 < cfg_EmailWorkerConcurrency cfg" "0 < cfg_WebhookWorkerConcurrency cfg" "0 < cfg_PerTenantMaxInFlight cfg"
    using start(1) unfolding Validate_def first_error_None positiveDuration_def
    by (simp_all only: list.set ball_simps prod.case not_le not_less)
  have p: "wp_queueName p \<in> sources" "0 < wp_Concurrency p" "wp_TenantMaxInFlight p = cfg_PerTenantMaxInFlight cfg"
    using assms(4) valid start(2) by (auto simp: webhook_worker_def email_worker_def sources_def)
  have mv: "obeys moves w_db (wp_processor p job)" for job using assms(4) moves_workers by blast
  have "redis_lists.owns ready (cfg_RedisPassword cfg) (cfg_RedisDB cfg) p s"
    by (rule redis_lists.owns_reached [OF assms(1,5) _ p(1) mv]) (simp add: start(3))
  from redis_lists.own_effect [OF assms(1) this p(1) mv assms(6)]
  have o: "redis_lists.owns ready (cfg_RedisPassword cfg) (cfg_RedisDB cfg) p s'"
    and e: "redis_lists.effect_of contents p s s'" by blast+
  note i = o [unfolded redis_lists.owns_def [OF assms(1)] loop_sound_def]
  have "length (running_jobs (wl_jobs s')) \<le> Concurrency (wp_Concurrency p)" using i running_sem [of "wl_jobs s'"] by linarith
  then have 1: "int (length (running_jobs (wl_jobs s'))) \<le> wp_Concurrency p" using p(2) by (simp add: Concurrency_def split: if_splits)
  have "int (jobs_of t (wl_jobs s')) \<le> max 1 (cfg_PerTenantMaxInFlight cfg)"
    using i sched_invar_range [of "wl_sched s'" t] p(3) by metis
  then have 2: "int (length (of_tenant t (running_jobs (wl_jobs s')))) \<le> cfg_PerTenantMaxInFlight cfg"
    using running_of_tenant [of t "wl_jobs s'"] valid(3) by linarith
  from 1 2 e [unfolded redis_lists.effect_of_def [OF assms(1)]] show ?thesis by blast
qed

text \<open>
  The witness: while another worker is busy with a job, the recovery of this process puts the job back into the
  queue, where it is reserved a second time.
\<close>

definition all_up :: platform where
  "all_up = \<lparr>pf_uri = (\<lambda>_. True), pf_resource = (\<lambda>_. True), pf_traces = (\<lambda>_. True),
     pf_metrics = (\<lambda>_. True), pf_open = (\<lambda>_. True), pf_ping = (\<lambda>_. True)\<rparr>"

definition worker_settings :: config where
  "worker_settings = (Load (\<lambda>_. []))\<lparr>cfg_RedisPassword := ref_secret, cfg_RedisDB := 2\<rparr>"

definition email_startup where
  "email_startup = email_main all_up worker_settings 2 ref_server (new_client [] empty_keys)"

definition busy_elsewhere where
  "busy_elsewhere = (worker_start 1 2 (snd email_startup, offline_worker))
     \<lparr>wl_world := ((snd email_startup)\<lparr>rw_data := reserved_keys\<rparr>, offline_worker)\<rparr>"

definition recovered_here where
  "recovered_here = busy_elsewhere\<lparr>wl_world := snd (on_queue (RecoverProcessingQueues 2 ref_server) (wl_world busy_elsewhere))\<rparr>"

theorem worker_process_safe_witness:
  "1 \<le> held DispatchEmailQueueName ''p'' (ref_contents (rw_data (fst (wl_world recovered_here))))
   \<and> ref_contents (rw_data (fst (wl_world recovered_here))) DispatchEmailQueueName = [''p'']"
proof -
  have ok: "\<not> isl (fst email_startup)" by code_simp
  then obtain c where c: "email_startup = (Inr c, snd email_startup)" by (cases "fst email_startup") (auto simp: prod_eq_iff)
  have ping: "\<exists>v. rs_exec ref_server [''PING''] (ref_ready 2, r) = (v, ref_ready 2, r)" for r
    by (simp add: ref_defs)
  have same: "cfg_RedisPassword worker_settings = ref_secret" "cfg_RedisDB worker_settings = 2"
    by (simp_all add: worker_settings_def)
  have start: "worker_startup all_up worker_settings ''email-worker'' 2 ref_server (new_client [] empty_keys) = (Inr c, snd email_startup)"
    using c unfolding email_startup_def email_main_def .
  have lists: "redis_lists ref_server (ref_ready 0) (ref_ready 2) (cfg_RedisPassword worker_settings) (cfg_RedisDB worker_settings)
      ref_contents ref_queued"
    using ref.redis_lists_axioms by (simp add: same)
  have cc: "c = worker_settings\<lparr>cfg_AppName := ''email-worker''\<rparr>"
    using ref.startup_settles(2) [OF start same ping] .
  let ?p = "email_worker c (\<lambda>_. 0) plain_text :: unit worker_process"
  have l: "cfg_PerTenantWorkerBurst worker_settings = 1" "cfg_PerTenantMaxInFlight worker_settings = 2"
    "0 < cfg_RecoveryInterval worker_settings" by code_simp+
  have p: "wp_TenantBurst ?p = 1" "wp_TenantMaxInFlight ?p = 2" "0 < cfg_RecoveryInterval c"
    using l by (simp_all add: email_worker_def cc)
  have b: "process_reaches 1 2 id_codec ref_server c ?p (snd email_startup, offline_worker) busy_elsewhere"
    using process_reaches.Others [OF process_reaches.Began, of 1 2 id_codec ref_server c ?p "(snd email_startup, offline_worker)"
        reserved_keys "w_db offline_worker"]
    by (simp add: busy_elsewhere_def p worker_start_def)
  have t: "own_step 1 2 id_codec ref_server c ?p busy_elsewhere recovered_here"
    unfolding recovered_here_def by (rule own_step.Tick) (rule p(3))
  have h: "held DispatchEmailQueueName ''p'' (ref_contents (rw_data (fst (wl_world busy_elsewhere)))) = 1" by code_simp
  have r: "ref_contents (rw_data (fst (wl_world recovered_here))) DispatchEmailQueueName = [''p'']" by code_simp
  have "wl_finished recovered_here = wl_finished busy_elsewhere" by (simp add: recovered_here_def)
  with worker_process_safe [OF lists ping start disjI2 [OF refl] b t]
  have "held DispatchEmailQueueName ''p'' (ref_contents (rw_data (fst (wl_world busy_elsewhere))))
      \<le> held DispatchEmailQueueName ''p'' (ref_contents (rw_data (fst (wl_world recovered_here))))"
    by (simp add: sources_def)
  with h r show ?thesis by simp
qed

end
