(* ===== verification/Scheduler_Progress.thy ===== *)
theory Scheduler_Progress
  imports Store_Operations Outbox_Publisher
begin

text \<open>
  The scheduler catches up: a pass over a database that answers promotes the fifty notifications that are due for
  longest, so that what was due when the process started is promoted after as many passes as it fills.
\<close>

subsection \<open>What waits for promotion\<close>

definition unpromoted :: "time \<Rightarrow> db \<Rightarrow> (string \<times> string) set" where
  "unpromoted now d = (\<lambda>(n, a). (ntf_ID n, att_ID a)) ` set (promotable now d)"

definition first_attempt :: "attempt \<Rightarrow> bool" where
  "first_attempt a = (att_EnqueueKind a = ''initial'' \<and> att_AttemptNumber a = 1)"

text \<open>
  Tables as the API fills them: a notification has one first attempt, its variables are an object or null, and the
  identifier of an intent to come is not that of the intent of another attempt.
\<close>

definition schedulable :: "db \<Rightarrow> bool" where
  "schedulable d = (wf_db d \<and> distinct (map att_NotificationID (filter first_attempt (db_attempts d)))
     \<and> list_all (\<lambda>n. \<not> isl (unmarshalVariables (ntf_Variables n))) (db_notifications d)
     \<and> list_all (\<lambda>a. has_intent d a \<or> ''intent-'' @ att_ID a \<notin> int_ID ` set (db_outbox d)) (db_attempts d))"

lemma set_promotable: "(n, a) \<in> set (promotable now d) \<longleftrightarrow> n \<in> set (db_notifications d) \<and> due now n
     \<and> a \<in> set (initial_attempts d n) \<and> \<not> has_intent d a \<and> \<not> sql_paused (ntf_TenantID n) (att_Channel a) d"
  by (auto simp: promotable_def)

lemma set_initial: "a \<in> set (initial_attempts d n) \<longleftrightarrow>
    a \<in> set (db_attempts d) \<and> att_NotificationID a = ntf_ID n \<and> first_attempt a"
  by (auto simp: initial_attempts_def first_attempt_def)

lemma one_first:
  assumes "schedulable d" "a \<in> set (db_attempts d)" "b \<in> set (db_attempts d)" "first_attempt a" "first_attempt b"
    "att_NotificationID a = att_NotificationID b"
  shows "a = b"
  using assms unfolding schedulable_def by (auto simp: distinct_map inj_on_def)

lemma same_attempt:
  "wf_db d \<Longrightarrow> a \<in> set (db_attempts d) \<Longrightarrow> b \<in> set (db_attempts d) \<Longrightarrow> att_ID a = att_ID b \<Longrightarrow> a = b"
  by (auto simp: wf_db_defs distinct_map inj_on_def)

subsection \<open>What a promotion changes\<close>

definition core :: "notification \<Rightarrow> notification" where
  "core n = n\<lparr>ntf_Status := NScheduled, ntf_PromotedAt := None, ntf_UpdatedAt := 0\<rparr>"

definition kept_row :: "(string \<times> string) set \<Rightarrow> notification \<Rightarrow> notification \<Rightarrow> bool" where
  "kept_row K n n' = (core n' = core n
     \<and> (ntf_PromotedAt n' = None \<longleftrightarrow> ntf_PromotedAt n = None \<and> ntf_ID n \<notin> fst ` K))"

definition promotes :: "(string \<times> string) set \<Rightarrow> db \<Rightarrow> db \<Rightarrow> bool" where
  "promotes K d d' = (db_attempts d' = db_attempts d \<and> db_policies d' = db_policies d \<and> db_tenants d' = db_tenants d
     \<and> list_all2 (kept_row K) (db_notifications d) (db_notifications d')
     \<and> set (db_outbox d) \<subseteq> set (db_outbox d') \<and> snd ` K \<subseteq> int_AttemptID ` set (db_outbox d')
     \<and> (\<forall>i \<in> set (db_outbox d'). i \<in> set (db_outbox d)
          \<or> int_ID i = ''intent-'' @ int_AttemptID i \<and> int_AttemptID i \<in> snd ` K))"

lemma core_fields:
  assumes "core n' = core n"
  shows "ntf_ID n' = ntf_ID n" "ntf_ScheduledFor n' = ntf_ScheduledFor n" "ntf_CancelledAt n' = ntf_CancelledAt n"
    "ntf_TenantID n' = ntf_TenantID n" "ntf_Variables n' = ntf_Variables n"
  using assms unfolding core_def by (cases n; cases n'; simp)+

lemma promotes_refl: "promotes {} d d"
  by (simp add: promotes_def kept_row_def list.rel_refl)

lemma promotes_trans:
  assumes "promotes K d e" "promotes L e f"
  shows "promotes (K \<union> L) d f"
proof -
  have "list_all2 (kept_row (K \<union> L)) (db_notifications d) (db_notifications f)"
  proof (rule list_all2_trans)
    show "list_all2 (kept_row K) (db_notifications d) (db_notifications e)"
      "list_all2 (kept_row L) (db_notifications e) (db_notifications f)"
      using assms by (simp_all add: promotes_def)
    show "kept_row (K \<union> L) x z" if "kept_row K x y" "kept_row L y z" for x y z
      using that core_fields(1) [of y x] by (auto simp: kept_row_def image_Un)
  qed
  moreover have "snd ` (K \<union> L) \<subseteq> int_AttemptID ` set (db_outbox f)"
    using assms unfolding promotes_def image_Un by (meson Un_least image_mono order_trans)
  moreover have "i \<in> set (db_outbox d) \<or> int_ID i = ''intent-'' @ int_AttemptID i \<and> int_AttemptID i \<in> snd ` (K \<union> L)"
    if "i \<in> set (db_outbox f)" for i
    using assms that unfolding promotes_def image_Un by blast
  ultimately show ?thesis using assms unfolding promotes_def by auto
qed

lemma kept_notifications:
  assumes "promotes K d d'"
  shows "n \<in> set (db_notifications d) \<Longrightarrow> \<exists>n' \<in> set (db_notifications d'). kept_row K n n'"
    "n' \<in> set (db_notifications d') \<Longrightarrow> \<exists>n \<in> set (db_notifications d). kept_row K n n'"
  using assms unfolding promotes_def list_all2_conv_all_nth in_set_conv_nth by fastforce+

lemma paused_policies: "db_policies d' = db_policies d \<Longrightarrow> sql_paused t c d' = sql_paused t c d"
  by (simp add: sql_paused_def newest_paused_def)

lemma schedulable_kept:
  assumes "schedulable d" "promotes K d d'" "wf_db d'"
  shows "schedulable d'"
proof -
  have "\<not> isl (unmarshalVariables (ntf_Variables n'))" if "n' \<in> set (db_notifications d')" for n'
  proof -
    from kept_notifications(2) [OF assms(2) that] obtain n where "n \<in> set (db_notifications d)" "kept_row K n n'" by blast
    with assms(1) core_fields(5) [of n' n] show ?thesis by (auto simp: schedulable_def kept_row_def list_all_iff)
  qed
  moreover have "has_intent d' a \<or> ''intent-'' @ att_ID a \<notin> int_ID ` set (db_outbox d')" if "a \<in> set (db_attempts d)" for a
  proof (rule disjCI)
    assume "\<not> ''intent-'' @ att_ID a \<notin> int_ID ` set (db_outbox d')"
    then obtain i where i: "i \<in> set (db_outbox d')" "int_ID i = ''intent-'' @ att_ID a" by auto
    from assms(2) i(1) consider (old) "i \<in> set (db_outbox d)" | (new) "int_ID i = ''intent-'' @ int_AttemptID i"
      unfolding promotes_def by blast
    then show "has_intent d' a"
    proof cases
      case old
      then have "has_intent d a" using assms(1) that i(2) [symmetric] by (auto simp: schedulable_def list_all_iff)
      then show ?thesis using assms(2) by (auto simp: has_intent_def promotes_def)
    next
      case new
      then show ?thesis using i by (simp add: has_intent_def)
    qed
  qed
  ultimately show ?thesis using assms by (auto simp: schedulable_def promotes_def list_all_iff)
qed

lemma unpromoted_after:
  assumes "schedulable d" "promotes K d d'" "K \<subseteq> unpromoted now d"
  shows "unpromoted t d' = unpromoted t d - K"
proof -
  have wf: "wf_db d" using assms(1) by (simp add: schedulable_def)
  note p = assms(2) [unfolded promotes_def]
  have intents: "has_intent d' a \<longleftrightarrow> has_intent d a \<or> att_ID a \<in> snd ` K" for a
  proof -
    have "int_AttemptID ` set (db_outbox d') = int_AttemptID ` set (db_outbox d) \<union> snd ` K"
      using p by (intro equalityI subsetI) (blast, meson UnE image_mono subsetD)
    then show ?thesis by (simp add: has_intent_def)
  qed
  have initial: "initial_attempts d' n' = initial_attempts d n" if "kept_row K n n'" for n n'
    using that p core_fields(1) [of n' n] by (simp add: initial_attempts_def kept_row_def)
  have row: "due t n' \<longleftrightarrow> due t n \<and> ntf_ID n \<notin> fst ` K" "ntf_ID n' = ntf_ID n" "ntf_TenantID n' = ntf_TenantID n"
    if "kept_row K n n'" for n n'
    using that core_fields [of n' n] by (auto simp: due_def kept_row_def)
  have pair: "(ntf_ID n, att_ID a) \<in> K \<longleftrightarrow> ntf_ID n \<in> fst ` K" "(ntf_ID n, att_ID a) \<in> K \<longleftrightarrow> att_ID a \<in> snd ` K"
    if n: "n \<in> set (db_notifications d)" and a: "a \<in> set (initial_attempts d n)" for n a
  proof -
    have "(ntf_ID n, att_ID a) \<in> K" if "(i, k) \<in> K" "i = ntf_ID n \<or> k = att_ID a" for i k
    proof -
      from that(1) assms(3) obtain m b where m: "i = ntf_ID m" "k = att_ID b" "m \<in> set (db_notifications d)"
        "b \<in> set (initial_attempts d m)" by (auto simp: unpromoted_def set_promotable)
      have "a = b"
      proof (cases "i = ntf_ID n")
        case True
        then show ?thesis using a m one_first [OF assms(1)] by (auto simp: set_initial)
      next
        case False
        then show ?thesis using a m that(2) same_attempt [OF wf] by (auto simp: set_initial)
      qed
      then show ?thesis using a m that(1) by (auto simp: set_initial)
    qed
    then show "(ntf_ID n, att_ID a) \<in> K \<longleftrightarrow> ntf_ID n \<in> fst ` K" "(ntf_ID n, att_ID a) \<in> K \<longleftrightarrow> att_ID a \<in> snd ` K"
      by force+
  qed
  have "(i, k) \<in> unpromoted t d' \<longleftrightarrow> (\<exists>n \<in> set (db_notifications d). \<exists>a \<in> set (initial_attempts d n). i = ntf_ID n \<and> k = att_ID a
      \<and> due t n \<and> ntf_ID n \<notin> fst ` K \<and> \<not> has_intent d a \<and> att_ID a \<notin> snd ` K
      \<and> \<not> sql_paused (ntf_TenantID n) (att_Channel a) d)" (is "_ \<longleftrightarrow> ?r") for i k
  proof
    assume "(i, k) \<in> unpromoted t d'"
    then obtain n' a where n': "i = ntf_ID n'" "k = att_ID a" "(n', a) \<in> set (promotable t d')" by (auto simp: unpromoted_def)
    then have "n' \<in> set (db_notifications d')" by (simp add: set_promotable)
    from kept_notifications(2) [OF assms(2) this] obtain n where "n \<in> set (db_notifications d)" "kept_row K n n'" by blast
    with n' show ?r using p row [of n n'] initial [of n n'] intents paused_policies [of d' d] by (auto simp: set_promotable)
  next
    assume ?r
    then obtain n a where n: "n \<in> set (db_notifications d)" "a \<in> set (initial_attempts d n)" "i = ntf_ID n" "k = att_ID a"
      "due t n" "ntf_ID n \<notin> fst ` K" "\<not> has_intent d a" "att_ID a \<notin> snd ` K"
      "\<not> sql_paused (ntf_TenantID n) (att_Channel a) d" by blast
    from kept_notifications(1) [OF assms(2) n(1)] obtain n' where n': "n' \<in> set (db_notifications d')" "kept_row K n n'" by blast
    have "(n', a) \<in> set (promotable t d')"
      using n n' p row [of n n'] initial [of n n'] intents paused_policies [of d' d] by (simp add: set_promotable)
    then show "(i, k) \<in> unpromoted t d'" using n(3,4) row(2) [OF n'(2)] unfolding unpromoted_def by (auto intro: rev_image_eqI)
  qed
  moreover have "(i, k) \<in> unpromoted t d - K \<longleftrightarrow> (\<exists>n \<in> set (db_notifications d). \<exists>a \<in> set (initial_attempts d n). i = ntf_ID n \<and> k = att_ID a
      \<and> due t n \<and> ntf_ID n \<notin> fst ` K \<and> \<not> has_intent d a \<and> att_ID a \<notin> snd ` K
      \<and> \<not> sql_paused (ntf_TenantID n) (att_Channel a) d)" (is "_ \<longleftrightarrow> ?r") for i k
  proof -
    have "(i, k) \<in> unpromoted t d \<longleftrightarrow> (\<exists>n \<in> set (db_notifications d). \<exists>a \<in> set (initial_attempts d n). i = ntf_ID n \<and> k = att_ID a
        \<and> due t n \<and> \<not> has_intent d a \<and> \<not> sql_paused (ntf_TenantID n) (att_Channel a) d)"
      by (force simp: unpromoted_def set_promotable)
    moreover have "(i, k) \<notin> K \<longleftrightarrow> ntf_ID n \<notin> fst ` K \<and> att_ID a \<notin> snd ` K"
      if "n \<in> set (db_notifications d)" "a \<in> set (initial_attempts d n)" "i = ntf_ID n" "k = att_ID a" for n a
      using pair [OF that(1,2)] that(3,4) by blast
    ultimately show ?thesis unfolding Diff_iff by (meson bexI bexE)
  qed
  ultimately show ?thesis by (intro set_eqI) (simp only: split_paired_all)
qed

subsection \<open>A pass\<close>

lemma run_live:
  "run True m d E Q \<Longrightarrow> obeys (moves_live ids) w_db m \<Longrightarrow> wf_db d \<Longrightarrow> live ids d \<Longrightarrow>
     run True m d (\<lambda>e d'. E e d' \<and> wf_db d' \<and> live ids d') (\<lambda>x d'. Q x d' \<and> wf_db d' \<and> live ids d')"
  unfolding run_def obeys_def moves_live_def by (auto split: sum.splits)

abbreviation promote_row :: "time \<Rightarrow> notification \<times> attempt \<Rightarrow> ('x world_scheme, promoted) sm" where
  "promote_row now \<equiv> (\<lambda>(n, a).
     andThen (scanNotification n) (\<lambda>n'.
     andThen (createDispatchIntentTx (promotion_intent n' a ''scheduled'')) (\<lambda>i.
     andThen (mark_promoted (ntf_ID n') now) (\<lambda>_.
     return \<lparr>prm_Notification = n'\<lparr>ntf_PromotedAt := Some now\<rparr>,
       prm_Attempt = scanDeliveryAttempt a, prm_Intent = i\<rparr>))))"

definition intent_added :: "attempt \<Rightarrow> db \<Rightarrow> db \<Rightarrow> bool" where
  "intent_added a d d' = (\<exists>os. d' = d\<lparr>db_outbox := os\<rparr> \<and> set (db_outbox d) \<subseteq> set os
     \<and> att_ID a \<in> int_AttemptID ` set os
     \<and> (\<forall>i \<in> set os. i \<in> set (db_outbox d) \<or> int_ID i = ''intent-'' @ att_ID a \<and> int_AttemptID i = att_ID a))"

lemma run_promotion_intent:
  assumes "schedulable d" "wf_db d" "a \<in> set (db_attempts d)" "n \<in> set (db_notifications d)"
    "ntf_ID n' = ntf_ID n" "ntf_TenantID n' = ntf_TenantID n"
  shows "run True (createDispatchIntentTx (promotion_intent n' a ''scheduled'')) d (\<lambda>_ _. False) (\<lambda>_. intent_added a d)"
proof -
  let ?p = "promotion_intent n' a ''scheduled''"
  have ids: "int_AttemptID (new_intent ?p t) = att_ID a" "int_ID (new_intent ?p t) = ''intent-'' @ att_ID a"
    "channel_ok (int_Channel (new_intent ?p t))" "cip_AttemptID ?p = att_ID a" for t
    using assms(2,3) by (simp_all add: promotion_intent_def new_intent_def wf_db_defs)
  have refs: "notification_exists d (int_NotificationID (new_intent ?p t)) \<and> attempt_exists d (int_AttemptID (new_intent ?p t))
      \<and> tenant_exists d (int_TenantID (new_intent ?p t))" for t
    using assms(2-6) by (auto simp: promotion_intent_def new_intent_def wf_db_defs exists_defs)
  have free: "''intent-'' @ att_ID a \<notin> int_ID ` set (db_outbox d)" if "att_ID a \<notin> int_AttemptID ` set (db_outbox d)"
    using assms(1,3) that by (auto simp: schedulable_def has_intent_def list_all_iff)
  have old: "intent_added a d d" if "att_ID a \<in> int_AttemptID ` set (db_outbox d)"
    unfolding intent_added_def by (rule exI [of _ "db_outbox d"]) (use that in simp)
  have new: "intent_added a d (d\<lparr>db_outbox := db_outbox d @ [new_intent ?p t]\<rparr>)" for t
    unfolding intent_added_def by (rule exI [of _ "db_outbox d @ [new_intent ?p t]"]) (auto simp: ids)
  have again: "\<exists>i is. filter (\<lambda>i. int_AttemptID i = att_ID a) (db_outbox d) = i # is"
    if "att_ID a \<in> int_AttemptID ` set (db_outbox d)"
    using that by (cases "filter (\<lambda>i. int_AttemptID i = att_ID a) (db_outbox d)") (auto simp: filter_empty_conv)
  show ?thesis
    unfolding createDispatchIntentTx_def insert_intent_def
    apply (rule run_or_wrapped, rule run_andThen, rule run_insert_unless)
    subgoal for t
      using refs [of t] again old free new [of t]
      by (cases "att_ID a \<in> int_AttemptID ` set (db_outbox d)")
        (auto simp: ids constrained_def intro!: run_return run_query_row)
    by simp
qed

lemma run_promote_row:
  assumes "schedulable d" "wf_db d" "a \<in> set (db_attempts d)" "n \<in> set (db_notifications d)" "core n' = core n"
  shows "run True (promote_row now (n', a)) d (\<lambda>_ _. False) (\<lambda>item e. ntf_ID (prm_Notification item) = ntf_ID n
      \<and> promotes {(ntf_ID n, att_ID a)} d e)"
proof -
  note c = core_fields [OF assms(5)]
  have scan: "\<exists>v. unmarshalVariables (ntf_Variables n') = Inr v"
    using assms(1,4) unfolding c schedulable_def list_all_iff by (cases "unmarshalVariables (ntf_Variables n)") auto
  have marked: "promotes {(ntf_ID n, att_ID a)} d (e\<lparr>db_notifications := update_where (\<lambda>m. ntf_ID m = ntf_ID n)
      (\<lambda>m. m\<lparr>ntf_PromotedAt := Some (coalesce (ntf_PromotedAt m) now), ntf_UpdatedAt := t\<rparr>) (db_notifications e)\<rparr>)"
    if "intent_added a d e" for e t
    using that unfolding intent_added_def promotes_def
    by (auto simp: update_where_def list_all2_map2 kept_row_def core_def intro!: list.rel_refl_strong)
  show ?thesis
    using scan assms c
    by (auto intro!: run_andThen run_scanNotification run_mono [OF run_promotion_intent] run_updates run_return marked
        simp: mark_promoted_def)
qed

lemma lv_promote_row: "ntf_ID n \<in> ids \<Longrightarrow> obeys (moves_live ids) w_db (promote_row now (n, a))"
  by (auto intro!: lv_after_scan lv_promotion lv.db_compose lv_mark_promoted)

definition row_ids :: "(notification \<times> attempt) list \<Rightarrow> (string \<times> string) set" where
  "row_ids rows = (\<lambda>(n, a). (ntf_ID n, att_ID a)) ` set rows"

lemma row_ids_simps [simp]:
  "row_ids [] = {}" "row_ids (xs @ ys) = row_ids xs \<union> row_ids ys" "row_ids [(n, a)] = {(ntf_ID n, att_ID a)}"
  by (auto simp: row_ids_def)

lemma run_promote_rows:
  assumes "schedulable d" "set rows \<subseteq> set (promotable now d)"
  shows "run True (forEach rows (promote_row now)) d (\<lambda>_ _. False) (\<lambda>_ d'. promotes (row_ids rows) d d' \<and> wf_db d')"
proof -
  let ?ids = "ntf_ID ` fst ` set rows"
  have wf: "wf_db d" using assms(1) by (simp add: schedulable_def)
  have live: "live ?ids d"
  proof (rule live_read [OF wf])
    fix i assume "i \<in> ?ids"
    then obtain n a where "i = ntf_ID n" "(n, a) \<in> set (promotable now d)" using assms(2) by auto
    then show "\<exists>n \<in> set (db_notifications d). ntf_ID n = i \<and> ntf_CancelledAt n = None"
      by (auto simp: set_promotable due_def)
  qed
  have "run True (forEach rows (promote_row now)) d (\<lambda>_ _. False)
      (\<lambda>_ d'. promotes (row_ids rows) d d' \<and> wf_db d' \<and> live ?ids d')"
  proof (rule run_forEach [where I = "\<lambda>pre _ d'. promotes (row_ids pre) d d' \<and> wf_db d' \<and> live ?ids d'"])
    fix pre post and items :: "promoted list" and e and x :: "notification \<times> attempt"
    assume x: "rows = pre @ x # post" and e: "promotes (row_ids pre) d e \<and> wf_db e \<and> live ?ids e"
    obtain n a where na: "x = (n, a)" by (cases x)
    have "(n, a) \<in> set (promotable now d)" using assms(2) x na by auto
    then have n: "n \<in> set (db_notifications d)" "a \<in> set (db_attempts e)"
      using e by (auto simp: set_promotable set_initial promotes_def)
    from kept_notifications(1) [OF conjunct1 [OF e] n(1)] obtain n' where n': "n' \<in> set (db_notifications e)" "core n = core n'"
      unfolding kept_row_def by metis
    have id: "ntf_ID n' = ntf_ID n" using core_fields(1) [OF n'(2)] by simp
    have i: "ntf_ID n \<in> ?ids" using x na by force
    have sound: "wf_db e" "live ?ids e" using e by blast+
    have "schedulable e" using schedulable_kept [OF assms(1)] e by blast
    note row = run_live [OF run_promote_row [OF this sound(1) n(2) n'] lv_promote_row [OF i] sound]
    show "run True (promote_row now x) e (\<lambda>_ _. False)
        (\<lambda>_ d'. promotes (row_ids (pre @ [x])) d d' \<and> wf_db d' \<and> live ?ids d')"
      unfolding na by (rule run_mono [OF row]) (use e id in \<open>auto dest: promotes_trans\<close>)
  qed (use wf live in \<open>simp add: promotes_refl\<close>)
  then show ?thesis by (rule run_mono) auto
qed

lemma promotes_status: "promotes K d e \<Longrightarrow> promotes K d (with_status i s t e)"
proof -
  assume "promotes K d e"
  moreover have "promotes {} e (with_status i s t e)"
    by (auto simp: promotes_def with_status_def update_where_def list_all2_map2 kept_row_def core_def intro!: list.rel_refl_strong)
  ultimately show ?thesis using promotes_trans [of K d e "{}"] by simp
qed

lemma run_statuses:
  assumes "promotes K d e" "wf_db e"
  shows "run True (forEach items (\<lambda>item. RecalculateNotificationStatus (f item))) e
    (\<lambda>_ d'. promotes K d d' \<and> wf_db d') (\<lambda>_ d'. promotes K d d' \<and> wf_db d')"
proof (rule run_forEach [where I = "\<lambda>_ _ d'. promotes K d d' \<and> wf_db d'"])
  fix e x assume e: "promotes K d e \<and> wf_db e"
  then show "run True (RecalculateNotificationStatus (f x)) e (\<lambda>_ d'. promotes K d d' \<and> wf_db d') (\<lambda>_ d'. promotes K d d' \<and> wf_db d')"
    by (intro run_mono [OF run_kept [OF run_Recalculate moves_Recalculate]]) (auto intro: promotes_status)
qed (use assms in simp)

definition chosen :: "int \<Rightarrow> time \<Rightarrow> db \<Rightarrow> (string \<times> string) set" where
  "chosen limit now d = row_ids (take (limit_or 100 limit) (promotable now d))"

lemma run_Promote:
  assumes "schedulable d"
  shows "run True (PromoteDueScheduledNotifications limit now) d
    (\<lambda>_ d'. promotes (chosen limit now d) d d' \<and> wf_db d') (\<lambda>_ d'. promotes (chosen limit now d) d d' \<and> wf_db d')"
  unfolding PromoteDueScheduledNotifications_def
  apply (rule run_andThen, rule run_transaction, rule run_andThen, rule run_query, rule run_andThen)
     apply (rule run_mono [OF run_promote_rows [OF assms(1), of _ now]])
       apply (simp_all add: set_take_subset)
  apply (rule run_commit_with)
  apply (auto simp: chosen_def intro!: run_andThen run_mono [OF run_statuses] run_return)
  done

lemma promotes_audited: "promotes K d e \<Longrightarrow> audited e f \<Longrightarrow> promotes K d f"
  by (auto simp: promotes_def audited_def)

lemma run_scheduler_pass:
  assumes "schedulable d"
  shows "run True (scheduler_runOnce now) d (\<lambda>_ d'. promotes (chosen 50 now d) d d' \<and> wf_db d') (\<lambda>_ d'. promotes (chosen 50 now d) d d' \<and> wf_db d')"
proof -
  have audit: "run True (RecordAuditEvent i tn ac an rt ri md) e (\<lambda>_ d'. promotes (chosen 50 now d) d d' \<and> wf_db d') (\<lambda>_ d'. promotes (chosen 50 now d) d d' \<and> wf_db d')"
    if "promotes (chosen 50 now d) d e \<and> wf_db e" for i tn ac an rt ri md e
    by (rule run_mono [OF run_kept [OF run_audited moves_records(4) conjunct2 [OF that]]]) (use that promotes_audited in blast)+
  show ?thesis
    unfolding scheduler_runOnce_def
    apply (rule run_andThen, rule run_mono [OF run_Promote [OF assms]])
     apply simp
    apply (rule run_andThen, rule run_mono [OF run_forEach [where I = "\<lambda>_ _ d'. promotes (chosen 50 now d) d d' \<and> wf_db d'" and
        E = "\<lambda>_ d'. promotes (chosen 50 now d) d d' \<and> wf_db d'"]])
    by (auto intro!: run_andThen run_generateID run_ignore audit run_return)
qed

subsection \<open>The longest due come first\<close>

lemma distinct_pairs:
  "distinct ns \<Longrightarrow> (\<And>n. distinct (g n)) \<Longrightarrow> distinct (concat (map (\<lambda>n. map (Pair n) (g n)) ns))"
  by (induction ns) (auto simp: distinct_map inj_on_def)

lemma distinct_promotable:
  assumes "wf_db d"
  shows "distinct (map (\<lambda>(n, a). (ntf_ID n, att_ID a)) (promotable now d))"
  unfolding distinct_map
proof
  have "distinct (db_notifications d)" "distinct (db_attempts d)"
    using assms by (auto simp: wf_db_defs distinct_map)
  then show "distinct (promotable now d)"
    unfolding promotable_def distinct_sort by (intro distinct_pairs) (simp_all add: initial_attempts_def)
  show "inj_on (\<lambda>(n, a). (ntf_ID n, att_ID a)) (set (promotable now d))"
    using notification_unique [OF assms] same_attempt [OF assms]
    by (auto simp: inj_on_def set_promotable set_initial)
qed

lemma due_mono: "due t n \<Longrightarrow> t \<le> now \<Longrightarrow> due now n"
  by (auto simp: due_def split: option.splits)

lemma due_before: "due now m \<Longrightarrow> ntf_ScheduledFor m \<le> ntf_ScheduledFor n \<Longrightarrow> due t n \<Longrightarrow> due t m"
  by (auto simp: due_def split: option.splits)

lemma chosen_first:
  assumes "wf_db d" "t \<le> now" "0 < limit" "\<not> unpromoted t d \<subseteq> chosen limit now d"
  shows "chosen limit now d \<subseteq> unpromoted t d \<and> card (chosen limit now d) = nat limit"
proof -
  let ?L = "promotable now d" and ?ids = "\<lambda>(n, a). (ntf_ID n, att_ID a)"
  let ?key = "\<lambda>(n, a). (ntf_ScheduledFor n, ntf_SubmittedAt n)" and ?k = "nat limit"
  have k: "limit_or 100 limit = ?k" using assms(3) by (simp add: limit_or_def)
  have K: "chosen limit now d = ?ids ` set (take ?k ?L)" by (simp add: chosen_def row_ids_def k)
  obtain n a where na: "(n, a) \<in> set (promotable t d)" "?ids (n, a) \<notin> chosen limit now d"
    using assms(4) by (auto simp: unpromoted_def)
  have "(n, a) \<in> set ?L" using na(1) due_mono [OF _ assms(2)] by (auto simp: set_promotable)
  moreover have "(n, a) \<notin> set (take ?k ?L)" using na(2) unfolding K by blast
  ultimately have late: "(n, a) \<in> set (drop ?k ?L)" by (metis Un_iff append_take_drop_id set_append)
  then have "?k \<le> length ?L" by (cases "?k \<le> length ?L") simp_all
  moreover have "distinct (map ?ids (take ?k ?L))"
    using distinct_promotable [OF assms(1)] by (metis distinct_take take_map)
  note distinct_card [OF this]
  ultimately have "card (chosen limit now d) = ?k" unfolding K by simp
  moreover have "?ids (m, b) \<in> unpromoted t d" if m: "(m, b) \<in> set (take ?k ?L)" for m b
  proof -
    have "sorted (map ?key (take ?k ?L @ drop ?k ?L))" unfolding append_take_drop_id by (simp add: promotable_def)
    then have "\<forall>x \<in> set (take ?k ?L). \<forall>y \<in> set (drop ?k ?L). ?key x \<le> ?key y" unfolding map_append sorted_append by auto
    from bspec [OF bspec [OF this m] late] have "ntf_ScheduledFor m \<le> ntf_ScheduledFor n" by (auto simp: less_eq_prod_def)
    moreover have "(m, b) \<in> set ?L" using m by (rule in_set_takeD)
    ultimately have "(m, b) \<in> set (promotable t d)" using na(1) due_before [of now m n t] by (simp add: set_promotable)
    then show ?thesis unfolding unpromoted_def by (rule imageI)
  qed
  ultimately show ?thesis unfolding K by (intro conjI image_subsetI) auto
qed

lemma finite_unpromoted [simp]: "finite (unpromoted t d)"
  by (simp add: unpromoted_def)

lemma chosen_progress:
  assumes "wf_db d" "t \<le> now" "0 < limit"
  shows "unpromoted t d - chosen limit now d = {} \<or>
    card (unpromoted t d - chosen limit now d) + nat limit \<le> card (unpromoted t d)"
proof (cases "unpromoted t d \<subseteq> chosen limit now d")
  case False
  note c = chosen_first [OF assms this]
  then have "finite (chosen limit now d)" using finite_subset finite_unpromoted by blast
  with c card_mono [OF finite_unpromoted, of "chosen limit now d" t d] show ?thesis by (simp add: card_Diff_subset)
qed auto

subsection \<open>The clock\<close>

interpretation ck: history "(\<le>) :: time \<Rightarrow> time \<Rightarrow> bool"
  by unfold_locales auto

lemma clock_step: "w_clock w \<le> w_clock (snd (step w))"
  by (auto simp: step_def split: list.splits)

lemma clock_stmt: "obeys (\<le>) w_clock (stmt f)"
  unfolding obeys_def
proof
  fix w :: "'x world_scheme"
  show "w_clock w \<le> w_clock (snd (stmt f w))"
    using clock_step [of w] by (auto simp: stmt_def split: prod.splits fault.splits sum.splits)
qed

lemma clock_time_Now: "obeys (\<le>) w_clock time_Now"
  unfolding obeys_def
proof
  fix w :: "'x world_scheme"
  show "w_clock w \<le> w_clock (snd (time_Now w))"
    using clock_step [of w] by (auto simp: time_Now_def split: prod.splits)
qed

lemma clock_transaction:
  fixes body :: "('x world_scheme, bool \<times> 'a) sm"
  assumes "obeys (\<le>) w_clock body" shows "obeys (\<le>) w_clock (transaction body)"
  unfolding obeys_def
proof
  fix w :: "'x world_scheme"
  obtain flt w1 where 1: "step w = (flt, w1)" by (cases "step w")
  obtain r w2 where 2: "body (w1\<lparr>w_tx := Some (w_clock w1)\<rparr>) = (r, w2)" by (cases "body (w1\<lparr>w_tx := Some (w_clock w1)\<rparr>)")
  obtain flt3 w3 where 3: "step w2 = (flt3, w3)" by (cases "step w2")
  have "w_clock w \<le> w_clock w1" "w_clock w1 \<le> w_clock w2" "w_clock w2 \<le> w_clock w3"
    using clock_step [of w] clock_step [of w2] obeysD [OF assms 2] by (simp_all add: 1 3)
  then show "w_clock w \<le> w_clock (snd (transaction body w))"
    by (auto simp: transaction_def 1 2 3 split: fault.splits sum.splits bool.splits)
qed

lemma clock_statements:
  "obeys (\<le>) w_clock (query g)" "obeys (\<le>) w_clock (query_row g')" "obeys (\<le>) w_clock (update_notifications P f)"
  "obeys (\<le>) w_clock (insert_unless c k row ins)" "obeys (\<le>) w_clock (insert_returning row ins)"
  "obeys (\<le>) w_clock (commit_with x)"
  unfolding query_def query_row_def statement_defs insert_unless_def insert_returning_def commit_with_def
  by (rule clock_stmt ck.return)+

lemma clock_cases:
  "(\<And>x y. obeys (\<le>) w_clock (f x y)) \<Longrightarrow> obeys (\<le>) w_clock (case p of (x, y) \<Rightarrow> f x y)"
  "(\<And>x. obeys (\<le>) w_clock (g x)) \<Longrightarrow> (\<And>x. obeys (\<le>) w_clock (h x)) \<Longrightarrow>
     obeys (\<le>) w_clock (case q of Inl x \<Rightarrow> g x | Inr x \<Rightarrow> h x)"
  by (cases p, simp) (cases q, simp_all)

lemmas clock_intros = ck.compose clock_time_Now clock_transaction clock_statements clock_cases

lemma clock_scheduler_pass: "obeys (\<le>) w_clock (scheduler_runOnce now)"
  unfolding scheduler_runOnce_def PromoteDueScheduledNotifications_def scanNotification_def createDispatchIntentTx_def
    mark_promoted_def RecalculateNotificationStatus_def ListDeliveryAttemptsByNotificationID_def is_later_def
    generateID_def RecordAuditEvent_def or_wrapped_def or_not_found_def
  by (intro clock_intros)

subsection \<open>Passes one after the other\<close>

text \<open>What a number of passes does to what waits since \<open>t\<close>: fifty less for each, or nothing is left.\<close>

definition caught_up :: "nat \<Rightarrow> time \<Rightarrow> db \<Rightarrow> db \<Rightarrow> bool" where
  "caught_up passes t d d' = (int_AttemptID ` set (db_outbox d) \<subseteq> int_AttemptID ` set (db_outbox d')
     \<and> (\<forall>p \<in> unpromoted t d. p \<in> unpromoted t d' \<or> snd p \<in> int_AttemptID ` set (db_outbox d'))
     \<and> unpromoted t d' \<subseteq> unpromoted t d
     \<and> (unpromoted t d' = {} \<or> card (unpromoted t d') + 50 * passes \<le> card (unpromoted t d)))"

lemma caught_up_trans: "caught_up m t d e \<Longrightarrow> caught_up n t e f \<Longrightarrow> caught_up (m + n) t d f"
  unfolding caught_up_def by (auto simp: subset_iff)

definition scheduler_tick :: "('x world_scheme, unit) sm" where
  "scheduler_tick = andThen time_Now scheduler_runOnce"

lemma scheduler_tick_progress:
  assumes "calm w" "schedulable (w_db w)" "t \<le> w_clock w" "scheduler_tick w = (r, w')"
  shows "calm w' \<and> schedulable (w_db w') \<and> t \<le> w_clock w' \<and> caught_up 1 t (w_db w) (w_db w')"
proof -
  obtain flt v where v: "step w = (flt, v)" "w_db v = w_db w" "calm w \<longrightarrow> calm v \<and> flt = Fine" by (rule step_cases [of w])
  obtain now u where u: "time_Now w = (Inr now, u)" "now = w_clock u" "w_db u = w_db w" "calm u"
    by (rule that [of "w_clock v" v]) (use v assms(1) in \<open>simp_all add: time_Now_def\<close>)
  have r: "scheduler_runOnce now u = (r, w')"
    using assms(4) u(1) by (simp add: scheduler_tick_def andThen_eq)
  have now: "t \<le> now" using assms(3) obeysD [OF clock_time_Now u(1)] u(2) by simp
  let ?K = "chosen 50 now (w_db w)"
  have "run True (scheduler_runOnce now) (w_db u) (\<lambda>_ d'. promotes ?K (w_db w) d' \<and> wf_db d') (\<lambda>_ d'. promotes ?K (w_db w) d' \<and> wf_db d')"
    using run_scheduler_pass [OF assms(2)] by (simp add: u(3))
  from run_ends [OF this _ r] u(4) have p: "calm w'" "promotes ?K (w_db w) (w_db w')" "wf_db (w_db w')"
    by (auto split: sum.splits)
  have wf: "wf_db (w_db w)" using assms(2) by (simp add: schedulable_def)
  have "?K \<subseteq> unpromoted now (w_db w)" by (auto simp: chosen_def row_ids_def unpromoted_def dest: in_set_takeD)
  from unpromoted_after [OF assms(2) p(2) this] have after: "unpromoted t (w_db w') = unpromoted t (w_db w) - ?K" .
  have "int_AttemptID ` set (db_outbox (w_db w)) \<subseteq> int_AttemptID ` set (db_outbox (w_db w'))"
    "snd ` ?K \<subseteq> int_AttemptID ` set (db_outbox (w_db w'))"
    using p(2) by (auto simp: promotes_def)
  then have "caught_up 1 t (w_db w) (w_db w')"
    using chosen_progress [OF wf now, of 50] unfolding caught_up_def after by auto
  then show ?thesis
    using p schedulable_kept [OF assms(2) p(2,3)] now u(2) obeysD [OF clock_scheduler_pass r] by simp
qed

end
