(* ===== verification/Process_Loops.thy ===== *)
theory Process_Loops
  imports Entry_Points Scheduler_Progress
begin

text \<open>
  The processes that pass over the tables and the lists on a ticker, from their start on (\<^verbatim>\<open>cmd/outbox_publisher\<close>,
  \<^verbatim>\<open>cmd/retry_worker\<close>, \<^verbatim>\<open>cmd/scheduler\<close>, \<^verbatim>\<open>cmd/maintenance\<close>, \<^verbatim>\<open>cmd/dispatcher\<close>), and that the scheduler
  catches up with what is due.
\<close>

definition publisher_main ::
    "platform \<Rightarrow> config \<Rightarrow> nat \<Rightarrow> (err \<Rightarrow> string) \<Rightarrow> job_codec \<Rightarrow> ('t, 'r) redis_server \<Rightarrow> nat \<Rightarrow>
     (('t, 'r, 'x) redis_world_scheme \<times> 'y world_scheme, unit) sm" where
  "publisher_main pf cfg fuel text jc srv ticks =
     andThen (on_queue (publisher_startup pf cfg srv)) (\<lambda>_.
     ticker_loop ticks (RunOnce fuel text jc srv (cfg_QueueSoftLimit cfg)))"

definition retry_main :: "platform \<Rightarrow> config \<Rightarrow> nat \<Rightarrow> ('x world_scheme, unit) sm" where
  "retry_main pf cfg ticks = andThen (store_startup pf cfg) (\<lambda>_. ticker_loop ticks retry_runOnce)"

definition scheduler_main :: "platform \<Rightarrow> config \<Rightarrow> nat \<Rightarrow> ('x world_scheme, unit) sm" where
  "scheduler_main pf cfg ticks = andThen (store_startup pf cfg) (\<lambda>_. ticker_loop ticks scheduler_tick)"

definition maintenance_main :: "platform \<Rightarrow> config \<Rightarrow> ('x world_scheme, cleanup_result) sm" where
  "maintenance_main pf cfg = andThen (maintenance_startup pf cfg) (\<lambda>_. andThen time_Now (\<lambda>now.
     handle (maintenance_run cfg now) (\<lambda>_. exit_with ''maintenance run failed'') return))"

definition dispatcher_main ::
    "platform \<Rightarrow> config \<Rightarrow> nat \<Rightarrow> nat \<Rightarrow> nat \<Rightarrow> job_codec \<Rightarrow> ('t, 'r) redis_server \<Rightarrow> ('t, 'r, 'y, dispatch_report list) qm" where
  "dispatcher_main pf cfg fuel passes polls jc srv =
     andThen (dispatcher_startup pf cfg fuel srv) (\<lambda>_. dispatcher passes polls jc srv)"

subsection \<open>They move rows forward\<close>

lemma moves_ticker: "obeys moves w_db m \<Longrightarrow> obeys moves w_db (ticker_loop ticks m)"
  by (induction ticks) (auto intro!: mv.db_compose)

lemma moves_startup: "obeys moves w_db (store_startup pf cfg)" "obeys moves w_db (maintenance_startup pf cfg)"
  unfolding store_startup_def maintenance_startup_def unless_exit_def exit_with_def by (intro mv.db_compose)+

text \<open>None of them ever takes a row back, whatever the connection does.\<close>

lemma moves_mains:
  "obeys moves w_db (retry_main pf cfg ticks)" "obeys moves w_db (scheduler_main pf cfg ticks)"
  "obeys moves w_db (maintenance_main pf cfg)"
  unfolding retry_main_def scheduler_main_def scheduler_tick_def maintenance_main_def exit_with_def
  by (intro mv.db_compose moves_startup moves_ticker moves_passes mv.time_Now)+

subsection \<open>The scheduler catches up\<close>

lemma scheduler_ticks_progress:
  assumes "calm w" "schedulable (w_db w)" "t \<le> w_clock w"
  shows "\<exists>w'. ticker_loop ticks scheduler_tick w = (Inr (), w') \<and> caught_up (Suc ticks) t (w_db w) (w_db w')"
  using assms
proof (induction ticks arbitrary: w)
  case 0
  obtain r w' where r: "scheduler_tick w = (r, w')" by (cases "scheduler_tick w")
  with scheduler_tick_progress [OF "0.prems" r] show ?case
    by (cases r) (simp_all add: ignore_def handle_eq return_eq)
next
  case (Suc ticks)
  obtain r u where r: "scheduler_tick w = (r, u)" by (cases "scheduler_tick w")
  note p = scheduler_tick_progress [OF Suc.prems r]
  from Suc.IH [of u] p obtain w' where w': "ticker_loop ticks scheduler_tick u = (Inr (), w')"
    "caught_up (Suc ticks) t (w_db u) (w_db w')" by blast
  from caught_up_trans [of 1, OF _ w'(2)] p have "caught_up (Suc (Suc ticks)) t (w_db w) (w_db w')" by simp
  then show ?case using r w'(1) by (cases r) (simp_all add: ignore_def handle_eq return_eq andThen_eq)
qed


definition due_sample :: world where
  "due_sample = sample5\<lparr>w_clock := 60\<rparr>"


end
